theory Spec2Isabelle
  imports Complex_Main
begin

text \<open>
  The canvas code of the virtual assistant: the layout generators, the validator and the
  filename sanitizer of the plugin (\<^verbatim>\<open>src/services/canvas.ts\<close>), the generators of the
  server (\<^verbatim>\<open>mcp-server/src/canvas.ts\<close>) and the path guard of its vault service.  The
  definitions follow the source functions and keep their names; the properties come
  after them.
\<close>

section \<open>JavaScript strings\<close>

text \<open>
  A JavaScript string is modelled as an Isabelle \<^typ>\<open>string\<close>: a list of characters, each
  read as one code unit in the range U+0000 to U+00FF.  On this range the whitespace of
  \<^verbatim>\<open>\s\<close> and \<^verbatim>\<open>trim()\<close> is TAB, LF, VT, FF, CR, SPACE and NBSP, and
  \<^verbatim>\<open>toLowerCase()\<close> maps A-Z and the Latin-1 capitals U+00C0 to U+00DE (without the
  multiplication sign U+00D7) to the letter 32 code units above.  The bullet U+2022
  of the character class \<^verbatim>\<open>[-*\<bullet>]\<close> lies outside the range, so on these strings the
  class matches the hyphen and the asterisk.
\<close>

definition isWhiteSpace :: "char \<Rightarrow> bool" where
  "isWhiteSpace c \<longleftrightarrow>
     c \<in> set [CHR 0x09, CHR 0x0A, CHR 0x0B, CHR 0x0C, CHR 0x0D, CHR 0x20, CHR 0xA0]"

definition trim :: "string \<Rightarrow> string" where
  "trim s = rev (dropWhile isWhiteSpace (rev (dropWhile isWhiteSpace s)))"

definition lowerChar :: "char \<Rightarrow> char" where
  "lowerChar c =
     (let n = (of_char c :: nat)
      in if (65 \<le> n \<and> n \<le> 90) \<or> (192 \<le> n \<and> n \<le> 222 \<and> n \<noteq> 215)
         then char_of (n + 32) else c)"

definition toLowerCase :: "string \<Rightarrow> string" where
  "toLowerCase s = map lowerChar s"

definition startsWith :: "string \<Rightarrow> string \<Rightarrow> bool" where
  "startsWith s p \<longleftrightarrow> take (length p) s = p"

fun includesStr :: "string \<Rightarrow> string \<Rightarrow> bool" where
  "includesStr [] p = (p = [])"
| "includesStr (c # cs) p = (startsWith (c # cs) p \<or> includesStr cs p)"

fun split :: "char \<Rightarrow> string \<Rightarrow> string list" where
  "split sep [] = [[]]"
| "split sep (c # cs) =
     (if c = sep then [] # split sep cs
      else (case split sep cs of [] \<Rightarrow> [[c]] | l # ls \<Rightarrow> (c # l) # ls))"

definition substring0 :: "nat \<Rightarrow> string \<Rightarrow> string" where
  "substring0 n s = take n s"

text \<open>
  \<^verbatim>\<open>s.replace(/^[-*\<bullet>]\s*/, '')\<close>: a leading bullet marker and the whitespace after it
  are removed; a string that does not start with a marker is unchanged.
\<close>

definition stripBullet :: "string \<Rightarrow> string" where
  "stripBullet s =
     (case s of [] \<Rightarrow> []
      | c # cs \<Rightarrow> if c = CHR ''-'' \<or> c = CHR ''*'' then dropWhile isWhiteSpace cs else s)"

text \<open>\<^verbatim>\<open>s.replace(/^#\s*/, '')\<close> and \<^verbatim>\<open>s.replace(/^##?\s*/, '')\<close>.\<close>

definition stripHash :: "string \<Rightarrow> string" where
  "stripHash s =
     (case s of [] \<Rightarrow> []
      | c # cs \<Rightarrow> if c = CHR ''#'' then dropWhile isWhiteSpace cs else s)"

definition stripHashes :: "string \<Rightarrow> string" where
  "stripHashes s =
     (case s of [] \<Rightarrow> []
      | c # cs \<Rightarrow>
          if c = CHR ''#'' then
            (case cs of [] \<Rightarrow> []
             | d # ds \<Rightarrow> if d = CHR ''#'' then dropWhile isWhiteSpace ds
                        else dropWhile isWhiteSpace cs)
          else s)"

section \<open>Filename sanitization\<close>

text \<open>
  Both \<^verbatim>\<open>CanvasService.sanitizeFilename\<close> (plugin) and
  \<^verbatim>\<open>CanvasGenerator.sanitizeFilename\<close> (server) are
  \<^verbatim>\<open>name.replace(/[\\/:*?"<>|]/g, '-').replace(/\s+/g, '-').substring(0, 100)\<close>.
\<close>

definition isReserved :: "char \<Rightarrow> bool" where
  "isReserved c \<longleftrightarrow>
     c \<in> set [CHR 0x5C, CHR ''/'', CHR '':'', CHR ''*'', CHR ''?'', CHR 0x22,
               CHR ''<'', CHR ''>'', CHR ''|'']"

definition replaceReserved :: "string \<Rightarrow> string" where
  "replaceReserved s = map (\<lambda>c. if isReserved c then CHR ''-'' else c) s"

function replaceWhitespaceRuns :: "string \<Rightarrow> string" where
  "replaceWhitespaceRuns [] = []"
| "replaceWhitespaceRuns (c # cs) =
     (if isWhiteSpace c then CHR ''-'' # replaceWhitespaceRuns (dropWhile isWhiteSpace cs)
      else c # replaceWhitespaceRuns cs)"
  by pat_completeness auto
termination
  by (relation "measure length") (auto simp: less_Suc_eq_le length_dropWhile_le)

definition sanitizeFilename :: "string \<Rightarrow> string" where
  "sanitizeFilename name = substring0 100 (replaceWhitespaceRuns (replaceReserved name))"

section \<open>Canvas data\<close>

text \<open>
  The \<^verbatim>\<open>CanvasNode\<close>, \<^verbatim>\<open>CanvasEdge\<close> and \<^verbatim>\<open>CanvasData\<close> interfaces of both
  \<^verbatim>\<open>canvas.ts\<close> files, with the fields the layout generators write.  The type of
  identifiers is a parameter: the generators never inspect an identifier.

  A JavaScript number is an IEEE 754 double: a finite value, read as the real number it
  denotes, \<^verbatim>\<open>NaN\<close> or an infinity.
\<close>

datatype jsnum = Num real | NaN | PosInfinity | NegInfinity

text \<open>
  Comparison, \<^verbatim>\<open>Math.abs\<close> and negation are exact on doubles.  \<^verbatim>\<open>a > b\<close> is false
  when either operand is \<^verbatim>\<open>NaN\<close>.
\<close>

fun absNum :: "jsnum \<Rightarrow> jsnum" where
  "absNum (Num r) = Num \<bar>r\<bar>"
| "absNum NaN = NaN"
| "absNum PosInfinity = PosInfinity"
| "absNum NegInfinity = PosInfinity"

fun negNum :: "jsnum \<Rightarrow> jsnum" where
  "negNum (Num r) = Num (- r)"
| "negNum NaN = NaN"
| "negNum PosInfinity = NegInfinity"
| "negNum NegInfinity = PosInfinity"

fun gtNum :: "jsnum \<Rightarrow> jsnum \<Rightarrow> bool" where
  "gtNum (Num r) (Num s) = (r > s)"
| "gtNum (Num r) NegInfinity = True"
| "gtNum PosInfinity (Num s) = True"
| "gtNum PosInfinity NegInfinity = True"
| "gtNum _ _ = False"

text \<open>
  The operations that round (\<^verbatim>\<open>+\<close>, \<^verbatim>\<open>-\<close>, \<^verbatim>\<open>*\<close>, \<^verbatim>\<open>/\<close>, \<^verbatim>\<open>Math.cos\<close>,
  \<^verbatim>\<open>Math.sin\<close>) and the double \<^verbatim>\<open>Math.PI\<close> belong to the platform, not to the
  repository.  The mind-map layouts and \<^verbatim>\<open>getClosestSide\<close>, which use them on values that
  are not small integers, take them as a parameter.  (The taskboard and the risk matrix
  compute with products and sums of small integers, on which the double operations are
  exact.)
\<close>

record arith =
  fadd :: "jsnum \<Rightarrow> jsnum \<Rightarrow> jsnum"
  fsub :: "jsnum \<Rightarrow> jsnum \<Rightarrow> jsnum"
  fmul :: "jsnum \<Rightarrow> jsnum \<Rightarrow> jsnum"
  fdiv :: "jsnum \<Rightarrow> jsnum \<Rightarrow> jsnum"
  fcos :: "jsnum \<Rightarrow> jsnum"
  fsin :: "jsnum \<Rightarrow> jsnum"
  fpi :: jsnum

datatype node_type = TextNode | FileNode | LinkNode | GroupNode

datatype side = Top | Right | Bottom | Left

text \<open>
  The value of a property read \<^verbatim>\<open>obj[key]\<close> on an object literal whose own properties are
  strings: an own string, or a member inherited from \<^verbatim>\<open>Object.prototype\<close> (a function or
  an object, never a string), named by its key.
\<close>

datatype jsprop = Str string | Inherited string

record 'i canvas_node =
  n_id :: 'i
  n_type :: node_type
  n_x :: jsnum
  n_y :: jsnum
  n_width :: jsnum
  n_height :: jsnum
  n_text :: "string option"
  n_label :: "string option"
  n_color :: "jsprop option"

record 'i canvas_edge =
  e_id :: 'i
  e_fromNode :: 'i
  e_toNode :: 'i
  e_fromSide :: "side option"
  e_toSide :: "side option"

record 'i canvas_data =
  nodes :: "'i canvas_node list"
  edges :: "'i canvas_edge list"

text \<open>
  \<^verbatim>\<open>generateUniqueId()\<close> (plugin) and \<^verbatim>\<open>generateId()\<close> (server) read the random
  source and the clock.  The sequence of identifiers they return during one graph
  construction is a parameter \<open>gen\<close> of every generator: the call number \<open>k\<close> (counted
  from 0) returns \<open>gen k\<close>, and the generators thread the number of calls made so far.
  What the two functions make of the values of the random source and the clock is
  defined with the plugin and with the server below.
\<close>

type_synonym 'i idgen = "nat \<Rightarrow> 'i"

text \<open>Renaming the identifiers of a graph.\<close>

definition rename_node :: "('i \<Rightarrow> 'j) \<Rightarrow> 'i canvas_node \<Rightarrow> 'j canvas_node" where
  "rename_node f n =
     \<lparr>n_id = f (n_id n), n_type = n_type n, n_x = n_x n, n_y = n_y n,
      n_width = n_width n, n_height = n_height n, n_text = n_text n,
      n_label = n_label n, n_color = n_color n\<rparr>"

definition rename_edge :: "('i \<Rightarrow> 'j) \<Rightarrow> 'i canvas_edge \<Rightarrow> 'j canvas_edge" where
  "rename_edge f e =
     \<lparr>e_id = f (e_id e), e_fromNode = f (e_fromNode e), e_toNode = f (e_toNode e),
      e_fromSide = e_fromSide e, e_toSide = e_toSide e\<rparr>"

definition rename_canvas :: "('i \<Rightarrow> 'j) \<Rightarrow> 'i canvas_data \<Rightarrow> 'j canvas_data" where
  "rename_canvas f d =
     \<lparr>nodes = map (rename_node f) (nodes d), edges = map (rename_edge f) (edges d)\<rparr>"

section \<open>Helpers shared by the generators\<close>

text \<open>\<^verbatim>\<open>Array.prototype.indexOf\<close>: the first index of the element, or -1.\<close>

fun indexOf :: "'a list \<Rightarrow> 'a \<Rightarrow> int" where
  "indexOf [] v = -1"
| "indexOf (y # ys) v =
     (if v = y then 0 else (let r = indexOf ys v in if r < 0 then -1 else r + 1))"

text \<open>
  \<^verbatim>\<open>obj[key]\<close> on an object literal with the own string properties \<open>props\<close>: an own
  property wins; otherwise the members of \<^verbatim>\<open>Object.prototype\<close> are found; otherwise the
  read is \<^verbatim>\<open>undefined\<close>.
\<close>

definition objectPrototypeKeys :: "string list" where
  "objectPrototypeKeys =
     [''constructor'', ''__defineGetter__'', ''__defineSetter__'', ''hasOwnProperty'',
      ''__lookupGetter__'', ''__lookupSetter__'', ''isPrototypeOf'',
      ''propertyIsEnumerable'', ''toString'', ''valueOf'', ''__proto__'',
      ''toLocaleString'']"

definition getProp :: "(string \<times> string) list \<Rightarrow> string \<Rightarrow> jsprop option" where
  "getProp props key =
     (case map_of props key of
        Some v \<Rightarrow> Some (Str v)
      | None \<Rightarrow> if key \<in> set objectPrototypeKeys then Some (Inherited key) else None)"

text \<open>
  \<^verbatim>\<open>v || d\<close> for such a read: \<^verbatim>\<open>undefined\<close> and the empty string are falsy, functions
  and objects are truthy.
\<close>

definition orElse :: "jsprop option \<Rightarrow> string \<Rightarrow> jsprop" where
  "orElse v d =
     (case v of
        None \<Rightarrow> Str d
      | Some (Str s) \<Rightarrow> if s = [] then Str d else Str s
      | Some (Inherited k) \<Rightarrow> Inherited k)"

text \<open>
  \<^verbatim>\<open>getClosestSide\<close>, the same in both files.
\<close>

definition getClosestSide :: "arith \<Rightarrow> jsnum \<Rightarrow> jsnum \<Rightarrow> jsnum \<Rightarrow> jsnum \<Rightarrow> side" where
  "getClosestSide fp fromX fromY toX toY =
     (let dx = fsub fp toX fromX; dy = fsub fp toY fromY
      in if gtNum (absNum dx) (absNum dy) then (if gtNum dx (Num 0) then Right else Left)
         else (if gtNum dy (Num 0) then Bottom else Top))"

text \<open>The three risk levels \<^verbatim>\<open>'low' | 'medium' | 'high'\<close> and \<^verbatim>\<open>levels\<close>.\<close>

datatype level = Low | Medium | High

definition levels :: "level list" where
  "levels = [Low, Medium, High]"

fun levelName :: "level \<Rightarrow> string" where
  "levelName Low = ''low''"
| "levelName Medium = ''medium''"
| "levelName High = ''high''"

text \<open>
  \<^verbatim>\<open>getRiskColor\<close>, the same in both files:
  \<^verbatim>\<open>score = (levels.indexOf(impact) + 1) * (levels.indexOf(likelihood) + 1)\<close>.
\<close>

definition riskScore :: "level \<Rightarrow> level \<Rightarrow> int" where
  "riskScore impact likelihood = (indexOf levels impact + 1) * (indexOf levels likelihood + 1)"

definition getRiskColor :: "level \<Rightarrow> level \<Rightarrow> string" where
  "getRiskColor impact likelihood =
     (let score = riskScore impact likelihood
      in if score \<ge> 6 then ''1'' else if score \<ge> 3 then ''2'' else ''4'')"

text \<open>
  \<^verbatim>\<open>s.charAt(0).toUpperCase()\<close> and \<^verbatim>\<open>s.charAt(0).toUpperCase() + s.slice(1)\<close>.  The
  code applies them to the level names only; \<open>upperChar\<close> is \<^verbatim>\<open>toUpperCase\<close> on the
  letters whose capital lies in the range U+0000 to U+00FF.
\<close>

definition upperChar :: "char \<Rightarrow> char" where
  "upperChar c =
     (let n = (of_char c :: nat)
      in if (97 \<le> n \<and> n \<le> 122) \<or> (224 \<le> n \<and> n \<le> 254 \<and> n \<noteq> 247)
         then char_of (n - 32) else c)"

definition initialUpper :: "string \<Rightarrow> string" where
  "initialUpper s = map upperChar (take 1 s)"

definition capitalize :: "string \<Rightarrow> string" where
  "capitalize s = initialUpper s @ drop 1 s"

section \<open>Plugin: the layout generators of \<^verbatim>\<open>src/services/canvas.ts\<close>\<close>

text \<open>
  A \<^verbatim>\<open>forEach\<close> over an array is a \<open>fold\<close> over the list (with \<open>enumerate 0\<close> where the
  callback reads the index), whose state holds what the callback mutates: the node and
  edge arrays, the counters, and the number of identifiers generated so far.
\<close>

subsection \<open>\<^verbatim>\<open>generateUniqueId\<close>\<close>

text \<open>\<^verbatim>\<open>n.toString(36)\<close> for a natural number: its digits in base 36, \<^verbatim>\<open>0-9a-z\<close>.\<close>

definition digit36 :: "nat \<Rightarrow> char" where
  "digit36 d = ''0123456789abcdefghijklmnopqrstuvwxyz'' ! d"

fun toString36 :: "nat \<Rightarrow> string" where
  "toString36 n = (if n < 36 then [digit36 n] else toString36 (n div 36) @ [digit36 (n mod 36)])"

text \<open>
  \<^verbatim>\<open>Math.random().toString(36).substring(2, 9) + Date.now().toString(36)\<close>, where
  \<open>random\<close> is the string \<^verbatim>\<open>Math.random().toString(36)\<close> (\<^verbatim>\<open>0.\<close> and the digits of the
  random number in base 36) and \<open>now\<close> the number of milliseconds that \<^verbatim>\<open>Date.now()\<close>
  returns.
\<close>

definition generateUniqueId :: "string \<Rightarrow> nat \<Rightarrow> string" where
  "generateUniqueId random now = take 7 (drop 2 random) @ toString36 now"

text \<open>
  The identifiers that the successive calls return when the \<open>k\<close>-th call reads the random
  string \<open>randoms k\<close> and the time \<open>clock k\<close>.
\<close>

definition pluginIds :: "(nat \<Rightarrow> string) \<Rightarrow> (nat \<Rightarrow> nat) \<Rightarrow> string idgen" where
  "pluginIds randoms clock k = generateUniqueId (randoms k) (clock k)"

subsection \<open>\<^verbatim>\<open>createTaskboardCanvas\<close>\<close>

record task =
  t_title :: string
  t_status :: string
  t_priority :: "string option"

definition columns :: "string list" where
  "columns = [''To Do'', ''In Progress'', ''Review'', ''Done'']"

definition statusMap :: "(string \<times> string) list" where
  "statusMap =
     [(''pending'', ''To Do''), (''todo'', ''To Do''), (''in-progress'', ''In Progress''),
      (''inprogress'', ''In Progress''), (''review'', ''Review''),
      (''completed'', ''Done''), (''done'', ''Done'')]"

definition mapStatusToColumn :: "string \<Rightarrow> jsprop" where
  "mapStatusToColumn status = orElse (getProp statusMap (toLowerCase status)) ''To Do''"

definition columnColors :: "(string \<times> string) list" where
  "columnColors = [(''To Do'', ''2''), (''In Progress'', ''3''), (''Review'', ''5''), (''Done'', ''4'')]"

definition getColumnColor :: "string \<Rightarrow> jsprop" where
  "getColumnColor column = orElse (getProp columnColors column) ''1''"

definition priorityColors :: "(string \<times> string) list" where
  "priorityColors = [(''high'', ''1''), (''medium'', ''3''), (''low'', ''4'')]"

text \<open>\<^verbatim>\<open>colors[priority?.toLowerCase() || 'medium'] || '3'\<close>\<close>

definition getPriorityColor :: "string option \<Rightarrow> jsprop" where
  "getPriorityColor priority =
     (let key = (case priority of
                   None \<Rightarrow> ''medium''
                 | Some p \<Rightarrow> if toLowerCase p = [] then ''medium'' else toLowerCase p)
      in orElse (getProp priorityColors key) ''3'')"

text \<open>
  The column headers: \<^verbatim>\<open>columnWidth = 250\<close>, \<^verbatim>\<open>nodeHeight = 80\<close>, \<^verbatim>\<open>padding = 20\<close>,
  \<^verbatim>\<open>headerHeight = 50\<close>.
\<close>

fun columnHeader ::
  "'i idgen \<Rightarrow> task list \<Rightarrow> nat \<times> string \<Rightarrow> 'i canvas_node list \<times> nat
    \<Rightarrow> 'i canvas_node list \<times> nat" where
  "columnHeader gen tasks (i, col) (ns, k) =
     (ns @ [\<lparr>n_id = gen k, n_type = GroupNode,
             n_x = Num (real i * (250 + 20)), n_y = Num 0,
             n_width = Num 250,
             n_height = Num (50 + (real (length
                 (filter (\<lambda>t. mapStatusToColumn (t_status t) = Str col) tasks)) + 1) * (80 + 20)),
             n_text = None, n_label = Some col, n_color = Some (getColumnColor col)\<rparr>],
      Suc k)"

text \<open>
  \<^verbatim>\<open>columnCounts\<close> holds a number for each of the four column names.
  \<^verbatim>\<open>columnCounts[column]++\<close> on any other key (an inherited member, converted to a
  string that is none of the four names) reads \<^verbatim>\<open>undefined\<close>, yields \<^verbatim>\<open>NaN\<close> and
  stores \<^verbatim>\<open>NaN\<close>, so that such a key reads as \<^verbatim>\<open>NaN\<close> for ever: the model keeps
  the four numbers and gives \<open>None\<close> for the row index \<^verbatim>\<open>NaN\<close>.
\<close>

definition columnCounts0 :: "string \<rightharpoonup> nat" where
  "columnCounts0 = [''To Do'' \<mapsto> 0, ''In Progress'' \<mapsto> 0, ''Review'' \<mapsto> 0, ''Done'' \<mapsto> 0]"

definition readCount :: "(string \<rightharpoonup> nat) \<Rightarrow> jsprop \<Rightarrow> nat option" where
  "readCount counts column = (case column of Str c \<Rightarrow> counts c | Inherited _ \<Rightarrow> None)"

definition increment :: "(string \<rightharpoonup> nat) \<Rightarrow> jsprop \<Rightarrow> (string \<rightharpoonup> nat)" where
  "increment counts column =
     (case column of
        Str c \<Rightarrow> (case counts c of Some n \<Rightarrow> counts(c \<mapsto> n + 1) | None \<Rightarrow> counts)
      | Inherited _ \<Rightarrow> counts)"

definition columnIndex :: "jsprop \<Rightarrow> int" where
  "columnIndex column = (case column of Str c \<Rightarrow> indexOf columns c | Inherited _ \<Rightarrow> -1)"

definition priorityText :: "string option \<Rightarrow> string" where
  "priorityText priority =
     (case priority of None \<Rightarrow> ''Medium'' | Some p \<Rightarrow> if p = [] then ''Medium'' else p)"

fun taskNode ::
  "'i idgen \<Rightarrow> task \<Rightarrow> 'i canvas_node list \<times> (string \<rightharpoonup> nat) \<times> nat
    \<Rightarrow> 'i canvas_node list \<times> (string \<rightharpoonup> nat) \<times> nat" where
  "taskNode gen t (ns, counts, k) =
     (let column = mapStatusToColumn (t_status t);
          colIndex = columnIndex column;
          rowIndex = readCount counts column
      in (ns @ [\<lparr>n_id = gen k, n_type = TextNode,
                 n_x = Num (real_of_int (colIndex * (250 + 20) + 20)),
                 n_y = (case rowIndex of
                          Some r \<Rightarrow> Num (50 + 20 + real r * (80 + 20))
                        | None \<Rightarrow> NaN),
                 n_width = Num (250 - 2 * 20), n_height = Num 80,
                 n_text = Some (''**'' @ t_title t @ ''**'' @ [CHR 0x0A, CHR 0x0A]
                                @ ''Priority: '' @ priorityText (t_priority t)),
                 n_label = None,
                 n_color = Some (getPriorityColor (t_priority t))\<rparr>],
          increment counts column, Suc k))"

definition createTaskboardCanvas :: "'i idgen \<Rightarrow> task list \<Rightarrow> 'i canvas_data" where
  "createTaskboardCanvas gen tasks =
     (let (ns, k) = fold (columnHeader gen tasks) (enumerate 0 columns) ([], 0);
          (ns', counts, k') = fold (taskNode gen) tasks (ns, columnCounts0, k)
      in \<lparr>nodes = ns', edges = []\<rparr>)"

subsection \<open>\<^verbatim>\<open>createRiskMatrixCanvas\<close>\<close>

text \<open>
  The parameter type gives \<^verbatim>\<open>likelihood\<close> and \<^verbatim>\<open>impact\<close> the three level names, so
  \<^verbatim>\<open>cellCounts\<close>, keyed by \<^verbatim>\<open>`${impact}-${likelihood}`\<close> and set to 0 for the nine
  cells, is a function of the pair.
\<close>

record risk =
  r_title :: string
  r_likelihood :: level
  r_impact :: level

fun gridCell ::
  "'i idgen \<Rightarrow> (nat \<times> level) \<times> (nat \<times> level) \<Rightarrow> 'i canvas_node list \<times> nat
    \<Rightarrow> 'i canvas_node list \<times> nat" where
  "gridCell gen ((i, impact), (j, likelihood)) (ns, k) =
     (ns @ [\<lparr>n_id = gen k, n_type = GroupNode,
             n_x = Num (real j * (250 + 20)),
             n_y = Num ((2 - real i) * (200 + 20)),
             n_width = Num 250, n_height = Num 200,
             n_text = None,
             n_label = Some (capitalize (levelName impact) @ '' Impact / ''
                             @ capitalize (levelName likelihood) @ '' Likelihood''),
             n_color = Some (Str (getRiskColor impact likelihood))\<rparr>],
      Suc k)"

fun riskNode ::
  "'i idgen \<Rightarrow> risk \<Rightarrow> 'i canvas_node list \<times> (level \<times> level \<Rightarrow> nat) \<times> nat
    \<Rightarrow> 'i canvas_node list \<times> (level \<times> level \<Rightarrow> nat) \<times> nat" where
  "riskNode gen r (ns, cellCounts, k) =
     (let key = (r_impact r, r_likelihood r);
          impactIndex = indexOf levels (r_impact r);
          likelihoodIndex = indexOf levels (r_likelihood r);
          count = cellCounts key
      in (ns @ [\<lparr>n_id = gen k, n_type = TextNode,
                 n_x = Num (real_of_int (likelihoodIndex * (250 + 20) + 20
                                          + int (count mod 2) * 100)),
                 n_y = Num (real_of_int ((2 - impactIndex) * (200 + 20) + 20
                                          + int (count div 2) * 60)),
                 n_width = Num 100, n_height = Num 50,
                 n_text = Some (r_title r), n_label = None,
                 n_color = Some (Str (getRiskColor (r_impact r) (r_likelihood r)))\<rparr>],
          cellCounts(key := count + 1), Suc k))"

definition createRiskMatrixCanvas :: "'i idgen \<Rightarrow> risk list \<Rightarrow> 'i canvas_data" where
  "createRiskMatrixCanvas gen risks =
     (let (ns, k) = fold (gridCell gen)
                      (List.product (enumerate 0 levels) (enumerate 0 levels)) ([], 0);
          (ns', cellCounts, k') = fold (riskNode gen) risks (ns, (\<lambda>_. 0), k)
      in \<lparr>nodes = ns', edges = []\<rparr>)"

subsection \<open>\<^verbatim>\<open>createMindMapCanvas\<close>\<close>

text \<open>
  \<^verbatim>\<open>centerX = 500\<close>, \<^verbatim>\<open>centerY = 400\<close>, \<^verbatim>\<open>branchRadius = 300\<close>,
  \<^verbatim>\<open>subBranchRadius = 150\<close>.  \<^verbatim>\<open>angleStep\<close> is read in the loop over the branches
  only, where the number of branches is not zero.
\<close>

record branch =
  b_topic :: string
  b_subtopics :: "string list"

text \<open>\<^verbatim>\<open>String((i % 6) + 1)\<close>: one decimal digit.\<close>

definition digitString :: "nat \<Rightarrow> string" where
  "digitString d = [char_of (48 + d)]"

type_synonym 'i graph_state = "'i canvas_node list \<times> 'i canvas_edge list \<times> nat"

fun subtopicNode ::
  "arith \<Rightarrow> 'i idgen \<Rightarrow> 'i \<Rightarrow> jsnum \<Rightarrow> jsnum \<Rightarrow> jsnum \<Rightarrow> jsnum \<Rightarrow> nat \<times> string
    \<Rightarrow> 'i graph_state \<Rightarrow> 'i graph_state" where
  "subtopicNode fp gen branchId branchX branchY subStartAngle subAngleStep (j, subtopic) (ns, es, k) =
     (let subAngle = fadd fp subStartAngle (fmul fp subAngleStep (Num (real j)));
          subX = fadd fp branchX (fmul fp (fcos fp subAngle) (Num 150));
          subY = fadd fp branchY (fmul fp (fsin fp subAngle) (Num 150));
          subId = gen k
      in (ns @ [\<lparr>n_id = subId, n_type = TextNode,
                 n_x = fsub fp subX (Num 50), n_y = fsub fp subY (Num 20),
                 n_width = Num 100, n_height = Num 40,
                 n_text = Some subtopic, n_label = None, n_color = None\<rparr>],
          es @ [\<lparr>e_id = gen (Suc k), e_fromNode = branchId, e_toNode = subId,
                 e_fromSide = Some (getClosestSide fp branchX branchY subX subY),
                 e_toSide = Some (getClosestSide fp subX subY branchX branchY)\<rparr>],
          Suc (Suc k)))"

fun branchNode ::
  "arith \<Rightarrow> 'i idgen \<Rightarrow> 'i \<Rightarrow> jsnum \<Rightarrow> nat \<times> branch \<Rightarrow> 'i graph_state \<Rightarrow> 'i graph_state" where
  "branchNode fp gen centralId angleStep (i, b) (ns, es, k) =
     (let angle = fsub fp (fmul fp angleStep (Num (real i))) (fdiv fp (fpi fp) (Num 2));
          branchX = fadd fp (Num 500) (fmul fp (fcos fp angle) (Num 300));
          branchY = fadd fp (Num 400) (fmul fp (fsin fp angle) (Num 300));
          branchId = gen k;
          ns1 = ns @ [\<lparr>n_id = branchId, n_type = TextNode,
                       n_x = fsub fp branchX (Num 60), n_y = fsub fp branchY (Num 30),
                       n_width = Num 120, n_height = Num 60,
                       n_text = Some (''## '' @ b_topic b), n_label = None,
                       n_color = Some (Str (digitString (i mod 6 + 1)))\<rparr>];
          es1 = es @ [\<lparr>e_id = gen (Suc k), e_fromNode = centralId, e_toNode = branchId,
                       e_fromSide = Some (getClosestSide fp (Num 500) (Num 400) branchX branchY),
                       e_toSide = Some (getClosestSide fp branchX branchY (Num 500) (Num 400))\<rparr>];
          subAngleStep = fdiv fp (fdiv fp (fpi fp) (Num 3))
                           (Num (real_of_int (max (int (length (b_subtopics b)) - 1) 1)));
          subStartAngle = fsub fp angle (fdiv fp (fpi fp) (Num 6))
      in fold (subtopicNode fp gen branchId branchX branchY subStartAngle subAngleStep)
           (enumerate 0 (b_subtopics b)) (ns1, es1, Suc (Suc k)))"

definition createMindMapCanvas ::
  "arith \<Rightarrow> 'i idgen \<Rightarrow> string \<Rightarrow> branch list \<Rightarrow> 'i canvas_data" where
  "createMindMapCanvas fp gen central branches =
     (let centralId = gen 0;
          ns0 = [\<lparr>n_id = centralId, n_type = TextNode,
                  n_x = Num (500 - 75), n_y = Num (400 - 40),
                  n_width = Num 150, n_height = Num 80,
                  n_text = Some (''# '' @ central), n_label = None,
                  n_color = Some (Str ''5'')\<rparr>];
          angleStep = fdiv fp (fmul fp (Num 2) (fpi fp)) (Num (real (length branches)));
          (ns, es, k) = fold (branchNode fp gen centralId angleStep) (enumerate 0 branches)
                          (ns0, [], 1)
      in \<lparr>nodes = ns, edges = es\<rparr>)"

section \<open>Server: the generators of \<^verbatim>\<open>mcp-server/src/canvas.ts\<close>\<close>

subsection \<open>\<^verbatim>\<open>generateId\<close>\<close>

text \<open>
  \<^verbatim>\<open>randomUUID().replace(/-/g, '').substring(0, 16)\<close>, where \<open>uuid\<close> is the string that
  \<^verbatim>\<open>randomUUID()\<close> returns.
\<close>

definition generateId :: "string \<Rightarrow> string" where
  "generateId uuid = substring0 16 (filter (\<lambda>c. c \<noteq> CHR ''-'') uuid)"

text \<open>The identifiers that the successive calls return when the \<open>k\<close>-th call draws
  \<open>uuids k\<close>.\<close>

definition serverIds :: "(nat \<Rightarrow> string) \<Rightarrow> string idgen" where
  "serverIds uuids k = generateId (uuids k)"

text \<open>\<^verbatim>\<open>description.split('\n').filter(l => l.trim())\<close>\<close>

definition nonBlankLines :: "string \<Rightarrow> string list" where
  "nonBlankLines description = filter (\<lambda>l. trim l \<noteq> []) (split (CHR 0x0A) description)"

subsection \<open>\<^verbatim>\<open>generateTaskboardFromDescription\<close>\<close>

text \<open>
  \<^verbatim>\<open>columnWidth = 250\<close>, \<^verbatim>\<open>columnHeight = 600\<close>, \<^verbatim>\<open>padding = 20\<close>.  The server's
  \<^verbatim>\<open>getColumnColor\<close> has the table of the plugin's.
\<close>

fun columnGroup :: "'i idgen \<Rightarrow> nat \<times> string \<Rightarrow> 'i canvas_node list \<times> nat
    \<Rightarrow> 'i canvas_node list \<times> nat" where
  "columnGroup gen (i, col) (ns, k) =
     (ns @ [\<lparr>n_id = gen k, n_type = GroupNode,
             n_x = Num (real i * (250 + 20)), n_y = Num 0,
             n_width = Num 250, n_height = Num 600,
             n_text = None, n_label = Some col, n_color = Some (getColumnColor col)\<rparr>],
      Suc k)"

definition detectColumn :: "string \<Rightarrow> nat \<Rightarrow> nat" where
  "detectColumn lineLower currentColumn =
     (if includesStr lineLower ''todo'' \<or> includesStr lineLower ''to do''
         \<or> includesStr lineLower ''pending'' then 0
      else if includesStr lineLower ''in progress'' \<or> includesStr lineLower ''working'' then 1
      else if includesStr lineLower ''review'' \<or> includesStr lineLower ''testing'' then 2
      else if includesStr lineLower ''done'' \<or> includesStr lineLower ''complete'' then 3
      else currentColumn)"

text \<open>The pair of \<^verbatim>\<open>priority\<close> and \<^verbatim>\<open>color\<close> that the priority detection leaves.\<close>

definition detectPriority :: "string \<Rightarrow> string \<times> string option" where
  "detectPriority lineLower =
     (if includesStr lineLower ''high'' \<or> includesStr lineLower ''urgent''
         \<or> includesStr lineLower ''!'' then (''high'', Some ''1'')
      else if includesStr lineLower ''low'' then (''low'', Some ''4'')
      else (''medium'', None))"

text \<open>
  The state of the loop over the lines: the nodes, \<^verbatim>\<open>currentColumn\<close>,
  \<^verbatim>\<open>taskCounts\<close> and the number of identifiers generated.  \<^verbatim>\<open>currentColumn\<close> is one of
  0, 1, 2, 3, the indices of the four-element array \<^verbatim>\<open>taskCounts\<close>.
\<close>

fun taskLine ::
  "'i idgen \<Rightarrow> string \<Rightarrow> 'i canvas_node list \<times> nat \<times> nat list \<times> nat
    \<Rightarrow> 'i canvas_node list \<times> nat \<times> nat list \<times> nat" where
  "taskLine gen line (ns, currentColumn, taskCounts, k) =
     (let lineLower = toLowerCase line;
          currentColumn = detectColumn lineLower currentColumn;
          taskText = trim (stripBullet line)
      in if taskText = [] \<or> length taskText < 3 then (ns, currentColumn, taskCounts, k)
         else
           (let (priority, color) = detectPriority lineLower
            in (ns @ [\<lparr>n_id = gen k, n_type = TextNode,
                       n_x = Num (real (currentColumn * (250 + 20) + 20)),
                       n_y = Num (real (60 + (taskCounts ! currentColumn) * (80 + 10))),
                       n_width = Num (250 - 2 * 20), n_height = Num 80,
                       n_text = Some (''**'' @ taskText @ ''**'' @ [CHR 0x0A, CHR 0x0A]
                                      @ ''Priority: '' @ priority),
                       n_label = None, n_color = map_option Str color\<rparr>],
                currentColumn,
                taskCounts[currentColumn := taskCounts ! currentColumn + 1],
                Suc k)))"

definition generateTaskboardFromDescription :: "'i idgen \<Rightarrow> string \<Rightarrow> 'i canvas_data" where
  "generateTaskboardFromDescription gen description =
     (let (ns, k) = fold (columnGroup gen) (enumerate 0 columns) ([], 0);
          (ns', currentColumn, taskCounts, k') =
             fold (taskLine gen) (nonBlankLines description) (ns, 0, [0, 0, 0, 0], k);
          ns'' = (if length ns' = 4
                  then ns' @ [\<lparr>n_id = gen k', n_type = TextNode,
                               n_x = Num 20, n_y = Num 60,
                               n_width = Num (250 - 2 * 20), n_height = Num 80,
                               n_text = Some (''Add tasks from:'' @ [CHR 0x0A, CHR 0x0A]
                                              @ substring0 100 description @ ''...''),
                               n_label = None, n_color = None\<rparr>]
                  else ns')
      in \<lparr>nodes = ns'', edges = []\<rparr>)"

subsection \<open>\<^verbatim>\<open>generateRiskMatrixFromDescription\<close>\<close>

text \<open>
  \<^verbatim>\<open>cellWidth = 250\<close>, \<^verbatim>\<open>cellHeight = 200\<close>, \<^verbatim>\<open>padding = 20\<close>.  The variables
  \<^verbatim>\<open>likelihood\<close> and \<^verbatim>\<open>impact\<close> are only ever assigned the three level names.
\<close>

definition axisLabels :: "'i idgen \<Rightarrow> 'i canvas_node list" where
  "axisLabels gen =
     [\<lparr>n_id = gen 0, n_type = TextNode,
       n_x = Num (- 100), n_y = Num (200 + 20),
       n_width = Num 80, n_height = Num 40,
       n_text = Some ''**Impact**'', n_label = None, n_color = None\<rparr>,
      \<lparr>n_id = gen 1, n_type = TextNode,
       n_x = Num (250 + 20), n_y = Num (3 * (200 + 20) + 20),
       n_width = Num 100, n_height = Num 40,
       n_text = Some ''**Likelihood**'', n_label = None, n_color = None\<rparr>]"

fun matrixCell ::
  "'i idgen \<Rightarrow> (nat \<times> level) \<times> (nat \<times> level) \<Rightarrow> 'i canvas_node list \<times> nat
    \<Rightarrow> 'i canvas_node list \<times> nat" where
  "matrixCell gen ((i, impact), (j, likelihood)) (ns, k) =
     (ns @ [\<lparr>n_id = gen k, n_type = GroupNode,
             n_x = Num (real j * (250 + 20)),
             n_y = Num ((2 - real i) * (200 + 20)),
             n_width = Num 250, n_height = Num 200,
             n_text = None,
             n_label = Some (initialUpper (levelName impact) @ ''I / ''
                             @ initialUpper (levelName likelihood) @ ''L''),
             n_color = Some (Str (getRiskColor impact likelihood))\<rparr>],
      Suc k)"

definition detectLikelihood :: "string \<Rightarrow> level" where
  "detectLikelihood lineLower =
     (if includesStr lineLower ''high likelihood'' \<or> includesStr lineLower ''likely'' then High
      else if includesStr lineLower ''low likelihood'' \<or> includesStr lineLower ''unlikely''
      then Low
      else Medium)"

definition detectImpact :: "string \<Rightarrow> level" where
  "detectImpact lineLower =
     (if includesStr lineLower ''high impact'' \<or> includesStr lineLower ''critical'' then High
      else if includesStr lineLower ''low impact'' \<or> includesStr lineLower ''minor'' then Low
      else Medium)"

text \<open>
  \<^verbatim>\<open>riskCounts\<close> starts empty; \<^verbatim>\<open>riskCounts[key] = (riskCounts[key] || 0)\<close> reads a
  missing key as 0.
\<close>

fun riskLine ::
  "'i idgen \<Rightarrow> string \<Rightarrow> 'i canvas_node list \<times> (string \<rightharpoonup> nat) \<times> nat
    \<Rightarrow> 'i canvas_node list \<times> (string \<rightharpoonup> nat) \<times> nat" where
  "riskLine gen line (ns, riskCounts, k) =
     (let lineLower = toLowerCase line;
          riskText = trim (stripBullet line)
      in if riskText = [] \<or> length riskText < 3 then (ns, riskCounts, k)
         else
           (let likelihood = detectLikelihood lineLower;
                impact = detectImpact lineLower;
                key = levelName impact @ ''-'' @ levelName likelihood;
                count = (case riskCounts key of None \<Rightarrow> 0 | Some c \<Rightarrow> c);
                impactIndex = indexOf levels impact;
                likelihoodIndex = indexOf levels likelihood
            in (ns @ [\<lparr>n_id = gen k, n_type = TextNode,
                       n_x = Num (real_of_int (likelihoodIndex * (250 + 20) + 20
                                                + int (count mod 2) * 100)),
                       n_y = Num (real_of_int ((2 - impactIndex) * (200 + 20) + 20
                                                + int (count div 2) * 50)),
                       n_width = Num 100, n_height = Num 40,
                       n_text = Some (substring0 50 riskText), n_label = None,
                       n_color = Some (Str (getRiskColor impact likelihood))\<rparr>],
                riskCounts(key \<mapsto> count + 1),
                Suc k)))"

definition generateRiskMatrixFromDescription :: "'i idgen \<Rightarrow> string \<Rightarrow> 'i canvas_data" where
  "generateRiskMatrixFromDescription gen description =
     (let (ns, k) = fold (matrixCell gen)
                      (List.product (enumerate 0 levels) (enumerate 0 levels))
                      (axisLabels gen, 2);
          (ns', riskCounts, k') =
             fold (riskLine gen) (nonBlankLines description) (ns, Map.empty, k)
      in \<lparr>nodes = ns', edges = []\<rparr>)"

subsection \<open>\<^verbatim>\<open>generateMindMapFromDescription\<close>\<close>

text \<open>
  The loop over the lines keeps \<^verbatim>\<open>centralTheme\<close>, \<^verbatim>\<open>branches\<close> and
  \<^verbatim>\<open>currentBranch\<close> (\<^verbatim>\<open>null\<close> is \<open>None\<close>).
\<close>

type_synonym parse_state = "string \<times> branch list \<times> branch option"

fun parseLine :: "nat \<times> string \<Rightarrow> parse_state \<Rightarrow> parse_state" where
  "parseLine (index, line) (centralTheme, branches, currentBranch) =
     (let trimmed = trim line;
          isSubItem = (startsWith line ''  '' \<or> startsWith line [CHR 0x09]
                       \<or> startsWith trimmed ''-'')
      in if index = 0 then (stripBullet (stripHash trimmed), branches, currentBranch)
         else if \<not> isSubItem \<and> length trimmed > 2 then
           (centralTheme,
            (case currentBranch of None \<Rightarrow> branches | Some b \<Rightarrow> branches @ [b]),
            Some \<lparr>b_topic = stripHashes (stripBullet trimmed), b_subtopics = []\<rparr>)
         else if isSubItem \<and> currentBranch \<noteq> None \<and> length trimmed > 2 then
           (centralTheme, branches,
            map_option (\<lambda>b. b\<lparr>b_subtopics := b_subtopics b @ [stripBullet trimmed]\<rparr>)
              currentBranch)
         else (centralTheme, branches, currentBranch))"

definition parseMindMap :: "string \<Rightarrow> string \<times> branch list" where
  "parseMindMap description =
     (let (centralTheme, branches, currentBranch) =
            fold parseLine (enumerate 0 (nonBlankLines description))
              (''Central Topic'', [], None)
      in (centralTheme,
          (case currentBranch of None \<Rightarrow> branches | Some b \<Rightarrow> branches @ [b])))"

fun subtopicItem ::
  "arith \<Rightarrow> 'i idgen \<Rightarrow> 'i \<Rightarrow> jsnum \<Rightarrow> jsnum \<Rightarrow> jsnum \<Rightarrow> jsnum \<Rightarrow> nat \<times> string
    \<Rightarrow> 'i graph_state \<Rightarrow> 'i graph_state" where
  "subtopicItem fp gen branchId branchX branchY subStartAngle subAngleStep (j, subtopic) (ns, es, k) =
     (let subAngle = fadd fp subStartAngle (fmul fp subAngleStep (Num (real j)));
          subX = fadd fp branchX (fmul fp (fcos fp subAngle) (Num 150));
          subY = fadd fp branchY (fmul fp (fsin fp subAngle) (Num 150));
          subId = gen k
      in (ns @ [\<lparr>n_id = subId, n_type = TextNode,
                 n_x = fsub fp subX (Num 50), n_y = fsub fp subY (Num 20),
                 n_width = Num 100, n_height = Num 40,
                 n_text = Some (substring0 30 subtopic), n_label = None, n_color = None\<rparr>],
          es @ [\<lparr>e_id = gen (Suc k), e_fromNode = branchId, e_toNode = subId,
                 e_fromSide = Some (getClosestSide fp branchX branchY subX subY),
                 e_toSide = Some (getClosestSide fp subX subY branchX branchY)\<rparr>],
          Suc (Suc k)))"

fun branchItem ::
  "arith \<Rightarrow> 'i idgen \<Rightarrow> 'i \<Rightarrow> jsnum \<Rightarrow> nat \<times> branch \<Rightarrow> 'i graph_state \<Rightarrow> 'i graph_state" where
  "branchItem fp gen centralId angleStep (i, b) (ns, es, k) =
     (let angle = fsub fp (fmul fp angleStep (Num (real i))) (fdiv fp (fpi fp) (Num 2));
          branchX = fadd fp (Num 500) (fmul fp (fcos fp angle) (Num 300));
          branchY = fadd fp (Num 400) (fmul fp (fsin fp angle) (Num 300));
          branchId = gen k;
          ns1 = ns @ [\<lparr>n_id = branchId, n_type = TextNode,
                       n_x = fsub fp branchX (Num 60), n_y = fsub fp branchY (Num 30),
                       n_width = Num 120, n_height = Num 60,
                       n_text = Some (''## '' @ b_topic b), n_label = None,
                       n_color = Some (Str (digitString (i mod 6 + 1)))\<rparr>];
          es1 = es @ [\<lparr>e_id = gen (Suc k), e_fromNode = centralId, e_toNode = branchId,
                       e_fromSide = Some (getClosestSide fp (Num 500) (Num 400) branchX branchY),
                       e_toSide = Some (getClosestSide fp branchX branchY (Num 500) (Num 400))\<rparr>]
      in if length (b_subtopics b) > 0 then
           (let subAngleStep =
                  fdiv fp (fdiv fp (fpi fp) (Num 3))
                    (Num (real_of_int (max (int (length (b_subtopics b)) - 1) 1)));
                subStartAngle = fsub fp angle (fdiv fp (fpi fp) (Num 6))
            in fold (subtopicItem fp gen branchId branchX branchY subStartAngle subAngleStep)
                 (enumerate 0 (take 5 (b_subtopics b))) (ns1, es1, Suc (Suc k)))
         else (ns1, es1, Suc (Suc k)))"

definition layoutMindMap ::
  "arith \<Rightarrow> 'i idgen \<Rightarrow> string \<Rightarrow> branch list \<Rightarrow> 'i canvas_data" where
  "layoutMindMap fp gen centralTheme branches =
     (let centralId = gen 0;
          ns0 = [\<lparr>n_id = centralId, n_type = TextNode,
                  n_x = Num (500 - 75), n_y = Num (400 - 40),
                  n_width = Num 150, n_height = Num 80,
                  n_text = Some (''# '' @ centralTheme), n_label = None,
                  n_color = Some (Str ''5'')\<rparr>];
          angleStep = (if length branches > 0
                       then fdiv fp (fmul fp (Num 2) (fpi fp)) (Num (real (length branches)))
                       else Num 0);
          (ns, es, k) = fold (branchItem fp gen centralId angleStep) (enumerate 0 branches)
                          (ns0, [], 1)
      in \<lparr>nodes = ns, edges = es\<rparr>)"

definition generateMindMapFromDescription ::
  "arith \<Rightarrow> 'i idgen \<Rightarrow> string \<Rightarrow> 'i canvas_data" where
  "generateMindMapFromDescription fp gen description =
     (let (centralTheme, branches) = parseMindMap description
      in layoutMindMap fp gen centralTheme branches)"

subsection \<open>\<^verbatim>\<open>generateCustomCanvas\<close>\<close>

definition generateCustomCanvas :: "'i idgen \<Rightarrow> string \<Rightarrow> 'i canvas_data" where
  "generateCustomCanvas gen description =
     \<lparr>nodes = [\<lparr>n_id = gen 0, n_type = TextNode, n_x = Num 0, n_y = Num 0,
                n_width = Num 400, n_height = Num 300,
                n_text = Some description, n_label = None, n_color = None\<rparr>],
      edges = []\<rparr>"


section \<open>Plugin: \<^verbatim>\<open>validateAndFixCanvasData\<close>\<close>

text \<open>
  The argument is the result of \<^verbatim>\<open>JSON.parse\<close> on the text of the language model, cast
  to \<^verbatim>\<open>CanvasData\<close> without a check: it is any JSON value.  The properties of an object
  are listed in the order of the text; of two properties with one name the later one
  counts.
\<close>

datatype json =
  JNull | JBool bool | JNumber jsnum | JString string
  | JArray "json list" | JObject "(string \<times> json) list"

text \<open>The exception raised by a property read on \<^verbatim>\<open>null\<close> and by a call of a value that
  is not a function.\<close>

datatype js_error = TypeError

text \<open>
  \<^verbatim>\<open>v.key\<close> for a value \<open>v\<close> other than \<^verbatim>\<open>null\<close> and a key among those that the
  validator reads (\<^verbatim>\<open>nodes\<close>, \<^verbatim>\<open>edges\<close>, \<^verbatim>\<open>id\<close>, \<^verbatim>\<open>type\<close>, \<^verbatim>\<open>x\<close>, \<^verbatim>\<open>y\<close>,
  \<^verbatim>\<open>width\<close>, \<^verbatim>\<open>height\<close>, \<^verbatim>\<open>text\<close>, \<^verbatim>\<open>file\<close>, \<^verbatim>\<open>label\<close>, \<^verbatim>\<open>color\<close>, \<^verbatim>\<open>fromNode\<close>,
  \<^verbatim>\<open>toNode\<close>, \<^verbatim>\<open>fromSide\<close>, \<^verbatim>\<open>toSide\<close>), none of which names a member of a
  built-in prototype: the own property of an object, and \<^verbatim>\<open>undefined\<close> (\<open>None\<close>)
  otherwise, also on a boolean, a number, a string or an array.
\<close>

fun propOf :: "json \<Rightarrow> string \<Rightarrow> json option" where
  "propOf (JObject props) key = map_of (rev props) key"
| "propOf _ key = None"

fun truthy :: "json \<Rightarrow> bool" where
  "truthy JNull = False"
| "truthy (JBool b) = b"
| "truthy (JNumber n) = (n \<noteq> Num 0 \<and> n \<noteq> NaN)"
| "truthy (JString s) = (s \<noteq> [])"
| "truthy (JArray xs) = True"
| "truthy (JObject props) = True"

definition truthyProp :: "json option \<Rightarrow> bool" where
  "truthyProp v = (case v of None \<Rightarrow> False | Some w \<Rightarrow> truthy w)"

text \<open>
  \<^verbatim>\<open>Set.prototype.has\<close> compares with \<^verbatim>\<open>SameValueZero\<close>.  An array or an object of the
  parsed text is a fresh object, the same as no value met elsewhere in the text.
\<close>

fun isPrimitive :: "json \<Rightarrow> bool" where
  "isPrimitive (JArray xs) = False"
| "isPrimitive (JObject props) = False"
| "isPrimitive _ = True"

definition setHas :: "json list \<Rightarrow> json option \<Rightarrow> bool" where
  "setHas members v =
     (case v of None \<Rightarrow> False
      | Some w \<Rightarrow> isPrimitive w \<and> w \<in> set members)"

record fixed_node =
  fn_id :: json
  fn_type :: json
  fn_x :: jsnum
  fn_y :: jsnum
  fn_width :: jsnum
  fn_height :: jsnum
  fn_text :: "json option"
  fn_file :: "json option"
  fn_label :: "json option"
  fn_color :: "json option"

record fixed_edge =
  fe_id :: json
  fe_fromNode :: "json option"
  fe_toNode :: "json option"
  fe_fromSide :: "json option"
  fe_toSide :: "json option"
  fe_label :: "json option"
  fe_color :: "json option"

record fixed_canvas =
  fc_nodes :: "fixed_node list"
  fc_edges :: "fixed_edge list"

text \<open>\<^verbatim>\<open>typeof v === 'number' ? v : d\<close>\<close>

definition numberOr :: "json option \<Rightarrow> real \<Rightarrow> jsnum" where
  "numberOr v d = (case v of Some (JNumber n) \<Rightarrow> n | _ \<Rightarrow> Num d)"

text \<open>\<^verbatim>\<open>...(v && { field: v })\<close>: the field is written when the value is truthy.\<close>

definition whenTruthy :: "json option \<Rightarrow> json option" where
  "whenTruthy v = (if truthyProp v then v else None)"

text \<open>\<^verbatim>\<open>v || d\<close>\<close>

definition valueOr :: "json option \<Rightarrow> json \<Rightarrow> json" where
  "valueOr v d = (case v of None \<Rightarrow> d | Some w \<Rightarrow> if truthy w then w else d)"

text \<open>\<^verbatim>\<open>v || this.generateId()\<close>: the generator is called only for a falsy \<open>v\<close>.\<close>

definition idOr :: "string idgen \<Rightarrow> json option \<Rightarrow> nat \<Rightarrow> json \<times> nat" where
  "idOr gen v k =
     (case v of None \<Rightarrow> (JString (gen k), Suc k)
      | Some w \<Rightarrow> if truthy w then (w, k) else (JString (gen k), Suc k))"

text \<open>
  A loop whose body may raise: the first exception ends it.
\<close>

fun foldE :: "('a \<Rightarrow> 's \<Rightarrow> 'e + 's) \<Rightarrow> 'a list \<Rightarrow> 's \<Rightarrow> 'e + 's" where
  "foldE f [] s = Inr s"
| "foldE f (x # xs) s = (case f x s of Inl e \<Rightarrow> Inl e | Inr s' \<Rightarrow> foldE f xs s')"

fun filterE :: "('a \<Rightarrow> 'e + bool) \<Rightarrow> 'a list \<Rightarrow> 'e + 'a list" where
  "filterE p [] = Inr []"
| "filterE p (x # xs) =
     (case p x of Inl e \<Rightarrow> Inl e
      | Inr b \<Rightarrow> (case filterE p xs of Inl e \<Rightarrow> Inl e
                  | Inr ys \<Rightarrow> Inr (if b then x # ys else ys)))"

text \<open>
  \<^verbatim>\<open>(v || []).map(...)\<close> and \<^verbatim>\<open>(v || []).filter(...)\<close>: a falsy \<open>v\<close> gives the empty
  array; a truthy \<open>v\<close> that is not an array has no function \<^verbatim>\<open>map\<close> or \<^verbatim>\<open>filter\<close>, and
  the call raises.
\<close>

definition arrayOrEmpty :: "json option \<Rightarrow> js_error + json list" where
  "arrayOrEmpty v =
     (case v of None \<Rightarrow> Inr []
      | Some (JArray xs) \<Rightarrow> Inr xs
      | Some w \<Rightarrow> if truthy w then Inl TypeError else Inr [])"

text \<open>
  The callback of \<^verbatim>\<open>nodes.map\<close>.  Its first step reads \<^verbatim>\<open>node.id\<close>, which raises on
  \<^verbatim>\<open>null\<close>.
\<close>

fun fixNode ::
  "string idgen \<Rightarrow> json \<Rightarrow> fixed_node list \<times> nat \<Rightarrow> js_error + fixed_node list \<times> nat" where
  "fixNode gen node (ns, k) =
     (if node = JNull then Inl TypeError
      else
        (let (ident, k') = idOr gen (propOf node ''id'') k
         in Inr (ns @ [\<lparr>fn_id = ident,
                       fn_type = valueOr (propOf node ''type'') (JString ''text''),
                       fn_x = numberOr (propOf node ''x'') 0,
                       fn_y = numberOr (propOf node ''y'') 0,
                       fn_width = numberOr (propOf node ''width'') 200,
                       fn_height = numberOr (propOf node ''height'') 100,
                       fn_text = whenTruthy (propOf node ''text''),
                       fn_file = whenTruthy (propOf node ''file''),
                       fn_label = whenTruthy (propOf node ''label''),
                       fn_color = whenTruthy (propOf node ''color'')\<rparr>],
                 k')))"

text \<open>The callback of \<^verbatim>\<open>edges.filter\<close>: \<^verbatim>\<open>edge.fromNode\<close> raises on \<^verbatim>\<open>null\<close>.\<close>

definition keepEdge :: "json list \<Rightarrow> json \<Rightarrow> js_error + bool" where
  "keepEdge nodeIds edge =
     (if edge = JNull then Inl TypeError
      else Inr (setHas nodeIds (propOf edge ''fromNode'')
                \<and> setHas nodeIds (propOf edge ''toNode'')))"

text \<open>
  The callback of the \<^verbatim>\<open>map\<close> over the edges that the filter kept, none of which is
  \<^verbatim>\<open>null\<close>.
\<close>

fun fixEdge :: "string idgen \<Rightarrow> json \<Rightarrow> fixed_edge list \<times> nat \<Rightarrow> fixed_edge list \<times> nat" where
  "fixEdge gen edge (es, k) =
     (let (ident, k') = idOr gen (propOf edge ''id'') k
      in (es @ [\<lparr>fe_id = ident,
                 fe_fromNode = propOf edge ''fromNode'',
                 fe_toNode = propOf edge ''toNode'',
                 fe_fromSide = whenTruthy (propOf edge ''fromSide''),
                 fe_toSide = whenTruthy (propOf edge ''toSide''),
                 fe_label = whenTruthy (propOf edge ''label''),
                 fe_color = whenTruthy (propOf edge ''color'')\<rparr>],
          k'))"

text \<open>
  \<^verbatim>\<open>validateAndFixCanvasData\<close>: \<^verbatim>\<open>data.nodes\<close> raises when \<open>data\<close> is \<^verbatim>\<open>null\<close>; the
  nodes are mapped before \<^verbatim>\<open>data.edges\<close> is read; the filter runs over all the edges
  before the first kept edge is rebuilt.
\<close>

definition validateAndFixCanvasData :: "string idgen \<Rightarrow> json \<Rightarrow> js_error + fixed_canvas" where
  "validateAndFixCanvasData gen data =
     (if data = JNull then Inl TypeError
      else case arrayOrEmpty (propOf data ''nodes'') of
        Inl e \<Rightarrow> Inl e
      | Inr nodeList \<Rightarrow>
          (case foldE (fixNode gen) nodeList ([], 0) of
             Inl e \<Rightarrow> Inl e
           | Inr (ns, k) \<Rightarrow>
               (case arrayOrEmpty (propOf data ''edges'') of
                  Inl e \<Rightarrow> Inl e
                | Inr edgeList \<Rightarrow>
                    (case filterE (keepEdge (map fn_id ns)) edgeList of
                       Inl e \<Rightarrow> Inl e
                     | Inr kept \<Rightarrow>
                         (let (es, k') = fold (fixEdge gen) kept ([], k)
                          in Inr \<lparr>fc_nodes = ns, fc_edges = es\<rparr>)))))"

section \<open>Server: \<^verbatim>\<open>VaultService.resolvePath\<close>\<close>

text \<open>
  \<^verbatim>\<open>path.resolve\<close> of Node.js on POSIX, for two arguments: the arguments are taken from
  the right until an absolute path is met, the working directory \<open>cwd\<close> (an absolute
  path) coming last; the result is the absolute path of the remaining segments, where
  empty segments and \<^verbatim>\<open>.\<close> are dropped and \<^verbatim>\<open>..\<close> removes the segment before it (and
  nothing at the root).
\<close>

definition isAbsolute :: "string \<Rightarrow> bool" where
  "isAbsolute p = startsWith p ''/'' "

definition pathSegments :: "string \<Rightarrow> string list" where
  "pathSegments p = filter (\<lambda>s. s \<noteq> []) (split (CHR ''/'') p)"

fun normalizeStep :: "string \<Rightarrow> string list \<Rightarrow> string list" where
  "normalizeStep seg stack =
     (if seg = ''.'' then stack
      else if seg = ''..'' then butlast stack
      else stack @ [seg])"

definition joinSegments :: "string list \<Rightarrow> string" where
  "joinSegments segs = (if segs = [] then ''/'' else concat (map (\<lambda>s. CHR ''/'' # s) segs))"

definition pathResolve :: "string \<Rightarrow> string \<Rightarrow> string \<Rightarrow> string" where
  "pathResolve cwd p1 p2 =
     (let joined = (if isAbsolute p2 then p2
                    else if isAbsolute p1 then p1 @ ''/'' @ p2
                    else cwd @ ''/'' @ p1 @ ''/'' @ p2)
      in joinSegments (fold normalizeStep (pathSegments joined) []))"

datatype vault_error = PathTraversalNotAllowed | NoSuchFile

record vault_service =
  vaultPath :: string
  workingDirectory :: string

definition resolvePath :: "vault_service \<Rightarrow> string \<Rightarrow> vault_error + string" where
  "resolvePath vault relativePath =
     (let resolved = pathResolve (workingDirectory vault) (vaultPath vault) relativePath
      in if \<not> startsWith resolved (vaultPath vault) then Inl PathTraversalNotAllowed
         else Inr resolved)"

text \<open>
  The file system is a map from absolute paths to file contents.  \<^verbatim>\<open>readNote\<close> reads
  the file at the resolved path and \<^verbatim>\<open>deleteNote\<close> unlinks it; the other operations
  of the service resolve their path argument in the same way before they touch the file
  system.
\<close>

type_synonym file_system = "string \<rightharpoonup> string"

definition readNote :: "vault_service \<Rightarrow> file_system \<Rightarrow> string \<Rightarrow> vault_error + string" where
  "readNote vault fs notePath =
     (case resolvePath vault notePath of
        Inl err \<Rightarrow> Inl err
      | Inr fullPath \<Rightarrow> (case fs fullPath of None \<Rightarrow> Inl NoSuchFile | Some content \<Rightarrow> Inr content))"

definition deleteNote :: "vault_service \<Rightarrow> file_system \<Rightarrow> string \<Rightarrow> vault_error + file_system" where
  "deleteNote vault fs notePath =
     (case resolvePath vault notePath of
        Inl err \<Rightarrow> Inl err
      | Inr fullPath \<Rightarrow> (case fs fullPath of None \<Rightarrow> Inl NoSuchFile
                        | Some content \<Rightarrow> Inr (fs(fullPath := None))))"

section \<open>Notions used to state the properties\<close>

text \<open>
  A path lies inside a directory when it is the directory itself or continues it after a
  separator.
\<close>

definition insideDirectory :: "string \<Rightarrow> string \<Rightarrow> bool" where
  "insideDirectory dir p \<longleftrightarrow> p = dir \<or> startsWith p (dir @ ''/'')"

text \<open>A sequence of pairwise distinct identifiers, for concrete runs.\<close>

definition sampleIds :: "string idgen" where
  "sampleIds k = replicate (Suc k) (CHR ''g'')"

text \<open>The opposite compass side: right pairs with left, bottom pairs with top.\<close>

fun oppositeSide :: "side \<Rightarrow> side" where
  "oppositeSide Right = Left"
| "oppositeSide Left = Right"
| "oppositeSide Bottom = Top"
| "oppositeSide Top = Bottom"

text \<open>An edge records both sides, and \<^verbatim>\<open>toSide\<close> is the side opposite to \<^verbatim>\<open>fromSide\<close>.\<close>

definition sidesOpposite :: "'i canvas_edge \<Rightarrow> bool" where
  "sidesOpposite e \<longleftrightarrow>
     (case (e_fromSide e, e_toSide e) of
        (Some s, Some t) \<Rightarrow> t = oppositeSide s
      | _ \<Rightarrow> False)"

text \<open>
  The properties that IEEE 754 subtraction has on finite doubles: the difference of two
  finite numbers is a number or an infinity, never \<^verbatim>\<open>NaN\<close>; rounding is symmetric about
  zero, so exchanging the operands negates the result; and, with gradual underflow, the
  difference is zero only when the operands are equal.
\<close>

definition ieeeSubtraction :: "arith \<Rightarrow> bool" where
  "ieeeSubtraction fp \<longleftrightarrow>
     (\<forall>a b. fsub fp (Num a) (Num b) \<noteq> NaN
          \<and> fsub fp (Num b) (Num a) = negNum (fsub fp (Num a) (Num b))
          \<and> (fsub fp (Num a) (Num b) = Num 0 \<longrightarrow> a = b))"

text \<open>
  An arithmetic for concrete runs on finite numbers: every operation rounds the exact
  result to 53 significant bits (to nearest, a tie away from zero), with no bound on the
  exponent.
\<close>

definition round53 :: "real \<Rightarrow> real" where
  "round53 x =
     (if x = 0 then 0
      else sgn x * real_of_int \<lfloor>\<bar>x\<bar> * 2 powr (52 - real_of_int \<lfloor>log 2 \<bar>x\<bar>\<rfloor>) + 1 / 2\<rfloor>
             * 2 powr (real_of_int \<lfloor>log 2 \<bar>x\<bar>\<rfloor> - 52))"

definition rounded2 :: "(real \<Rightarrow> real \<Rightarrow> real) \<Rightarrow> jsnum \<Rightarrow> jsnum \<Rightarrow> jsnum" where
  "rounded2 f a b = (case (a, b) of (Num x, Num y) \<Rightarrow> Num (round53 (f x y)) | _ \<Rightarrow> NaN)"

definition rounded1 :: "(real \<Rightarrow> real) \<Rightarrow> jsnum \<Rightarrow> jsnum" where
  "rounded1 f a = (case a of Num x \<Rightarrow> Num (round53 (f x)) | _ \<Rightarrow> NaN)"

definition sampleArith :: arith where
  "sampleArith =
     \<lparr>fadd = rounded2 (+), fsub = rounded2 (-), fmul = rounded2 (*), fdiv = rounded2 (/),
      fcos = rounded1 cos, fsin = rounded1 sin, fpi = Num (round53 pi)\<rparr>"

text \<open>
  A point is finite when both coordinates are finite numbers.  An edge faces along a pair
  of anchor points \<open>(A, B)\<close> when its \<^verbatim>\<open>fromSide\<close> is the side of \<open>A\<close> closest to \<open>B\<close> and
  its \<^verbatim>\<open>toSide\<close> the side of \<open>B\<close> closest to \<open>A\<close>.
\<close>

type_synonym point = "jsnum \<times> jsnum"

fun isFinite :: "jsnum \<Rightarrow> bool" where
  "isFinite (Num r) = True"
| "isFinite _ = False"

definition finitePoint :: "point \<Rightarrow> bool" where
  "finitePoint A \<longleftrightarrow> isFinite (fst A) \<and> isFinite (snd A)"

definition closestSide :: "arith \<Rightarrow> point \<Rightarrow> point \<Rightarrow> side" where
  "closestSide fp A B = getClosestSide fp (fst A) (snd A) (fst B) (snd B)"

definition facing :: "arith \<Rightarrow> 'i canvas_edge \<Rightarrow> point \<times> point \<Rightarrow> bool" where
  "facing fp e AB \<longleftrightarrow>
     e_fromSide e = Some (closestSide fp (fst AB) (snd AB))
     \<and> e_toSide e = Some (closestSide fp (snd AB) (fst AB))"

text \<open>
  The anchor points of a mind map: the centre \<open>(500, 400)\<close>, the point \<open>(branchX, branchY)\<close>
  of the branch \<open>i\<close>, and the point \<open>(subX, subY)\<close> of the subtopic \<open>j\<close> of a branch that
  has \<open>n\<close> subtopics.
\<close>

definition centre :: point where
  "centre = (Num 500, Num 400)"

definition branchAngle :: "arith \<Rightarrow> jsnum \<Rightarrow> nat \<Rightarrow> jsnum" where
  "branchAngle fp angleStep i =
     fsub fp (fmul fp angleStep (Num (real i))) (fdiv fp (fpi fp) (Num 2))"

definition branchAnchor :: "arith \<Rightarrow> jsnum \<Rightarrow> nat \<Rightarrow> point" where
  "branchAnchor fp angleStep i =
     (fadd fp (Num 500) (fmul fp (fcos fp (branchAngle fp angleStep i)) (Num 300)),
      fadd fp (Num 400) (fmul fp (fsin fp (branchAngle fp angleStep i)) (Num 300)))"

definition subtopicAngle :: "arith \<Rightarrow> jsnum \<Rightarrow> nat \<Rightarrow> nat \<Rightarrow> nat \<Rightarrow> jsnum" where
  "subtopicAngle fp angleStep i n j =
     fadd fp (fsub fp (branchAngle fp angleStep i) (fdiv fp (fpi fp) (Num 6)))
       (fmul fp (fdiv fp (fdiv fp (fpi fp) (Num 3)) (Num (real_of_int (max (int n - 1) 1))))
          (Num (real j)))"

definition subtopicAnchor :: "arith \<Rightarrow> jsnum \<Rightarrow> nat \<Rightarrow> nat \<Rightarrow> nat \<Rightarrow> point" where
  "subtopicAnchor fp angleStep i n j =
     (fadd fp (fst (branchAnchor fp angleStep i))
        (fmul fp (fcos fp (subtopicAngle fp angleStep i n j)) (Num 150)),
      fadd fp (snd (branchAnchor fp angleStep i))
        (fmul fp (fsin fp (subtopicAngle fp angleStep i n j)) (Num 150)))"

text \<open>
  The pairs of anchor points of the edges of a mind map, in the order of the edges: for
  each branch the pair of the centre and the branch, then the pairs of the branch and
  each of its subtopics that is drawn (\<open>shown\<close> of them).
\<close>

definition branchAnchors :: "arith \<Rightarrow> jsnum \<Rightarrow> nat \<Rightarrow> nat \<Rightarrow> nat \<Rightarrow> (point \<times> point) list" where
  "branchAnchors fp angleStep i n shown =
     (centre, branchAnchor fp angleStep i)
     # map (\<lambda>j. (branchAnchor fp angleStep i, subtopicAnchor fp angleStep i n j)) [0..<shown]"

definition pluginAnchors :: "arith \<Rightarrow> branch list \<Rightarrow> (point \<times> point) list" where
  "pluginAnchors fp branches =
     concat (map (\<lambda>(i, b). branchAnchors fp
                     (fdiv fp (fmul fp (Num 2) (fpi fp)) (Num (real (length branches))))
                     i (length (b_subtopics b)) (length (b_subtopics b)))
               (enumerate 0 branches))"

definition serverAnchors :: "arith \<Rightarrow> branch list \<Rightarrow> (point \<times> point) list" where
  "serverAnchors fp branches =
     concat (map (\<lambda>(i, b). branchAnchors fp
                     (fdiv fp (fmul fp (Num 2) (fpi fp)) (Num (real (length branches))))
                     i (length (b_subtopics b)) (min 5 (length (b_subtopics b))))
               (enumerate 0 branches))"

text \<open>
  The input of the validator: the entries of the array \<^verbatim>\<open>nodes\<close> or \<^verbatim>\<open>edges\<close>; the shape
  on which no step of the validator raises (the value is not \<^verbatim>\<open>null\<close>, and \<^verbatim>\<open>nodes\<close> and
  \<^verbatim>\<open>edges\<close> each are missing, falsy, or an array without a \<^verbatim>\<open>null\<close> entry); the truthy
  ids given in the input; and the number of entries that have none.
\<close>

definition entries :: "json option \<Rightarrow> json list" where
  "entries v = (case v of Some (JArray xs) \<Rightarrow> xs | _ \<Rightarrow> [])"

definition nullFreeArray :: "json option \<Rightarrow> bool" where
  "nullFreeArray v =
     (case v of None \<Rightarrow> True
      | Some (JArray xs) \<Rightarrow> JNull \<notin> set xs
      | Some w \<Rightarrow> \<not> truthy w)"

definition wellShaped :: "json \<Rightarrow> bool" where
  "wellShaped data \<longleftrightarrow>
     data \<noteq> JNull \<and> nullFreeArray (propOf data ''nodes'') \<and> nullFreeArray (propOf data ''edges'')"

definition hasId :: "json \<Rightarrow> bool" where
  "hasId x = truthyProp (propOf x ''id'')"

definition givenIds :: "json list \<Rightarrow> json option list" where
  "givenIds xs = map (\<lambda>x. propOf x ''id'') (filter hasId xs)"

definition missingIds :: "json list \<Rightarrow> nat" where
  "missingIds xs = length (filter (\<lambda>x. \<not> hasId x) xs)"

text \<open>
  The steps of the validator on an entry that is not \<^verbatim>\<open>null\<close>: the node built from an
  entry of \<^verbatim>\<open>nodes\<close>, and the test of the filter on an entry of \<^verbatim>\<open>edges\<close>.
\<close>

definition fixEntry :: "string idgen \<Rightarrow> json \<Rightarrow> fixed_node list \<times> nat \<Rightarrow> fixed_node list \<times> nat" where
  "fixEntry gen node st = (case fixNode gen node st of Inl e \<Rightarrow> st | Inr st' \<Rightarrow> st')"

definition keeps :: "json list \<Rightarrow> json \<Rightarrow> bool" where
  "keeps nodeIds edge \<longleftrightarrow>
     setHas nodeIds (propOf edge ''fromNode'') \<and> setHas nodeIds (propOf edge ''toNode'')"

text \<open>
  The ids that the validator gives to a list of entries when \<open>k\<close> identifiers have been
  generated before: the id of the entry when it is truthy, the next generated identifier
  otherwise.
\<close>

fun assignIds :: "string idgen \<Rightarrow> json list \<Rightarrow> nat \<Rightarrow> json list" where
  "assignIds gen [] k = []"
| "assignIds gen (x # xs) k =
     fst (idOr gen (propOf x ''id'') k) # assignIds gen xs (snd (idOr gen (propOf x ''id'') k))"

text \<open>The endpoints of an edge, before and after validation.\<close>

definition rawEndpoints :: "json \<Rightarrow> json option \<times> json option" where
  "rawEndpoints e = (propOf e ''fromNode'', propOf e ''toNode'')"

definition fixedEndpoints :: "fixed_edge \<Rightarrow> json option \<times> json option" where
  "fixedEndpoints e = (fe_fromNode e, fe_toNode e)"

text \<open>Text nodes and group nodes of a graph.\<close>

definition textNodes :: "'i canvas_data \<Rightarrow> 'i canvas_node list" where
  "textNodes d = filter (\<lambda>n. n_type n = TextNode) (nodes d)"

definition groupNodes :: "'i canvas_data \<Rightarrow> 'i canvas_node list" where
  "groupNodes d = filter (\<lambda>n. n_type n = GroupNode) (nodes d)"

text \<open>The four column groups that open every taskboard of the server.\<close>

definition columnGroups :: "'i idgen \<Rightarrow> 'i canvas_node list" where
  "columnGroups gen =
     [\<lparr>n_id = gen 0, n_type = GroupNode, n_x = Num 0, n_y = Num 0,
       n_width = Num 250, n_height = Num 600, n_text = None,
       n_label = Some ''To Do'', n_color = Some (Str ''2'')\<rparr>,
      \<lparr>n_id = gen 1, n_type = GroupNode, n_x = Num 270, n_y = Num 0,
       n_width = Num 250, n_height = Num 600, n_text = None,
       n_label = Some ''In Progress'', n_color = Some (Str ''3'')\<rparr>,
      \<lparr>n_id = gen 2, n_type = GroupNode, n_x = Num 540, n_y = Num 0,
       n_width = Num 250, n_height = Num 600, n_text = None,
       n_label = Some ''Review'', n_color = Some (Str ''5'')\<rparr>,
      \<lparr>n_id = gen 3, n_type = GroupNode, n_x = Num 810, n_y = Num 0,
       n_width = Num 250, n_height = Num 600, n_text = None,
       n_label = Some ''Done'', n_color = Some (Str ''4'')\<rparr>]"

text \<open>The inputs of the two scenarios.\<close>

definition taskboardScenario :: string where
  "taskboardScenario =
     ''- Fix login bug (high)'' @ [CHR 0x0A] @ ''- Write docs'' @ [CHR 0x0A]
     @ ''- done: deploy to prod''"

definition riskScenario :: string where
  "riskScenario =
     ''Server outage - high impact, likely'' @ [CHR 0x0A] @ ''Minor UI glitch - low impact''"

text \<open>A vault at \<^verbatim>\<open>/vault\<close>, and a branch with six subtopics.\<close>

definition sampleVault :: vault_service where
  "sampleVault = \<lparr>vaultPath = ''/vault'', workingDirectory = ''/app''\<rparr>"

definition sixSubtopics :: branch where
  "sixSubtopics =
     \<lparr>b_topic = ''Scope'', b_subtopics = [''s1'', ''s2'', ''s3'', ''s4'', ''s5'', ''s6'']\<rparr>"

text \<open>The texts that a mind map shows for a branch: its topic, then its subtopics.\<close>

definition branchTexts :: "branch \<Rightarrow> string option list" where
  "branchTexts b = Some (''## '' @ b_topic b) # map Some (b_subtopics b)"

definition branchTextsLimited :: "branch \<Rightarrow> string option list" where
  "branchTextsLimited b =
     Some (''## '' @ b_topic b) # map (\<lambda>s. Some (take 30 s)) (take 5 (b_subtopics b))"

text \<open>Renaming the identifiers in the state of a loop that builds nodes and edges.\<close>

abbreviation rename_state :: "('i \<Rightarrow> 'j) \<Rightarrow> 'i graph_state \<Rightarrow> 'j graph_state" where
  "rename_state f \<equiv> map_prod (map (rename_node f)) (map_prod (map (rename_edge f)) id)"

text \<open>
  The identifiers of a graph, those of the nodes first; a graph has unique identifiers
  when no two nodes share an id and no two edges share an id.
\<close>

definition graphIds :: "'i canvas_data \<Rightarrow> 'i list" where
  "graphIds d = map n_id (nodes d) @ map e_id (edges d)"

definition uniqueIds :: "'i canvas_data \<Rightarrow> bool" where
  "uniqueIds d \<longleftrightarrow> distinct (map n_id (nodes d)) \<and> distinct (map e_id (edges d))"

text \<open>
  In a loop that numbers the calls to the generator, the identifiers written so far are
  pairwise distinct numbers of earlier calls.
\<close>

definition idsBelow :: "nat \<Rightarrow> nat canvas_node list \<Rightarrow> nat canvas_edge list \<Rightarrow> bool" where
  "idsBelow k ns es \<longleftrightarrow>
     distinct (map n_id ns @ map e_id es) \<and> list_all (\<lambda>i. i < k) (map n_id ns @ map e_id es)"

text \<open>
  The calls to the identifier generator whose results a graph holds: built with the
  generator that returns the number of the call, the graph holds these numbers.
\<close>

definition callsOf :: "nat canvas_data \<Rightarrow> nat set" where
  "callsOf d = set (graphIds d)"

text \<open>
  Values of the random source and the clock, for concrete runs: random strings with
  different digits and a clock that advances every third call; UUIDs that differ in
  their first digits.
\<close>

definition sampleRandoms :: "nat \<Rightarrow> string" where
  "sampleRandoms k = ''0.'' @ toString36 ((k + 1) * 1077871919578169)"

definition sampleClock :: "nat \<Rightarrow> nat" where
  "sampleClock k = 1700000000000 + k div 3"

definition sampleUuids :: "nat \<Rightarrow> string" where
  "sampleUuids k =
     [digit36 (k div 16 mod 16), digit36 (k mod 16)] @ ''c0ffee-aaaa-4aaa-8aaa-aaaaaaaaaaaa''"

text \<open>
  Values that the random source may as well return: UUIDs (of version 4) that differ in
  their last digit only; and random numbers that differ after their seventh digit in
  base 36 (0.5 plus a multiple of \<open>2\<^sup>-\<^sup>5\<^sup>0\<close>, say), drawn within one millisecond.
\<close>

definition closeUuids :: "nat \<Rightarrow> string" where
  "closeUuids k = ''aaaaaaaa-aaaa-4aaa-8aaa-aaaaaaaaaaa'' @ [digit36 (k mod 16)]"

definition closeRandoms :: "nat \<Rightarrow> string" where
  "closeRandoms k = ''0.i00000000'' @ [digit36 (3 * (k mod 10 + 1))]"

definition sameMillisecond :: "nat \<Rightarrow> nat" where
  "sameMillisecond k = 1700000000000"

text \<open>
  Inputs of the validator: a graph of four nodes (two with an id, an empty object and a
  number) and two edges, one of them to a node that does not exist; an array of nodes
  that holds \<^verbatim>\<open>null\<close>; two nodes with the same id; and a node whose id is the identifier
  that the first call of the generator returns in the sample run.
\<close>

definition sampleCanvas :: json where
  "sampleCanvas =
     JObject
       [(''nodes'', JArray [JObject [(''id'', JString ''a'')],
                           JObject [(''id'', JString ''b''), (''x'', JNumber (Num 10))],
                           JObject [],
                           JNumber (Num 5)]),
        (''edges'', JArray [JObject [(''fromNode'', JString ''a''), (''toNode'', JString ''ghost'')],
                           JObject [(''id'', JString ''e''), (''fromNode'', JString ''a''),
                                    (''toNode'', JString ''b'')]])]"

definition nullNodeCanvas :: json where
  "nullNodeCanvas = JObject [(''nodes'', JArray [JNull])]"

definition duplicateCanvas :: json where
  "duplicateCanvas =
     JObject [(''nodes'', JArray [JObject [(''id'', JString ''a'')],
                                 JObject [(''id'', JString ''a'')]])]"

definition guessedIdCanvas :: json where
  "guessedIdCanvas =
     JObject [(''nodes'', JArray [JObject [(''id'', JString (pluginIds sampleRandoms sampleClock 0))],
                                 JObject []])]"

section \<open>Properties of \<^verbatim>\<open>sanitizeFilename\<close>\<close>

lemma dash_not_whitespace: "\<not> isWhiteSpace CHR ''-''"
  by (simp add: isWhiteSpace_def)

lemma dash_not_reserved: "\<not> isReserved CHR ''-''"
  by (simp add: isReserved_def)

lemma replaceWhitespaceRuns_unchanged:
  "\<forall>c\<in>set s. \<not> isWhiteSpace c \<Longrightarrow> replaceWhitespaceRuns s = s"
  by (induction s) auto

lemma replaceReserved_unchanged:
  "\<forall>c\<in>set s. \<not> isReserved c \<Longrightarrow> replaceReserved s = s"
  by (induction s) (auto simp: replaceReserved_def)

lemma replaceReserved_clean: "\<forall>c \<in> set (replaceReserved s). \<not> isReserved c"
  by (auto simp: replaceReserved_def dash_not_reserved)

lemma replaceWhitespaceRuns_no_whitespace:
  "\<forall>c \<in> set (replaceWhitespaceRuns s). \<not> isWhiteSpace c"
proof (induction s rule: replaceWhitespaceRuns.induct)
  case 1
  show ?case by simp
next
  case (2 c cs)
  show ?case
  proof (cases "isWhiteSpace c")
    case True
    with 2(1) show ?thesis by (simp add: dash_not_whitespace)
  next
    case False
    with 2(2) show ?thesis by simp
  qed
qed

lemma replaceWhitespaceRuns_keeps_clean:
  assumes "\<forall>c\<in>set s. \<not> isReserved c"
  shows "\<forall>c \<in> set (replaceWhitespaceRuns s). \<not> isReserved c"
  using assms
proof (induction s rule: replaceWhitespaceRuns.induct)
  case 1
  show ?case by simp
next
  case (2 c cs)
  show ?case
  proof (cases "isWhiteSpace c")
    case True
    have "\<forall>c\<in>set (dropWhile isWhiteSpace cs). \<not> isReserved c"
      using 2(3) by (auto dest: set_dropWhileD)
    with 2(1) True show ?thesis by (simp add: dash_not_reserved)
  next
    case False
    with 2(2,3) show ?thesis by simp
  qed
qed

lemma sanitizeFilename_clean:
  "\<forall>c \<in> set (sanitizeFilename s). \<not> isReserved c \<and> \<not> isWhiteSpace c"
  using replaceWhitespaceRuns_no_whitespace[of "replaceReserved s"]
    replaceWhitespaceRuns_keeps_clean[OF replaceReserved_clean, of s]
  by (auto simp: sanitizeFilename_def substring0_def dest: in_set_takeD)

lemma sanitizeFilename_length: "length (sanitizeFilename s) \<le> 100"
  by (simp add: sanitizeFilename_def substring0_def)

lemma sanitizeFilename_fixed:
  assumes "\<forall>c \<in> set t. \<not> isReserved c \<and> \<not> isWhiteSpace c" and "length t \<le> 100"
  shows "sanitizeFilename t = t"
  using assms
  by (simp add: sanitizeFilename_def substring0_def replaceReserved_unchanged
      replaceWhitespaceRuns_unchanged)

text \<open>
  Claim C9.  \<^verbatim>\<open>sanitizeFilename\<close> is idempotent, and for every string its result holds
  none of the characters \<^verbatim>\<open>\ / : * ? " < > |\<close>, no whitespace, and at most 100
  characters.
\<close>

theorem sanitizeFilename_idempotent_and_clean:
  "sanitizeFilename (sanitizeFilename s) = sanitizeFilename s
   \<and> (\<forall>c \<in> set (sanitizeFilename s). \<not> isReserved c \<and> \<not> isWhiteSpace c)
   \<and> length (sanitizeFilename s) \<le> 100"
  using sanitizeFilename_fixed[OF sanitizeFilename_clean sanitizeFilename_length]
    sanitizeFilename_clean sanitizeFilename_length
  by blast

theorem sanitizeFilename_idempotent_and_clean_witness:
  "sanitizeFilename (sanitizeFilename ''Q3 plan:  risks/owners?'')
     = sanitizeFilename ''Q3 plan:  risks/owners?''
   \<and> sanitizeFilename ''Q3 plan:  risks/owners?'' = ''Q3-plan--risks-owners-''"
proof (rule conjI)
  show "sanitizeFilename (sanitizeFilename ''Q3 plan:  risks/owners?'')
     = sanitizeFilename ''Q3 plan:  risks/owners?''"
    using sanitizeFilename_idempotent_and_clean[of "''Q3 plan:  risks/owners?''"]
    by (rule conjunct1)
  show "sanitizeFilename ''Q3 plan:  risks/owners?'' = ''Q3-plan--risks-owners-''"
    by code_simp
qed
section \<open>Loops and invariants\<close>

lemma fold_invariant:
  assumes "P s" and "\<And>x s. x \<in> set xs \<Longrightarrow> P s \<Longrightarrow> P (f x s)"
  shows "P (fold f xs s)"
  using assms by (induction xs arbitrary: s) auto

section \<open>Edge sides\<close>

text \<open>
  The two calls of \<^verbatim>\<open>getClosestSide\<close> on a pair of finite points compute differences
  that are negations of each other, so they take the same branch of the comparison, and
  the difference that decides the side is not zero unless the points are equal.
\<close>

lemma absNum_negNum: "absNum (negNum d) = absNum d"
  by (cases d) simp_all

lemma list_all2_snoc:
  assumes "list_all2 P xs ys" and "P x y"
  shows "list_all2 P (xs @ [x]) (ys @ [y])"
  using assms by (simp add: list_all2_appendI)

lemma getClosestSide_swap:
  assumes ieee: "ieeeSubtraction fp" and ne: "ax \<noteq> bx \<or> ay \<noteq> by"
  shows "getClosestSide fp (Num bx) (Num by) (Num ax) (Num ay)
         = oppositeSide (getClosestSide fp (Num ax) (Num ay) (Num bx) (Num by))"
proof -
  define dx where "dx = fsub fp (Num bx) (Num ax)"
  define dy where "dy = fsub fp (Num by) (Num ay)"
  from ieee have nan: "fsub fp (Num a) (Num b) \<noteq> NaN"
    and neg: "fsub fp (Num b) (Num a) = negNum (fsub fp (Num a) (Num b))"
    and zero: "fsub fp (Num a) (Num b) = Num 0 \<Longrightarrow> a = b" for a b
    unfolding ieeeSubtraction_def by blast+
  have rx: "fsub fp (Num ax) (Num bx) = negNum dx"
    unfolding dx_def by (rule neg)
  have nx: "dx \<noteq> NaN"
    unfolding dx_def by (rule nan)
  have zx: "dx = Num 0 \<Longrightarrow> bx = ax"
    unfolding dx_def by (rule zero)
  have ry: "fsub fp (Num ay) (Num by) = negNum dy"
    unfolding dy_def by (rule neg)
  have ny: "dy \<noteq> NaN"
    unfolding dy_def by (rule nan)
  have zy: "dy = Num 0 \<Longrightarrow> by = ay"
    unfolding dy_def by (rule zero)
  have fwd: "getClosestSide fp (Num ax) (Num ay) (Num bx) (Num by)
      = (if gtNum (absNum dx) (absNum dy) then (if gtNum dx (Num 0) then Right else Left)
         else (if gtNum dy (Num 0) then Bottom else Top))"
    by (simp add: getClosestSide_def dx_def dy_def)
  have bwd: "getClosestSide fp (Num bx) (Num by) (Num ax) (Num ay)
      = (if gtNum (absNum dx) (absNum dy) then (if gtNum (negNum dx) (Num 0) then Right else Left)
         else (if gtNum (negNum dy) (Num 0) then Bottom else Top))"
    by (simp add: getClosestSide_def rx ry absNum_negNum)
  show ?thesis
  proof (cases "gtNum (absNum dx) (absNum dy)")
    case True
    then have "dx \<noteq> Num 0"
      by (cases dy) auto
    then have "gtNum (negNum dx) (Num 0) \<longleftrightarrow> \<not> gtNum dx (Num 0)"
      using nx by (cases dx) auto
    with True show ?thesis by (simp add: fwd bwd)
  next
    case False
    have "dy \<noteq> Num 0"
    proof
      assume z: "dy = Num 0"
      with False nx have "dx = Num 0" by (cases dx) auto
      with z zx zy ne show False by auto
    qed
    then have "gtNum (negNum dy) (Num 0) \<longleftrightarrow> \<not> gtNum dy (Num 0)"
      using ny by (cases dy) auto
    with False show ?thesis by (simp add: fwd bwd)
  qed
qed

lemma facing_opposite:
  assumes "ieeeSubtraction fp" and "facing fp e AB"
    and "finitePoint (fst AB)" and "finitePoint (snd AB)" and "fst AB \<noteq> snd AB"
  shows "sidesOpposite e"
proof -
  obtain ax ay bx "by" where A: "fst AB = (Num ax, Num ay)" and B: "snd AB = (Num bx, Num by)"
    using assms(3,4) unfolding finitePoint_def
    by (metis isFinite.elims(2) prod.collapse)
  from assms(5) have "ax \<noteq> bx \<or> ay \<noteq> by" by (auto simp: A B)
  from getClosestSide_swap[OF assms(1) this] assms(2) show ?thesis
    by (simp add: facing_def closestSide_def sidesOpposite_def A B)
qed

text \<open>Every edge that a mind map draws faces along its pair of anchor points.\<close>

lemma fold_subtopicNode_facing:
  assumes "list_all2 (facing fp) (fst (snd st)) ps"
  shows "list_all2 (facing fp)
           (fst (snd (fold (subtopicNode fp gen bid cx cy a0 da) (enumerate n xs) st)))
           (ps @ map (\<lambda>j. ((cx, cy),
                           (fadd fp cx (fmul fp (fcos fp (fadd fp a0 (fmul fp da (Num (real j)))))
                                           (Num 150)),
                            fadd fp cy (fmul fp (fsin fp (fadd fp a0 (fmul fp da (Num (real j)))))
                                           (Num 150)))))
                   [n..<n + length xs])"
  using assms
proof (induction xs arbitrary: n st ps)
  case Nil
  then show ?case by simp
next
  case (Cons x xs)
  obtain ns es k where st: "st = (ns, es, k)" by (cases st)
  let ?p = "((cx, cy),
             (fadd fp cx (fmul fp (fcos fp (fadd fp a0 (fmul fp da (Num (real n))))) (Num 150)),
              fadd fp cy (fmul fp (fsin fp (fadd fp a0 (fmul fp da (Num (real n))))) (Num 150))))"
  have "list_all2 (facing fp) es ps"
    using Cons.prems by (simp add: st)
  then have step: "list_all2 (facing fp)
      (fst (snd (subtopicNode fp gen bid cx cy a0 da (n, x) st))) (ps @ [?p])"
    unfolding st subtopicNode.simps Let_def fst_conv snd_conv
    by (rule list_all2_snoc) (simp add: facing_def closestSide_def)
  have upt: "[n..<n + length (x # xs)] = n # [Suc n..<Suc n + length xs]"
    by (subst upt_rec) simp
  show ?case
    using Cons.IH[OF step, of "Suc n"] unfolding upt by simp
qed

lemma fold_subtopicItem_facing:
  assumes "list_all2 (facing fp) (fst (snd st)) ps"
  shows "list_all2 (facing fp)
           (fst (snd (fold (subtopicItem fp gen bid cx cy a0 da) (enumerate n xs) st)))
           (ps @ map (\<lambda>j. ((cx, cy),
                           (fadd fp cx (fmul fp (fcos fp (fadd fp a0 (fmul fp da (Num (real j)))))
                                           (Num 150)),
                            fadd fp cy (fmul fp (fsin fp (fadd fp a0 (fmul fp da (Num (real j)))))
                                           (Num 150)))))
                   [n..<n + length xs])"
  using assms
proof (induction xs arbitrary: n st ps)
  case Nil
  then show ?case by simp
next
  case (Cons x xs)
  obtain ns es k where st: "st = (ns, es, k)" by (cases st)
  let ?p = "((cx, cy),
             (fadd fp cx (fmul fp (fcos fp (fadd fp a0 (fmul fp da (Num (real n))))) (Num 150)),
              fadd fp cy (fmul fp (fsin fp (fadd fp a0 (fmul fp da (Num (real n))))) (Num 150))))"
  have "list_all2 (facing fp) es ps"
    using Cons.prems by (simp add: st)
  then have step: "list_all2 (facing fp)
      (fst (snd (subtopicItem fp gen bid cx cy a0 da (n, x) st))) (ps @ [?p])"
    unfolding st subtopicItem.simps Let_def fst_conv snd_conv
    by (rule list_all2_snoc) (simp add: facing_def closestSide_def)
  have upt: "[n..<n + length (x # xs)] = n # [Suc n..<Suc n + length xs]"
    by (subst upt_rec) simp
  show ?case
    using Cons.IH[OF step, of "Suc n"] unfolding upt by simp
qed

lemma branchNode_facing:
  assumes "list_all2 (facing fp) (fst (snd st)) ps"
  shows "list_all2 (facing fp) (fst (snd (branchNode fp gen cid da (i, b) st)))
           (ps @ branchAnchors fp da i (length (b_subtopics b)) (length (b_subtopics b)))"
proof -
  obtain ns es k where st: "st = (ns, es, k)" by (cases st)
  let ?B = "branchAnchor fp da i"
  let ?e = "\<lparr>e_id = gen (Suc k), e_fromNode = cid, e_toNode = gen k,
             e_fromSide = Some (getClosestSide fp (Num 500) (Num 400) (fst ?B) (snd ?B)),
             e_toSide = Some (getClosestSide fp (fst ?B) (snd ?B) (Num 500) (Num 400))\<rparr>"
  have "list_all2 (facing fp) es ps"
    using assms by (simp add: st)
  then have first: "list_all2 (facing fp) (es @ [?e]) (ps @ [(centre, ?B)])"
    by (rule list_all2_snoc) (simp add: facing_def closestSide_def centre_def)
  have "list_all2 (facing fp)
      (fst (snd (fold (subtopicNode fp gen (gen k) (fst ?B) (snd ?B)
                         (fsub fp (branchAngle fp da i) (fdiv fp (fpi fp) (Num 6)))
                         (fdiv fp (fdiv fp (fpi fp) (Num 3))
                            (Num (real_of_int (max (int (length (b_subtopics b)) - 1) 1)))))
                   (enumerate 0 (b_subtopics b)) (ns', es @ [?e], k'))))
      ((ps @ [(centre, ?B)])
       @ map (\<lambda>j. (?B, subtopicAnchor fp da i (length (b_subtopics b)) j))
           [0..<0 + length (b_subtopics b)])" for ns' k'
    using fold_subtopicNode_facing[where st = "(ns', es @ [?e], k')" and n = 0
        and ps = "ps @ [(centre, ?B)]" and fp = fp and cx = "fst ?B" and cy = "snd ?B"] first
    by (simp add: subtopicAnchor_def subtopicAngle_def)
  then show ?thesis
    by (simp add: st Let_def branchAnchors_def branchAnchor_def branchAngle_def)
qed

lemma fold_branchNode_facing:
  assumes "list_all2 (facing fp) (fst (snd st)) ps"
  shows "list_all2 (facing fp) (fst (snd (fold (branchNode fp gen cid da) (enumerate n bs) st)))
           (ps @ concat (map (\<lambda>(i, b). branchAnchors fp da i (length (b_subtopics b))
                                          (length (b_subtopics b)))
                           (enumerate n bs)))"
  using assms
proof (induction bs arbitrary: n st ps)
  case Nil
  then show ?case by simp
next
  case (Cons b bs)
  from Cons.IH[OF branchNode_facing[OF Cons.prems, of gen cid da n b], where n = "Suc n"]
  show ?case by simp
qed

lemma createMindMapCanvas_facing:
  "list_all2 (facing fp) (edges (createMindMapCanvas fp gen central branches))
     (pluginAnchors fp branches)"
proof -
  have "list_all2 (facing fp) (fst (snd (fold (branchNode fp gen cid da) (enumerate 0 branches)
      (ns0, [], 1)))) ([] @ concat (map (\<lambda>(i, b). branchAnchors fp da i (length (b_subtopics b))
                                          (length (b_subtopics b)))
                           (enumerate 0 branches)))" for cid da ns0
    by (rule fold_branchNode_facing) simp
  then show ?thesis
    by (simp add: createMindMapCanvas_def pluginAnchors_def Let_def case_prod_beta)
qed

lemma branchItem_facing:
  assumes "list_all2 (facing fp) (fst (snd st)) ps"
  shows "list_all2 (facing fp) (fst (snd (branchItem fp gen cid da (i, b) st)))
           (ps @ branchAnchors fp da i (length (b_subtopics b))
                   (min 5 (length (b_subtopics b))))"
proof -
  obtain ns es k where st: "st = (ns, es, k)" by (cases st)
  let ?B = "branchAnchor fp da i"
  let ?e = "\<lparr>e_id = gen (Suc k), e_fromNode = cid, e_toNode = gen k,
             e_fromSide = Some (getClosestSide fp (Num 500) (Num 400) (fst ?B) (snd ?B)),
             e_toSide = Some (getClosestSide fp (fst ?B) (snd ?B) (Num 500) (Num 400))\<rparr>"
  have "list_all2 (facing fp) es ps"
    using assms by (simp add: st)
  then have first: "list_all2 (facing fp) (es @ [?e]) (ps @ [(centre, ?B)])"
    by (rule list_all2_snoc) (simp add: facing_def closestSide_def centre_def)
  show ?thesis
  proof (cases "length (b_subtopics b) > 0")
    case True
    have "list_all2 (facing fp)
        (fst (snd (fold (subtopicItem fp gen (gen k) (fst ?B) (snd ?B)
                           (fsub fp (branchAngle fp da i) (fdiv fp (fpi fp) (Num 6)))
                           (fdiv fp (fdiv fp (fpi fp) (Num 3))
                              (Num (real_of_int (max (int (length (b_subtopics b)) - 1) 1)))))
                     (enumerate 0 (take 5 (b_subtopics b))) (ns', es @ [?e], k'))))
        ((ps @ [(centre, ?B)])
         @ map (\<lambda>j. (?B, subtopicAnchor fp da i (length (b_subtopics b)) j))
             [0..<min 5 (length (b_subtopics b))])" for ns' k'
      using fold_subtopicItem_facing[where st = "(ns', es @ [?e], k')" and n = 0
          and ps = "ps @ [(centre, ?B)]" and fp = fp and cx = "fst ?B" and cy = "snd ?B"
          and xs = "take 5 (b_subtopics b)"] first
      by (simp add: subtopicAnchor_def subtopicAngle_def min.commute)
    with True show ?thesis
      by (simp add: st Let_def branchAnchors_def branchAnchor_def branchAngle_def)
  next
    case False
    with first show ?thesis
      by (simp add: st Let_def branchAnchors_def branchAnchor_def branchAngle_def)
  qed
qed

lemma fold_branchItem_facing:
  assumes "list_all2 (facing fp) (fst (snd st)) ps"
  shows "list_all2 (facing fp) (fst (snd (fold (branchItem fp gen cid da) (enumerate n bs) st)))
           (ps @ concat (map (\<lambda>(i, b). branchAnchors fp da i (length (b_subtopics b))
                                          (min 5 (length (b_subtopics b))))
                           (enumerate n bs)))"
  using assms
proof (induction bs arbitrary: n st ps)
  case Nil
  then show ?case by simp
next
  case (Cons b bs)
  from Cons.IH[OF branchItem_facing[OF Cons.prems, of gen cid da n b], where n = "Suc n"]
  show ?case by simp
qed

lemma layoutMindMap_facing:
  "list_all2 (facing fp) (edges (layoutMindMap fp gen central branches))
     (serverAnchors fp branches)"
proof (cases "branches = []")
  case True
  then show ?thesis
    by (simp add: layoutMindMap_def serverAnchors_def)
next
  case False
  have "list_all2 (facing fp) (fst (snd (fold (branchItem fp gen cid da) (enumerate 0 branches)
      (ns0, [], 1)))) ([] @ concat (map (\<lambda>(i, b). branchAnchors fp da i (length (b_subtopics b))
                                          (min 5 (length (b_subtopics b))))
                           (enumerate 0 branches)))" for cid da ns0
    by (rule fold_branchItem_facing) simp
  with False show ?thesis
    by (simp add: layoutMindMap_def serverAnchors_def Let_def case_prod_beta)
qed

text \<open>The sample arithmetic has the properties of IEEE 754 subtraction.\<close>

lemma round53_minus: "round53 (- x) = - round53 x"
  by (simp add: round53_def sgn_minus)

lemma round53_eq_0_iff: "round53 x = 0 \<longleftrightarrow> x = 0"
proof
  assume r: "round53 x = 0"
  show "x = 0"
  proof (rule ccontr)
    assume nz: "x \<noteq> 0"
    define e where "e = \<lfloor>log 2 \<bar>x\<bar>\<rfloor>"
    have pos: "0 < \<bar>x\<bar>" using nz by simp
    have "real_of_int e \<le> log 2 \<bar>x\<bar>" by (simp add: e_def)
    then have "2 powr real_of_int e \<le> 2 powr log 2 \<bar>x\<bar>" by simp
    then have le: "2 powr real_of_int e \<le> \<bar>x\<bar>" using pos by simp
    have "2 powr 52 = 2 powr real_of_int e * 2 powr (52 - real_of_int e)"
      by (simp add: powr_add[symmetric])
    also have "\<dots> \<le> \<bar>x\<bar> * 2 powr (52 - real_of_int e)"
      using le by (simp add: mult_right_mono)
    finally have "1 \<le> \<bar>x\<bar> * 2 powr (52 - real_of_int e) + 1 / 2"
      by (simp add: add_increasing2)
    then have "1 \<le> \<lfloor>\<bar>x\<bar> * 2 powr (52 - real_of_int e) + 1 / 2\<rfloor>"
      by (simp add: le_floor_iff)
    then have "real_of_int \<lfloor>\<bar>x\<bar> * 2 powr (52 - real_of_int e) + 1 / 2\<rfloor> \<noteq> 0"
      by linarith
    with r nz show False
      by (simp add: round53_def e_def sgn_real_def split: if_splits)
  qed
next
  assume "x = 0"
  then show "round53 x = 0" by (simp add: round53_def)
qed

lemma ieeeSubtraction_sampleArith: "ieeeSubtraction sampleArith"
  unfolding ieeeSubtraction_def
proof (intro allI conjI impI)
  fix a b :: real
  show "fsub sampleArith (Num a) (Num b) \<noteq> NaN"
    by (simp add: sampleArith_def rounded2_def)
  have "round53 (b - a) = - round53 (a - b)"
    using round53_minus[of "a - b"] by simp
  then show "fsub sampleArith (Num b) (Num a) = negNum (fsub sampleArith (Num a) (Num b))"
    by (simp add: sampleArith_def rounded2_def)
  assume "fsub sampleArith (Num a) (Num b) = Num 0"
  then have "round53 (a - b) = 0"
    by (simp add: sampleArith_def rounded2_def)
  then show "a = b"
    by (simp add: round53_eq_0_iff)
qed

lemma round53_unit:
  assumes "1 \<le> x" and "x < 2"
  shows "round53 x = real_of_int \<lfloor>x * 2 ^ 52 + 1 / 2\<rfloor> / 2 ^ 52"
proof -
  have l: "\<lfloor>log 2 \<bar>x\<bar>\<rfloor> = 0"
  proof (rule floor_unique)
    show "real_of_int 0 \<le> log 2 \<bar>x\<bar>"
      using assms by simp
    have "log 2 \<bar>x\<bar> < log 2 2"
      using assms by (subst log_less_cancel_iff) simp_all
    then show "log 2 \<bar>x\<bar> < real_of_int 0 + 1" by simp
  qed
  have p: "(2::real) powr 52 = 2 ^ 52"
    by simp
  have m: "(2::real) powr (- 52) = 1 / 2 ^ 52"
    by (simp add: powr_minus_divide)
  have "round53 x = sgn x
      * real_of_int \<lfloor>\<bar>x\<bar> * 2 powr (52 - real_of_int \<lfloor>log 2 \<bar>x\<bar>\<rfloor>) + 1 / 2\<rfloor>
      * 2 powr (real_of_int \<lfloor>log 2 \<bar>x\<bar>\<rfloor> - 52)"
    using assms by (simp add: round53_def)
  also have "\<dots> = real_of_int \<lfloor>x * 2 powr 52 + 1 / 2\<rfloor> * 2 powr (- 52)"
    using assms l by simp
  finally show ?thesis
    by (simp only: p m) simp
qed

lemma round53_1: "round53 1 = 1"
proof -
  have "\<lfloor>1 * 2 ^ 52 + 1 / 2 :: real\<rfloor> = 2 ^ 52"
    by (rule floor_unique) simp_all
  with round53_unit[of 1] show ?thesis by simp
qed

lemma round53_near_1: "round53 (1 + 1 / 2 ^ 60) = 1"
proof -
  have "\<lfloor>(1 + 1 / 2 ^ 60) * 2 ^ 52 + 1 / 2 :: real\<rfloor> = 2 ^ 52"
    by (rule floor_unique) simp_all
  with round53_unit[of "1 + 1 / 2 ^ 60"] show ?thesis by simp
qed

text \<open>
  Claim C10.  Let the subtraction of the platform have the properties of IEEE 754
  subtraction on finite doubles.  Then, for two distinct points A and B with finite
  coordinates, \<^verbatim>\<open>getClosestSide(A, B)\<close> and \<^verbatim>\<open>getClosestSide(B, A)\<close> are opposite sides.
  Every edge of a mind map, of the plugin's \<^verbatim>\<open>createMindMapCanvas\<close> and of the server's
  \<^verbatim>\<open>generateMindMapFromDescription\<close>, takes its two sides from \<^verbatim>\<open>getClosestSide\<close> at the
  anchor points of its two nodes, in the two directions; consequently every edge between
  nodes whose anchor points are finite and differ has a \<^verbatim>\<open>toSide\<close> opposite to its
  \<^verbatim>\<open>fromSide\<close>.
\<close>

theorem getClosestSide_opposite_sides:
  assumes "ieeeSubtraction fp"
  shows "(ax \<noteq> bx \<or> ay \<noteq> by \<longrightarrow>
            getClosestSide fp (Num bx) (Num by) (Num ax) (Num ay)
            = oppositeSide (getClosestSide fp (Num ax) (Num ay) (Num bx) (Num by)))
    \<and> list_all2 (\<lambda>e AB. facing fp e AB
                  \<and> (finitePoint (fst AB) \<and> finitePoint (snd AB) \<and> fst AB \<noteq> snd AB
                     \<longrightarrow> sidesOpposite e))
        (edges (createMindMapCanvas fp gen central branches)) (pluginAnchors fp branches)
    \<and> list_all2 (\<lambda>e AB. facing fp e AB
                  \<and> (finitePoint (fst AB) \<and> finitePoint (snd AB) \<and> fst AB \<noteq> snd AB
                     \<longrightarrow> sidesOpposite e))
        (edges (generateMindMapFromDescription fp gen' description))
        (serverAnchors fp (snd (parseMindMap description)))"
proof (intro conjI impI)
  assume "ax \<noteq> bx \<or> ay \<noteq> by"
  then show "getClosestSide fp (Num bx) (Num by) (Num ax) (Num ay)
      = oppositeSide (getClosestSide fp (Num ax) (Num ay) (Num bx) (Num by))"
    by (rule getClosestSide_swap[OF assms])
next
  show "list_all2 (\<lambda>e AB. facing fp e AB
                  \<and> (finitePoint (fst AB) \<and> finitePoint (snd AB) \<and> fst AB \<noteq> snd AB
                     \<longrightarrow> sidesOpposite e))
        (edges (createMindMapCanvas fp gen central branches)) (pluginAnchors fp branches)"
    by (rule list_all2_mono[OF createMindMapCanvas_facing]) (auto intro: facing_opposite[OF assms])
next
  have "list_all2 (\<lambda>e AB. facing fp e AB
                  \<and> (finitePoint (fst AB) \<and> finitePoint (snd AB) \<and> fst AB \<noteq> snd AB
                     \<longrightarrow> sidesOpposite e))
        (edges (layoutMindMap fp gen' c bs)) (serverAnchors fp bs)" for c bs
    by (rule list_all2_mono[OF layoutMindMap_facing]) (auto intro: facing_opposite[OF assms])
  then show "list_all2 (\<lambda>e AB. facing fp e AB
                  \<and> (finitePoint (fst AB) \<and> finitePoint (snd AB) \<and> fst AB \<noteq> snd AB
                     \<longrightarrow> sidesOpposite e))
        (edges (generateMindMapFromDescription fp gen' description))
        (serverAnchors fp (snd (parseMindMap description)))"
    by (simp add: generateMindMapFromDescription_def case_prod_beta)
qed

text \<open>
  In the sample arithmetic the difference of \<open>2\<^sup>-\<^sup>6\<^sup>0\<close> and \<open>-1\<close> rounds to 1: from
  \<open>(-1, 0)\<close> the point \<open>(2\<^sup>-\<^sup>6\<^sup>0, 1)\<close> lies no further to the right than down, and the two
  sides are bottom and top.
\<close>

theorem getClosestSide_opposite_sides_witness:
  "ieeeSubtraction sampleArith
   \<and> getClosestSide sampleArith (Num (1 / 2 ^ 60)) (Num 1) (Num (- 1)) (Num 0)
     = oppositeSide (getClosestSide sampleArith (Num (- 1)) (Num 0) (Num (1 / 2 ^ 60)) (Num 1))
   \<and> getClosestSide sampleArith (Num (- 1)) (Num 0) (Num (1 / 2 ^ 60)) (Num 1) = Bottom"
proof (intro conjI)
  show "ieeeSubtraction sampleArith"
    by (rule ieeeSubtraction_sampleArith)
  show "getClosestSide sampleArith (Num (1 / 2 ^ 60)) (Num 1) (Num (- 1)) (Num 0)
     = oppositeSide (getClosestSide sampleArith (Num (- 1)) (Num 0) (Num (1 / 2 ^ 60)) (Num 1))"
    by (rule mp[OF conjunct1[OF getClosestSide_opposite_sides[OF ieeeSubtraction_sampleArith]]])
      simp
  have "round53 (1 / 2 ^ 60 - (- 1)) = 1"
    using round53_near_1 by (simp add: add.commute)
  then show "getClosestSide sampleArith (Num (- 1)) (Num 0) (Num (1 / 2 ^ 60)) (Num 1) = Bottom"
    by (simp add: getClosestSide_def sampleArith_def rounded2_def round53_1)
qed
section \<open>Properties of \<^verbatim>\<open>validateAndFixCanvasData\<close>\<close>

text \<open>The loops of the validator raise exactly when they meet \<^verbatim>\<open>null\<close>.\<close>

lemma foldE_fixNode:
  "foldE (fixNode gen) xs st
     = (if JNull \<in> set xs then Inl TypeError else Inr (fold (fixEntry gen) xs st))"
proof (induction xs arbitrary: st)
  case Nil
  show ?case by simp
next
  case (Cons x xs)
  obtain ns k where st: "st = (ns, k)" by (cases st)
  show ?case
  proof (cases "x = JNull")
    case True
    then show ?thesis by (simp add: st)
  next
    case False
    then obtain st' where s: "fixNode gen x (ns, k) = Inr st'"
      by (simp add: case_prod_beta)
    then have "fixEntry gen x st = st'"
      by (simp add: fixEntry_def st)
    with False s show ?thesis
      by (simp add: st Cons.IH del: fixNode.simps)
  qed
qed

lemma keepEdge_keeps:
  "keepEdge ids x = (if x = JNull then Inl TypeError else Inr (keeps ids x))"
  by (simp add: keepEdge_def keeps_def)

lemma filterE_keepEdge:
  "filterE (keepEdge ids) xs
     = (if JNull \<in> set xs then Inl TypeError else Inr (filter (keeps ids) xs))"
  by (induction xs) (auto simp: keepEdge_keeps)

lemma arrayOrEmpty_entries:
  "arrayOrEmpty v
     = (if nullFreeArray v \<or> JNull \<in> set (entries v) then Inr (entries v) else Inl TypeError)"
  by (auto simp: arrayOrEmpty_def nullFreeArray_def entries_def split: option.splits json.splits)

lemma nullFreeArray_entries: "nullFreeArray v \<Longrightarrow> JNull \<notin> set (entries v)"
  by (auto simp: nullFreeArray_def entries_def split: option.splits json.splits)

lemma not_nullFreeArray:
  "\<not> nullFreeArray v \<Longrightarrow> JNull \<in> set (entries v) \<or> arrayOrEmpty v = Inl TypeError"
  by (auto simp: arrayOrEmpty_def nullFreeArray_def entries_def split: option.splits json.splits)

text \<open>The result on an input of the shape that raises nothing.\<close>

lemma validate_wellShaped:
  assumes "wellShaped data"
  shows "validateAndFixCanvasData gen data
     = Inr \<lparr>fc_nodes = fst (fold (fixEntry gen) (entries (propOf data ''nodes'')) ([], 0)),
            fc_edges = fst (fold (fixEdge gen)
              (filter (keeps (map fn_id
                 (fst (fold (fixEntry gen) (entries (propOf data ''nodes'')) ([], 0)))))
                 (entries (propOf data ''edges'')))
              ([], snd (fold (fixEntry gen) (entries (propOf data ''nodes'')) ([], 0))))\<rparr>"
proof -
  from assms have d: "data \<noteq> JNull"
    and n: "nullFreeArray (propOf data ''nodes'')" and e: "nullFreeArray (propOf data ''edges'')"
    by (simp_all add: wellShaped_def)
  have an: "arrayOrEmpty (propOf data ''nodes'') = Inr (entries (propOf data ''nodes''))"
    and ae: "arrayOrEmpty (propOf data ''edges'') = Inr (entries (propOf data ''edges''))"
    using n e by (simp_all add: arrayOrEmpty_entries)
  show ?thesis
    using d nullFreeArray_entries[OF n] nullFreeArray_entries[OF e]
    by (simp add: validateAndFixCanvasData_def an ae foldE_fixNode filterE_keepEdge
        case_prod_beta Let_def)
qed

lemma validate_raises:
  assumes "\<not> wellShaped data"
  shows "validateAndFixCanvasData gen data = Inl TypeError"
proof (cases "data = JNull")
  case True
  then show ?thesis by (simp add: validateAndFixCanvasData_def)
next
  case False
  show ?thesis
  proof (cases "nullFreeArray (propOf data ''nodes'')")
    case n: False
    from not_nullFreeArray[OF n] False show ?thesis
      by (auto simp: validateAndFixCanvasData_def arrayOrEmpty_entries foldE_fixNode)
  next
    case n: True
    with assms False have e: "\<not> nullFreeArray (propOf data ''edges'')"
      by (simp add: wellShaped_def)
    have an: "arrayOrEmpty (propOf data ''nodes'') = Inr (entries (propOf data ''nodes''))"
      using n by (simp add: arrayOrEmpty_entries)
    from not_nullFreeArray[OF e] False nullFreeArray_entries[OF n] show ?thesis
      by (auto simp: validateAndFixCanvasData_def an arrayOrEmpty_entries foldE_fixNode
          filterE_keepEdge case_prod_beta)
  qed
qed

lemma validate_returns_iff:
  "(\<exists>out. validateAndFixCanvasData gen data = Inr out) \<longleftrightarrow> wellShaped data"
proof
  assume "\<exists>out. validateAndFixCanvasData gen data = Inr out"
  then show "wellShaped data"
    by (cases "wellShaped data") (simp_all add: validate_raises)
next
  assume "wellShaped data"
  then show "\<exists>out. validateAndFixCanvasData gen data = Inr out"
    using validate_wellShaped[of data gen] by simp
qed

lemma fixEntry_length:
  "x \<noteq> JNull \<Longrightarrow> length (fst (fixEntry gen x st)) = Suc (length (fst st))"
  by (cases st) (simp add: fixEntry_def case_prod_beta)

lemma fold_fixEntry_length:
  "JNull \<notin> set xs \<Longrightarrow> length (fst (fold (fixEntry gen) xs st)) = length (fst st) + length xs"
proof (induction xs arbitrary: st)
  case Nil
  show ?case by simp
next
  case (Cons x xs)
  then have "x \<noteq> JNull" and "JNull \<notin> set xs" by auto
  then show ?case
    by (simp add: Cons.IH fixEntry_length)
qed

lemma fixEdge_endpoints:
  "map fixedEndpoints (fst (fixEdge gen x st)) = map fixedEndpoints (fst st) @ [rawEndpoints x]"
  by (cases st) (simp add: case_prod_beta fixedEndpoints_def rawEndpoints_def)

lemma fold_fixEdge_endpoints:
  "map fixedEndpoints (fst (fold (fixEdge gen) xs st))
     = map fixedEndpoints (fst st) @ map rawEndpoints xs"
proof (induction xs arbitrary: st)
  case Nil
  show ?case by simp
next
  case (Cons x xs)
  show ?case by (simp add: Cons fixEdge_endpoints)
qed

lemma keeps_endpoints:
  assumes "keeps ids e"
  shows "fst (rawEndpoints e) \<in> Some ` set ids" and "snd (rawEndpoints e) \<in> Some ` set ids"
  using assms by (auto simp: keeps_def setHas_def rawEndpoints_def split: option.splits)

lemma keeps_cong: "rawEndpoints e = rawEndpoints e' \<Longrightarrow> keeps ids e = keeps ids e'"
  by (simp add: keeps_def rawEndpoints_def)

text \<open>
  Claim C1, as stated: \<^verbatim>\<open>validateAndFixCanvasData\<close> returns without raising on every
  input.  The text \<^verbatim>\<open>{"nodes": [null]}\<close> parses, and on its value the callback of
  \<^verbatim>\<open>nodes.map\<close> reads \<^verbatim>\<open>node.id\<close> of \<^verbatim>\<open>null\<close>: the validator raises a \<^verbatim>\<open>TypeError\<close>
  (which its caller catches and reports).
\<close>

theorem validateAndFixCanvasData_raises_on_null_node:
  "validateAndFixCanvasData (pluginIds sampleRandoms sampleClock) nullNodeCanvas = Inl TypeError"
  by (simp add: validateAndFixCanvasData_def nullNodeCanvas_def arrayOrEmpty_def)

text \<open>
  Claim C1, amended.  Let the input be a value other than \<^verbatim>\<open>null\<close> whose \<^verbatim>\<open>nodes\<close> and
  \<^verbatim>\<open>edges\<close> each are missing, falsy, or an array without a \<^verbatim>\<open>null\<close> entry, whatever the
  entries are and whatever fields of them are missing or malformed.  Then
  \<^verbatim>\<open>validateAndFixCanvasData\<close> returns without raising; both endpoints of every edge of
  the result are ids of nodes of the result; the edges of the result are, in order, the
  input edges whose endpoints both are such ids, and no edge of the result has the
  endpoints of an input edge that violates this; and the result has as many nodes as
  the input.  (On every other input the validator raises, by \<open>validate_returns_iff\<close>.)
\<close>

theorem validateAndFixCanvasData_referential_integrity:
  assumes "wellShaped data"
  shows "\<exists>out. validateAndFixCanvasData gen data = Inr out
     \<and> (\<forall>e \<in> set (fc_edges out).
           fe_fromNode e \<in> Some ` set (map fn_id (fc_nodes out))
         \<and> fe_toNode e \<in> Some ` set (map fn_id (fc_nodes out)))
     \<and> map fixedEndpoints (fc_edges out)
         = map rawEndpoints
             (filter (keeps (map fn_id (fc_nodes out))) (entries (propOf data ''edges'')))
     \<and> (\<forall>e \<in> set (entries (propOf data ''edges'')).
           \<not> keeps (map fn_id (fc_nodes out)) e
           \<longrightarrow> rawEndpoints e \<notin> set (map fixedEndpoints (fc_edges out)))
     \<and> length (fc_nodes out) = length (entries (propOf data ''nodes''))"
proof -
  define ns where "ns = fst (fold (fixEntry gen) (entries (propOf data ''nodes'')) ([], 0))"
  define k where "k = snd (fold (fixEntry gen) (entries (propOf data ''nodes'')) ([], 0))"
  define kept where "kept = filter (keeps (map fn_id ns)) (entries (propOf data ''edges''))"
  define out where "out = \<lparr>fc_nodes = ns, fc_edges = fst (fold (fixEdge gen) kept ([], k))\<rparr>"
  have ret: "validateAndFixCanvasData gen data = Inr out"
    unfolding out_def kept_def ns_def k_def by (rule validate_wellShaped[OF assms])
  have ends: "map fixedEndpoints (fc_edges out) = map rawEndpoints kept"
    by (simp add: out_def fold_fixEdge_endpoints)
  have nodes: "fc_nodes out = ns"
    by (simp add: out_def)
  have 1: "fe_fromNode e \<in> Some ` set (map fn_id (fc_nodes out))
      \<and> fe_toNode e \<in> Some ` set (map fn_id (fc_nodes out))" if "e \<in> set (fc_edges out)" for e
  proof -
    from that have "fixedEndpoints e \<in> set (map fixedEndpoints (fc_edges out))" by simp
    then obtain r where r: "r \<in> set kept" and eq: "fixedEndpoints e = rawEndpoints r"
      unfolding ends by auto
    from r have "keeps (map fn_id ns) r" by (simp add: kept_def)
    moreover from eq have "fe_fromNode e = fst (rawEndpoints r)"
      and "fe_toNode e = snd (rawEndpoints r)"
      by (simp_all add: fixedEndpoints_def flip: eq)
    ultimately show ?thesis
      using keeps_endpoints[of "map fn_id ns" r] by (simp add: nodes)
  qed
  have 3: "rawEndpoints e \<notin> set (map fixedEndpoints (fc_edges out))"
    if "\<not> keeps (map fn_id (fc_nodes out)) e" for e
  proof
    assume "rawEndpoints e \<in> set (map fixedEndpoints (fc_edges out))"
    then obtain r where r: "r \<in> set kept" and eq: "rawEndpoints e = rawEndpoints r"
      unfolding ends by auto
    from r have "keeps (map fn_id ns) r" by (simp add: kept_def)
    with keeps_cong[OF eq, of "map fn_id ns"] that show False by (simp add: nodes)
  qed
  have 4: "length (fc_nodes out) = length (entries (propOf data ''nodes''))"
    using assms
    by (simp add: nodes ns_def fold_fixEntry_length nullFreeArray_entries wellShaped_def)
  from ret 1 ends 3 4 show ?thesis
    by (intro exI[of _ out]) (simp add: nodes kept_def)
qed

text \<open>
  The sample graph: the edge to the node that does not exist is dropped, the other edge
  and the four nodes are kept.
\<close>

theorem validateAndFixCanvasData_referential_integrity_witness:
  "wellShaped sampleCanvas
   \<and> length (fc_nodes (projr (validateAndFixCanvasData (pluginIds sampleRandoms sampleClock)
        sampleCanvas))) = 4
   \<and> map fixedEndpoints (fc_edges (projr (validateAndFixCanvasData
        (pluginIds sampleRandoms sampleClock) sampleCanvas)))
     = [(Some (JString ''a''), Some (JString ''b''))]"
proof (intro conjI)
  show w: "wellShaped sampleCanvas"
    by (simp add: wellShaped_def sampleCanvas_def nullFreeArray_def)
  from validateAndFixCanvasData_referential_integrity[OF w,
      of "pluginIds sampleRandoms sampleClock"]
  obtain out where "validateAndFixCanvasData (pluginIds sampleRandoms sampleClock) sampleCanvas
        = Inr out"
    and "length (fc_nodes out) = length (entries (propOf sampleCanvas ''nodes''))"
    by blast
  then show "length (fc_nodes (projr (validateAndFixCanvasData
      (pluginIds sampleRandoms sampleClock) sampleCanvas))) = 4"
    by (simp add: sampleCanvas_def entries_def)
  have "pluginIds sampleRandoms sampleClock 0 \<noteq> ''ghost''"
    and "pluginIds sampleRandoms sampleClock 1 \<noteq> ''ghost''"
    by (simp_all add: pluginIds_def sampleRandoms_def sampleClock_def generateUniqueId_def
        digit36_def)
  then show "map fixedEndpoints (fc_edges (projr (validateAndFixCanvasData
        (pluginIds sampleRandoms sampleClock) sampleCanvas)))
     = [(Some (JString ''a''), Some (JString ''b''))]"
    by (simp add: validateAndFixCanvasData_def sampleCanvas_def arrayOrEmpty_def keepEdge_def
        setHas_def idOr_def numberOr_def whenTruthy_def valueOr_def truthyProp_def
        fixedEndpoints_def)
qed

section \<open>The server's taskboard\<close>

lemma columnGroup_fold:
  "fold (columnGroup gen) (enumerate 0 columns) ([], 0) = (columnGroups gen, 4)"
  by (simp add: columns_def columnGroups_def getColumnColor_def getProp_def orElse_def
      columnColors_def eval_nat_numeral)

lemma taskLine_skip:
  assumes "length (trim (stripBullet line)) < 3"
  shows "taskLine gen line (ns, c, tc, k) = (ns, detectColumn (toLowerCase line) c, tc, k)"
  using assms by (simp add: Let_def)

lemma fold_taskLine_skip:
  assumes "\<forall>line \<in> set ls. length (trim (stripBullet line)) < 3"
  shows "\<exists>c'. fold (taskLine gen) ls (ns, c, tc, k) = (ns, c', tc, k)"
  using assms
proof (induction ls arbitrary: c)
  case Nil
  show ?case by simp
next
  case (Cons l ls)
  then show ?case by (simp add: taskLine_skip del: taskLine.simps)
qed

text \<open>
  Claim C7.  On the three lines \<^verbatim>\<open>- Fix login bug (high)\<close>, \<^verbatim>\<open>- Write docs\<close>,
  \<^verbatim>\<open>- done: deploy to prod\<close> the taskboard generator returns the four column groups and
  three text nodes: the first task in column 0 (x = 0 * 270 + 20) with color \<^verbatim>\<open>"1"\<close>,
  the second in column 0 too, one row below, with priority medium and no color, and the
  third in column 3 (x = 3 * 270 + 20).
\<close>

theorem taskboard_scenario:
  "generateTaskboardFromDescription (gen :: string idgen) taskboardScenario
     = \<lparr>nodes =
         [\<lparr>n_id = gen 0, n_type = GroupNode, n_x = Num 0, n_y = Num 0,
           n_width = Num 250, n_height = Num 600, n_text = None,
           n_label = Some ''To Do'', n_color = Some (Str ''2'')\<rparr>,
          \<lparr>n_id = gen 1, n_type = GroupNode, n_x = Num 270, n_y = Num 0,
           n_width = Num 250, n_height = Num 600, n_text = None,
           n_label = Some ''In Progress'', n_color = Some (Str ''3'')\<rparr>,
          \<lparr>n_id = gen 2, n_type = GroupNode, n_x = Num 540, n_y = Num 0,
           n_width = Num 250, n_height = Num 600, n_text = None,
           n_label = Some ''Review'', n_color = Some (Str ''5'')\<rparr>,
          \<lparr>n_id = gen 3, n_type = GroupNode, n_x = Num 810, n_y = Num 0,
           n_width = Num 250, n_height = Num 600, n_text = None,
           n_label = Some ''Done'', n_color = Some (Str ''4'')\<rparr>,
          \<lparr>n_id = gen 4, n_type = TextNode, n_x = Num 20, n_y = Num 60,
           n_width = Num 210, n_height = Num 80,
           n_text = Some (''**Fix login bug (high)**'' @ [CHR 0x0A, CHR 0x0A]
                          @ ''Priority: high''),
           n_label = None, n_color = Some (Str ''1'')\<rparr>,
          \<lparr>n_id = gen 5, n_type = TextNode, n_x = Num 20, n_y = Num 150,
           n_width = Num 210, n_height = Num 80,
           n_text = Some (''**Write docs**'' @ [CHR 0x0A, CHR 0x0A] @ ''Priority: medium''),
           n_label = None, n_color = None\<rparr>,
          \<lparr>n_id = gen 6, n_type = TextNode, n_x = Num 830, n_y = Num 60,
           n_width = Num 210, n_height = Num 80,
           n_text = Some (''**done: deploy to prod**'' @ [CHR 0x0A, CHR 0x0A]
                          @ ''Priority: medium''),
           n_label = None, n_color = None\<rparr>],
        edges = []\<rparr>"
  by code_simp

text \<open>
  Claim C8.  When every line of the description is blank or has fewer than 3 characters
  after its bullet is stripped, the taskboard generator returns five nodes: the four
  column groups, and one placeholder text node whose text holds the first 100
  characters of the description.
\<close>

theorem taskboard_placeholder:
  assumes "\<forall>line \<in> set (split (CHR 0x0A) description).
             trim line = [] \<or> length (trim (stripBullet line)) < 3"
  shows "generateTaskboardFromDescription gen description
     = \<lparr>nodes = columnGroups gen @
          [\<lparr>n_id = gen 4, n_type = TextNode, n_x = Num 20, n_y = Num 60,
            n_width = Num 210, n_height = Num 80,
            n_text = Some (''Add tasks from:'' @ [CHR 0x0A, CHR 0x0A]
                           @ take 100 description @ ''...''),
            n_label = None, n_color = None\<rparr>],
        edges = []\<rparr>"
proof -
  have "\<forall>line \<in> set (nonBlankLines description). length (trim (stripBullet line)) < 3"
    using assms by (auto simp: nonBlankLines_def)
  from fold_taskLine_skip[OF this, of gen "columnGroups gen" 0 "[0, 0, 0, 0]" 4]
  obtain c' where "fold (taskLine gen) (nonBlankLines description)
      (columnGroups gen, 0, [0, 0, 0, 0], 4) = (columnGroups gen, c', [0, 0, 0, 0], 4)"
    by blast
  then show ?thesis
    by (simp add: generateTaskboardFromDescription_def columnGroup_fold substring0_def)
      (simp add: columnGroups_def)
qed

theorem taskboard_placeholder_witness:
  "generateTaskboardFromDescription sampleIds (''ab'' @ [CHR 0x0A, CHR 0x0A] @ ''- x'')
     = \<lparr>nodes = columnGroups sampleIds @
          [\<lparr>n_id = sampleIds 4, n_type = TextNode, n_x = Num 20, n_y = Num 60,
            n_width = Num 210, n_height = Num 80,
            n_text = Some (''Add tasks from:'' @ [CHR 0x0A, CHR 0x0A]
                           @ take 100 (''ab'' @ [CHR 0x0A, CHR 0x0A] @ ''- x'') @ ''...''),
            n_label = None, n_color = None\<rparr>],
        edges = []\<rparr>"
proof (rule taskboard_placeholder)
  show "\<forall>line \<in> set (split (CHR 0x0A) (''ab'' @ [CHR 0x0A, CHR 0x0A] @ ''- x'')).
          trim line = [] \<or> length (trim (stripBullet line)) < 3"
    by (simp add: trim_def stripBullet_def isWhiteSpace_def)
qed

section \<open>The server's risk matrix\<close>

text \<open>
  Claim C6, as stated: on the two lines \<^verbatim>\<open>Server outage - high impact, likely\<close> and
  \<^verbatim>\<open>Minor UI glitch - low impact\<close> the graph would hold 9 group cells and 2 text nodes.
  It holds 4 text nodes: the generator first writes the two axis labels.
\<close>

theorem riskmatrix_scenario_text_nodes:
  "length (groupNodes (generateRiskMatrixFromDescription sampleIds riskScenario)) = 9
   \<and> length (textNodes (generateRiskMatrixFromDescription sampleIds riskScenario)) \<noteq> 2"
  by code_simp

text \<open>
  Claim C6, amended.  On these two lines the graph holds 13 nodes: the two axis labels
  \<^verbatim>\<open>**Impact**\<close> and \<^verbatim>\<open>**Likelihood**\<close>, the 9 group cells, and one text node for each
  line, whose text is the whole line.  The first line is read as impact high and
  likelihood high (score 9) and its node lies in that cell (at x = 2 * 270 + 20,
  y = 0 * 220 + 20) with color \<^verbatim>\<open>"1"\<close>; the second is read as impact low and likelihood
  medium (score 2) and its node lies in that cell (at x = 1 * 270 + 20,
  y = 2 * 220 + 20) with color \<^verbatim>\<open>"4"\<close>.
\<close>

theorem riskmatrix_scenario:
  "generateRiskMatrixFromDescription (gen :: string idgen) riskScenario
     = \<lparr>nodes =
         [\<lparr>n_id = gen 0, n_type = TextNode, n_x = Num (- 100), n_y = Num 220,
           n_width = Num 80, n_height = Num 40, n_text = Some ''**Impact**'',
           n_label = None, n_color = None\<rparr>,
          \<lparr>n_id = gen 1, n_type = TextNode, n_x = Num 270, n_y = Num 680,
           n_width = Num 100, n_height = Num 40, n_text = Some ''**Likelihood**'',
           n_label = None, n_color = None\<rparr>,
          \<lparr>n_id = gen 2, n_type = GroupNode, n_x = Num 0, n_y = Num 440,
           n_width = Num 250, n_height = Num 200, n_text = None,
           n_label = Some ''LI / LL'', n_color = Some (Str ''4'')\<rparr>,
          \<lparr>n_id = gen 3, n_type = GroupNode, n_x = Num 270, n_y = Num 440,
           n_width = Num 250, n_height = Num 200, n_text = None,
           n_label = Some ''LI / ML'', n_color = Some (Str ''4'')\<rparr>,
          \<lparr>n_id = gen 4, n_type = GroupNode, n_x = Num 540, n_y = Num 440,
           n_width = Num 250, n_height = Num 200, n_text = None,
           n_label = Some ''LI / HL'', n_color = Some (Str ''2'')\<rparr>,
          \<lparr>n_id = gen 5, n_type = GroupNode, n_x = Num 0, n_y = Num 220,
           n_width = Num 250, n_height = Num 200, n_text = None,
           n_label = Some ''MI / LL'', n_color = Some (Str ''4'')\<rparr>,
          \<lparr>n_id = gen 6, n_type = GroupNode, n_x = Num 270, n_y = Num 220,
           n_width = Num 250, n_height = Num 200, n_text = None,
           n_label = Some ''MI / ML'', n_color = Some (Str ''2'')\<rparr>,
          \<lparr>n_id = gen 7, n_type = GroupNode, n_x = Num 540, n_y = Num 220,
           n_width = Num 250, n_height = Num 200, n_text = None,
           n_label = Some ''MI / HL'', n_color = Some (Str ''1'')\<rparr>,
          \<lparr>n_id = gen 8, n_type = GroupNode, n_x = Num 0, n_y = Num 0,
           n_width = Num 250, n_height = Num 200, n_text = None,
           n_label = Some ''HI / LL'', n_color = Some (Str ''2'')\<rparr>,
          \<lparr>n_id = gen 9, n_type = GroupNode, n_x = Num 270, n_y = Num 0,
           n_width = Num 250, n_height = Num 200, n_text = None,
           n_label = Some ''HI / ML'', n_color = Some (Str ''1'')\<rparr>,
          \<lparr>n_id = gen 10, n_type = GroupNode, n_x = Num 540, n_y = Num 0,
           n_width = Num 250, n_height = Num 200, n_text = None,
           n_label = Some ''HI / HL'', n_color = Some (Str ''1'')\<rparr>,
          \<lparr>n_id = gen 11, n_type = TextNode, n_x = Num 560, n_y = Num 20,
           n_width = Num 100, n_height = Num 40,
           n_text = Some ''Server outage - high impact, likely'', n_label = None,
           n_color = Some (Str ''1'')\<rparr>,
          \<lparr>n_id = gen 12, n_type = TextNode, n_x = Num 290, n_y = Num 460,
           n_width = Num 100, n_height = Num 40,
           n_text = Some ''Minor UI glitch - low impact'', n_label = None,
           n_color = Some (Str ''4'')\<rparr>],
        edges = []\<rparr>
   \<and> detectImpact (toLowerCase ''Server outage - high impact, likely'') = High
   \<and> detectLikelihood (toLowerCase ''Server outage - high impact, likely'') = High
   \<and> riskScore High High = 9
   \<and> detectImpact (toLowerCase ''Minor UI glitch - low impact'') = Low
   \<and> detectLikelihood (toLowerCase ''Minor UI glitch - low impact'') = Medium
   \<and> riskScore Low Medium = 2"
  by code_simp

section \<open>The vault's path guard\<close>

text \<open>
  Claim C4 says that \<^verbatim>\<open>resolvePath\<close> rejects every path that resolves outside the vault
  root.  The guard is \<^verbatim>\<open>resolved.startsWith(this.vaultPath)\<close>, a comparison of strings:
  for the vault \<^verbatim>\<open>/vault\<close> the path \<^verbatim>\<open>../vault-secret/key.md\<close> resolves to
  \<^verbatim>\<open>/vault-secret/key.md\<close>, which is outside the directory \<^verbatim>\<open>/vault\<close> and starts with
  the string \<^verbatim>\<open>/vault\<close>; \<^verbatim>\<open>resolvePath\<close> returns it, \<^verbatim>\<open>readNote\<close> reads the
  file and \<^verbatim>\<open>deleteNote\<close> removes it.  A path out of the vault whose name does not
  continue the root's is rejected.
\<close>

lemma resolvePath_prefix:
  assumes "resolvePath vault relativePath = Inr resolved"
  shows "startsWith resolved (vaultPath vault)"
  using assms by (auto simp: resolvePath_def Let_def split: if_splits)

lemma resolvePath_sibling:
  "resolvePath sampleVault ''../vault-secret/key.md'' = Inr ''/vault-secret/key.md''"
  by code_simp

theorem resolvePath_accepts_sibling_directory:
  "resolvePath sampleVault ''../vault-secret/key.md'' = Inr ''/vault-secret/key.md''
   \<and> \<not> insideDirectory (vaultPath sampleVault) ''/vault-secret/key.md''
   \<and> readNote sampleVault [''/vault-secret/key.md'' \<mapsto> ''secret''] ''../vault-secret/key.md''
       = Inr ''secret''
   \<and> deleteNote sampleVault [''/vault-secret/key.md'' \<mapsto> ''secret''] ''../vault-secret/key.md''
       = Inr Map.empty
   \<and> resolvePath sampleVault ''../etc/passwd'' = Inl PathTraversalNotAllowed"
proof (intro conjI)
  show "resolvePath sampleVault ''../vault-secret/key.md'' = Inr ''/vault-secret/key.md''"
    by (rule resolvePath_sibling)
  show "\<not> insideDirectory (vaultPath sampleVault) ''/vault-secret/key.md''"
    by code_simp
  show "readNote sampleVault [''/vault-secret/key.md'' \<mapsto> ''secret''] ''../vault-secret/key.md''
       = Inr ''secret''"
    by (simp add: readNote_def resolvePath_sibling)
  show "deleteNote sampleVault [''/vault-secret/key.md'' \<mapsto> ''secret''] ''../vault-secret/key.md''
       = Inr Map.empty"
    by (simp add: deleteNote_def resolvePath_sibling)
  show "resolvePath sampleVault ''../etc/passwd'' = Inl PathTraversalNotAllowed"
    by code_simp
qed

section \<open>The subtopics of a mind map\<close>

text \<open>
  The texts of the nodes of a mind map, in order: the plugin's \<^verbatim>\<open>createMindMapCanvas\<close>
  shows every subtopic of every branch; the server's generator shows the first 30
  characters of the first 5 subtopics of every branch.
\<close>

lemma subtopicNode_texts:
  "map n_text (fst (subtopicNode fp gen bid bx by a0 da (j, s) st)) = map n_text (fst st) @ [Some s]"
  by (cases st) (simp add: Let_def)

lemma fold_subtopicNode_texts:
  "map n_text (fst (fold (subtopicNode fp gen bid bx by a0 da) (enumerate n xs) st))
     = map n_text (fst st) @ map Some xs"
  by (induction xs arbitrary: n st) (simp_all add: subtopicNode_texts del: subtopicNode.simps)

lemma branchNode_texts:
  "map n_text (fst (branchNode fp gen cid da (i, b) st)) = map n_text (fst st) @ branchTexts b"
  by (cases st) (simp add: Let_def fold_subtopicNode_texts branchTexts_def del: subtopicNode.simps)

lemma fold_branchNode_texts:
  "map n_text (fst (fold (branchNode fp gen cid da) (enumerate n bs) st))
     = map n_text (fst st) @ concat (map branchTexts bs)"
  by (induction bs arbitrary: n st) (simp_all add: branchNode_texts del: branchNode.simps)

lemma createMindMapCanvas_texts:
  "map n_text (nodes (createMindMapCanvas fp gen central branches))
     = Some (''# '' @ central) # concat (map branchTexts branches)"
  by (simp add: createMindMapCanvas_def Let_def case_prod_beta fold_branchNode_texts
      del: branchNode.simps)

lemma subtopicItem_texts:
  "map n_text (fst (subtopicItem fp gen bid bx by a0 da (j, s) st))
     = map n_text (fst st) @ [Some (take 30 s)]"
  by (cases st) (simp add: Let_def substring0_def)

lemma fold_subtopicItem_texts:
  "map n_text (fst (fold (subtopicItem fp gen bid bx by a0 da) (enumerate n xs) st))
     = map n_text (fst st) @ map (\<lambda>s. Some (take 30 s)) xs"
  by (induction xs arbitrary: n st) (simp_all add: subtopicItem_texts del: subtopicItem.simps)

lemma branchItem_texts:
  "map n_text (fst (branchItem fp gen cid da (i, b) st))
     = map n_text (fst st) @ branchTextsLimited b"
  by (cases st)
    (simp add: Let_def fold_subtopicItem_texts branchTextsLimited_def del: subtopicItem.simps)

lemma fold_branchItem_texts:
  "map n_text (fst (fold (branchItem fp gen cid da) (enumerate n bs) st))
     = map n_text (fst st) @ concat (map branchTextsLimited bs)"
  by (induction bs arbitrary: n st) (simp_all add: branchItem_texts del: branchItem.simps)

lemma layoutMindMap_texts:
  "map n_text (nodes (layoutMindMap fp gen central branches))
     = Some (''# '' @ central) # concat (map branchTextsLimited branches)"
  by (simp add: layoutMindMap_def Let_def case_prod_beta fold_branchItem_texts
      del: branchItem.simps)

lemma generateMindMapFromDescription_texts:
  "map n_text (nodes (generateMindMapFromDescription fp gen description))
     = Some (''# '' @ fst (parseMindMap description))
       # concat (map branchTextsLimited (snd (parseMindMap description)))"
  by (simp add: generateMindMapFromDescription_def case_prod_beta layoutMindMap_texts)

text \<open>
  Claim C5 says that both generators render at most the first 5 subtopics of a branch.
  The server's does (\<^verbatim>\<open>branch.subtopics.slice(0, 5)\<close>); the plugin's loops over
  \<^verbatim>\<open>branch.subtopics\<close>, and renders the sixth subtopic of a branch that has six.
\<close>

theorem createMindMapCanvas_renders_sixth_subtopic:
  "map n_text (nodes (createMindMapCanvas fp gen ''Plan'' [sixSubtopics]))
     = [Some ''# Plan'', Some ''## Scope'',
        Some ''s1'', Some ''s2'', Some ''s3'', Some ''s4'', Some ''s5'', Some ''s6'']
   \<and> map n_text (nodes (layoutMindMap fp gen ''Plan'' [sixSubtopics]))
     = [Some ''# Plan'', Some ''## Scope'',
        Some ''s1'', Some ''s2'', Some ''s3'', Some ''s4'', Some ''s5'']"
  by (simp add: createMindMapCanvas_texts layoutMindMap_texts branchTexts_def
      branchTextsLimited_def sixSubtopics_def)

section \<open>The generators do not depend on the identifiers\<close>

text \<open>
  Each generator commutes with a renaming of the identifiers it is given: its result is
  the renaming of the graph it builds from the identifiers \<open>gen\<close>.
\<close>

lemma fold_rename:
  assumes "\<And>x s. h (f x s) = g x (h s)"
  shows "h (fold f xs s) = fold g xs (h s)"
  by (induction xs arbitrary: s) (simp_all add: assms)

lemma columnHeader_rename:
  "map_prod (map (rename_node f)) id (columnHeader gen tasks ic st)
     = columnHeader (f \<circ> gen) tasks ic (map_prod (map (rename_node f)) id st)"
  by (cases st; cases ic) (simp add: rename_node_def)

lemma taskNode_rename:
  "map_prod (map (rename_node f)) id (taskNode gen t st)
     = taskNode (f \<circ> gen) t (map_prod (map (rename_node f)) id st)"
  by (cases st) (simp add: rename_node_def Let_def)

lemma createTaskboardCanvas_rename:
  fixes f :: "'i \<Rightarrow> 'j" and gen :: "'i idgen"
  shows "createTaskboardCanvas (f \<circ> gen) tasks
    = rename_canvas f (createTaskboardCanvas gen tasks)"
proof -
  let ?h = "map_prod (map (rename_node f)) id :: 'i canvas_node list \<times> nat \<Rightarrow> _"
  let ?h' = "map_prod (map (rename_node f)) id
      :: 'i canvas_node list \<times> (string \<rightharpoonup> nat) \<times> nat \<Rightarrow> _"
  define r1 where "r1 = fold (columnHeader gen tasks) (enumerate 0 columns) ([], 0)"
  have a: "fold (columnHeader (f \<circ> gen) tasks) (enumerate 0 columns) ([], 0) = ?h r1"
    using fold_rename[of ?h "columnHeader gen tasks" "columnHeader (f \<circ> gen) tasks",
        OF columnHeader_rename, of "enumerate 0 columns" "([], 0)"]
    by (simp add: r1_def)
  have b: "fold (taskNode (f \<circ> gen)) tasks (?h' s) = ?h' (fold (taskNode gen) tasks s)" for s
    using fold_rename[of ?h' "taskNode gen" "taskNode (f \<circ> gen)", OF taskNode_rename]
    by simp
  have c: "(map (rename_node f) (fst r1), columnCounts0, snd r1)
      = ?h' (fst r1, columnCounts0, snd r1)"
    by simp
  show ?thesis
    unfolding createTaskboardCanvas_def Let_def case_prod_beta a r1_def[symmetric]
    by (simp only: fst_map_prod snd_map_prod id_apply c b) (simp add: rename_canvas_def)
qed

lemma gridCell_rename:
  "map_prod (map (rename_node f)) id (gridCell gen c st)
     = gridCell (f \<circ> gen) c (map_prod (map (rename_node f)) id st)"
proof -
  obtain i impact j likelihood where c: "c = ((i, impact), (j, likelihood))"
    by (metis surj_pair)
  show ?thesis by (cases st) (simp add: c rename_node_def)
qed

lemma riskNode_rename:
  "map_prod (map (rename_node f)) id (riskNode gen r st)
     = riskNode (f \<circ> gen) r (map_prod (map (rename_node f)) id st)"
  by (cases st) (simp add: rename_node_def Let_def)

lemma createRiskMatrixCanvas_rename:
  fixes f :: "'i \<Rightarrow> 'j" and gen :: "'i idgen"
  shows "createRiskMatrixCanvas (f \<circ> gen) risks
    = rename_canvas f (createRiskMatrixCanvas gen risks)"
proof -
  let ?h = "map_prod (map (rename_node f)) id :: 'i canvas_node list \<times> nat \<Rightarrow> _"
  let ?h' = "map_prod (map (rename_node f)) id
      :: 'i canvas_node list \<times> (level \<times> level \<Rightarrow> nat) \<times> nat \<Rightarrow> _"
  define cells where "cells = List.product (enumerate 0 levels) (enumerate 0 levels)"
  define r1 where "r1 = fold (gridCell gen) cells ([], 0)"
  have a: "fold (gridCell (f \<circ> gen)) cells ([], 0) = ?h r1"
    using fold_rename[of ?h "gridCell gen" "gridCell (f \<circ> gen)",
        OF gridCell_rename, of cells "([], 0)"]
    by (simp add: r1_def)
  have b: "fold (riskNode (f \<circ> gen)) risks (?h' s) = ?h' (fold (riskNode gen) risks s)" for s
    using fold_rename[of ?h' "riskNode gen" "riskNode (f \<circ> gen)", OF riskNode_rename]
    by simp
  have c: "(map (rename_node f) (fst r1), (\<lambda>_. 0), snd r1) = ?h' (fst r1, (\<lambda>_. 0), snd r1)"
    by simp
  show ?thesis
    unfolding createRiskMatrixCanvas_def Let_def case_prod_beta cells_def[symmetric] a
      r1_def[symmetric]
    by (simp only: fst_map_prod snd_map_prod id_apply c b) (simp add: rename_canvas_def)
qed

lemma subtopicNode_rename:
  "rename_state f (subtopicNode fp gen bid bx by a0 da js st)
     = subtopicNode fp (f \<circ> gen) (f bid) bx by a0 da js (rename_state f st)"
  by (cases st; cases js) (simp add: rename_node_def rename_edge_def Let_def)

lemma branchNode_rename:
  fixes f :: "'i \<Rightarrow> 'j" and gen :: "'i idgen"
  shows "rename_state f (branchNode fp gen cid da ib st)
     = branchNode fp (f \<circ> gen) (f cid) da ib (rename_state f st)"
proof -
  obtain ns es k where st: "st = (ns, es, k)" by (cases st)
  obtain i b where ib: "ib = (i, b)" by (cases ib)
  have sub: "rename_state f (fold (subtopicNode fp gen bid bx by a0 sa) xs s)
      = fold (subtopicNode fp (f \<circ> gen) (f bid) bx by a0 sa) xs (rename_state f s)"
    for bid bx "by" a0 sa xs s
    using fold_rename[of "rename_state f" "subtopicNode fp gen bid bx by a0 sa"
        "subtopicNode fp (f \<circ> gen) (f bid) bx by a0 sa", OF subtopicNode_rename]
    by simp
  show ?thesis
    by (simp add: st ib Let_def sub rename_node_def rename_edge_def del: subtopicNode.simps)
qed

lemma createMindMapCanvas_rename:
  fixes f :: "'i \<Rightarrow> 'j" and gen :: "'i idgen"
  shows "createMindMapCanvas fp (f \<circ> gen) central branches
    = rename_canvas f (createMindMapCanvas fp gen central branches)"
proof -
  have b: "fold (branchNode fp (f \<circ> gen) (f cid) da) xs (rename_state f s)
      = rename_state f (fold (branchNode fp gen cid da) xs s)" for cid da xs s
    using fold_rename[of "rename_state f" "branchNode fp gen cid da"
        "branchNode fp (f \<circ> gen) (f cid) da", OF branchNode_rename]
    by simp
  show ?thesis
    unfolding createMindMapCanvas_def Let_def case_prod_beta
    using b[of "gen 0" _ _ "([\<lparr>n_id = gen 0, n_type = TextNode,
                  n_x = Num (500 - 75), n_y = Num (400 - 40),
                  n_width = Num 150, n_height = Num 80,
                  n_text = Some (''# '' @ central), n_label = None,
                  n_color = Some (Str ''5'')\<rparr>], [], 1)"]
    by (simp add: rename_canvas_def rename_node_def)
qed

lemma columnGroup_rename:
  "map_prod (map (rename_node f)) id (columnGroup gen ic st)
     = columnGroup (f \<circ> gen) ic (map_prod (map (rename_node f)) id st)"
  by (cases st; cases ic) (simp add: rename_node_def)

lemma taskLine_rename:
  "map_prod (map (rename_node f)) id (taskLine gen line st)
     = taskLine (f \<circ> gen) line (map_prod (map (rename_node f)) id st)"
proof -
  obtain ns c tc k where st: "st = (ns, c, tc, k)" by (metis surj_pair)
  show ?thesis
    by (simp add: st rename_node_def Let_def case_prod_beta)
qed

lemma generateTaskboardFromDescription_rename:
  fixes f :: "'i \<Rightarrow> 'j" and gen :: "'i idgen"
  shows "generateTaskboardFromDescription (f \<circ> gen) description
    = rename_canvas f (generateTaskboardFromDescription gen description)"
proof -
  let ?h = "map_prod (map (rename_node f)) id :: 'i canvas_node list \<times> nat \<Rightarrow> _"
  let ?h' = "map_prod (map (rename_node f)) id
      :: 'i canvas_node list \<times> nat \<times> nat list \<times> nat \<Rightarrow> _"
  define r1 where "r1 = fold (columnGroup gen) (enumerate 0 columns) ([], 0)"
  have a: "fold (columnGroup (f \<circ> gen)) (enumerate 0 columns) ([], 0) = ?h r1"
    using fold_rename[of ?h "columnGroup gen" "columnGroup (f \<circ> gen)",
        OF columnGroup_rename, of "enumerate 0 columns" "([], 0)"]
    by (simp add: r1_def)
  have b: "fold (taskLine (f \<circ> gen)) ls (?h' s) = ?h' (fold (taskLine gen) ls s)" for ls s
    using fold_rename[of ?h' "taskLine gen" "taskLine (f \<circ> gen)", OF taskLine_rename]
    by simp
  have c: "(map (rename_node f) (fst r1), 0, [0, 0, 0, 0], snd r1)
      = ?h' (fst r1, 0, [0, 0, 0, 0], snd r1)"
    by simp
  show ?thesis
    unfolding generateTaskboardFromDescription_def Let_def case_prod_beta a r1_def[symmetric]
    by (simp only: fst_map_prod snd_map_prod id_apply c b)
      (simp add: rename_canvas_def rename_node_def)
qed

lemma axisLabels_rename: "map (rename_node f) (axisLabels gen) = axisLabels (f \<circ> gen)"
  by (simp add: axisLabels_def rename_node_def)

lemma matrixCell_rename:
  "map_prod (map (rename_node f)) id (matrixCell gen c st)
     = matrixCell (f \<circ> gen) c (map_prod (map (rename_node f)) id st)"
proof -
  obtain i impact j likelihood where c: "c = ((i, impact), (j, likelihood))"
    by (metis surj_pair)
  show ?thesis by (cases st) (simp add: c rename_node_def)
qed

lemma riskLine_rename:
  "map_prod (map (rename_node f)) id (riskLine gen line st)
     = riskLine (f \<circ> gen) line (map_prod (map (rename_node f)) id st)"
  by (cases st) (simp add: rename_node_def Let_def)

lemma generateRiskMatrixFromDescription_rename:
  fixes f :: "'i \<Rightarrow> 'j" and gen :: "'i idgen"
  shows "generateRiskMatrixFromDescription (f \<circ> gen) description
    = rename_canvas f (generateRiskMatrixFromDescription gen description)"
proof -
  let ?h = "map_prod (map (rename_node f)) id :: 'i canvas_node list \<times> nat \<Rightarrow> _"
  let ?h' = "map_prod (map (rename_node f)) id
      :: 'i canvas_node list \<times> (string \<rightharpoonup> nat) \<times> nat \<Rightarrow> _"
  define cells where "cells = List.product (enumerate 0 levels) (enumerate 0 levels)"
  define r1 where "r1 = fold (matrixCell gen) cells (axisLabels gen, 2)"
  have a: "fold (matrixCell (f \<circ> gen)) cells (axisLabels (f \<circ> gen), 2) = ?h r1"
    using fold_rename[of ?h "matrixCell gen" "matrixCell (f \<circ> gen)",
        OF matrixCell_rename, of cells "(axisLabels gen, 2)"]
    by (simp add: r1_def axisLabels_rename)
  have b: "fold (riskLine (f \<circ> gen)) ls (?h' s) = ?h' (fold (riskLine gen) ls s)" for ls s
    using fold_rename[of ?h' "riskLine gen" "riskLine (f \<circ> gen)", OF riskLine_rename]
    by simp
  have c: "(map (rename_node f) (fst r1), Map.empty, snd r1) = ?h' (fst r1, Map.empty, snd r1)"
    by simp
  show ?thesis
    unfolding generateRiskMatrixFromDescription_def Let_def case_prod_beta
      cells_def[symmetric] a r1_def[symmetric]
    by (simp only: fst_map_prod snd_map_prod id_apply c b) (simp add: rename_canvas_def)
qed

lemma subtopicItem_rename:
  "rename_state f (subtopicItem fp gen bid bx by a0 da js st)
     = subtopicItem fp (f \<circ> gen) (f bid) bx by a0 da js (rename_state f st)"
  by (cases st; cases js) (simp add: rename_node_def rename_edge_def Let_def)

lemma branchItem_rename:
  fixes f :: "'i \<Rightarrow> 'j" and gen :: "'i idgen"
  shows "rename_state f (branchItem fp gen cid da ib st)
     = branchItem fp (f \<circ> gen) (f cid) da ib (rename_state f st)"
proof -
  obtain ns es k where st: "st = (ns, es, k)" by (cases st)
  obtain i b where ib: "ib = (i, b)" by (cases ib)
  have sub: "rename_state f (fold (subtopicItem fp gen bid bx by a0 sa) xs s)
      = fold (subtopicItem fp (f \<circ> gen) (f bid) bx by a0 sa) xs (rename_state f s)"
    for bid bx "by" a0 sa xs s
    using fold_rename[of "rename_state f" "subtopicItem fp gen bid bx by a0 sa"
        "subtopicItem fp (f \<circ> gen) (f bid) bx by a0 sa", OF subtopicItem_rename]
    by simp
  show ?thesis
    by (simp add: st ib Let_def sub rename_node_def rename_edge_def del: subtopicItem.simps)
qed

lemma layoutMindMap_rename:
  fixes f :: "'i \<Rightarrow> 'j" and gen :: "'i idgen"
  shows "layoutMindMap fp (f \<circ> gen) central branches
    = rename_canvas f (layoutMindMap fp gen central branches)"
proof -
  have b: "fold (branchItem fp (f \<circ> gen) (f cid) da) xs (rename_state f s)
      = rename_state f (fold (branchItem fp gen cid da) xs s)" for cid da xs s
    using fold_rename[of "rename_state f" "branchItem fp gen cid da"
        "branchItem fp (f \<circ> gen) (f cid) da", OF branchItem_rename]
    by simp
  show ?thesis
    unfolding layoutMindMap_def Let_def case_prod_beta
    using b[of "gen 0" _ _ "([\<lparr>n_id = gen 0, n_type = TextNode,
                  n_x = Num (500 - 75), n_y = Num (400 - 40),
                  n_width = Num 150, n_height = Num 80,
                  n_text = Some (''# '' @ central), n_label = None,
                  n_color = Some (Str ''5'')\<rparr>], [], 1)"]
    by (simp add: rename_canvas_def rename_node_def)
qed

lemma generateMindMapFromDescription_rename:
  "generateMindMapFromDescription fp (f \<circ> gen) description
    = rename_canvas f (generateMindMapFromDescription fp gen description)"
  by (simp add: generateMindMapFromDescription_def case_prod_beta layoutMindMap_rename)

lemma generateCustomCanvas_rename:
  "generateCustomCanvas (f \<circ> gen) description
    = rename_canvas f (generateCustomCanvas gen description)"
  by (simp add: generateCustomCanvas_def rename_canvas_def rename_node_def)

lemma rename_canvas_erase:
  "rename_canvas (\<lambda>_. ()) (rename_canvas f d) = rename_canvas (\<lambda>_. ()) d"
  by (simp add: rename_canvas_def rename_node_def rename_edge_def)

text \<open>
  Claim C3.  The plugin's layout generators are deterministic in everything except the
  identifiers.  The graph built from the identifiers \<open>gen\<close> is the renaming by \<open>gen\<close>
  of one graph, which depends on the structured input only (it is the graph whose
  identifiers are the numbers of the calls to the generator): two invocations on the
  same input give that graph up to the renaming of the identifiers.  In particular,
  with the identifiers erased (in the nodes and at the ends of the edges) the two
  results are equal: the same nodes in the same order with the same type, position,
  size, text, label and color, and the same edges with the same sides.
\<close>

theorem layout_generators_deterministic:
  fixes gen :: "'i idgen" and gen' :: "'j idgen"
  shows "createTaskboardCanvas gen tasks
           = rename_canvas gen (createTaskboardCanvas (\<lambda>k. k) tasks)
    \<and> createRiskMatrixCanvas gen risks
           = rename_canvas gen (createRiskMatrixCanvas (\<lambda>k. k) risks)
    \<and> createMindMapCanvas fp gen central branches
           = rename_canvas gen (createMindMapCanvas fp (\<lambda>k. k) central branches)
    \<and> rename_canvas (\<lambda>_. ()) (createTaskboardCanvas gen tasks)
           = rename_canvas (\<lambda>_. ()) (createTaskboardCanvas gen' tasks)
    \<and> rename_canvas (\<lambda>_. ()) (createRiskMatrixCanvas gen risks)
           = rename_canvas (\<lambda>_. ()) (createRiskMatrixCanvas gen' risks)
    \<and> rename_canvas (\<lambda>_. ()) (createMindMapCanvas fp gen central branches)
           = rename_canvas (\<lambda>_. ()) (createMindMapCanvas fp gen' central branches)"
proof -
  have t: "createTaskboardCanvas g tasks
      = rename_canvas g (createTaskboardCanvas (\<lambda>k. k) tasks)" for g :: "'a idgen"
    using createTaskboardCanvas_rename[of g "\<lambda>k. k" tasks] by (simp add: comp_def)
  have r: "createRiskMatrixCanvas g risks
      = rename_canvas g (createRiskMatrixCanvas (\<lambda>k. k) risks)" for g :: "'a idgen"
    using createRiskMatrixCanvas_rename[of g "\<lambda>k. k" risks] by (simp add: comp_def)
  have m: "createMindMapCanvas fp g central branches
      = rename_canvas g (createMindMapCanvas fp (\<lambda>k. k) central branches)" for g :: "'a idgen"
    using createMindMapCanvas_rename[of fp g "\<lambda>k. k" central branches] by (simp add: comp_def)
  show ?thesis
    using t[of gen] r[of gen] m[of gen]
    by (simp add: t[of gen'] r[of gen'] m[of gen'] rename_canvas_erase)
qed

section \<open>Unique identifiers\<close>

lemma idsBelow_node:
  assumes "idsBelow k ns es" and "n_id n = k"
  shows "idsBelow (Suc k) (ns @ [n]) es"
  using assms by (fastforce simp: idsBelow_def list_all_iff ball_Un)

lemma idsBelow_node_edge:
  assumes "idsBelow k ns es" and "n_id n = k" and "e_id e = Suc k"
  shows "idsBelow (Suc (Suc k)) (ns @ [n]) (es @ [e])"
  using assms by (fastforce simp: idsBelow_def list_all_iff ball_Un)

lemma columnHeader_ids:
  assumes "idsBelow (snd st) (fst st) []"
  shows "idsBelow (snd (columnHeader (\<lambda>k. k) tasks ic st))
           (fst (columnHeader (\<lambda>k. k) tasks ic st)) []"
  using assms by (cases st; cases ic) (simp add: idsBelow_node)

lemma taskNode_ids:
  assumes "idsBelow (snd (snd st)) (fst st) []"
  shows "idsBelow (snd (snd (taskNode (\<lambda>k. k) t st))) (fst (taskNode (\<lambda>k. k) t st)) []"
  using assms by (cases st) (simp add: idsBelow_node Let_def)

lemma createTaskboardCanvas_ids:
  "distinct (graphIds (createTaskboardCanvas (\<lambda>k. k) tasks))"
proof -
  define r1 where "r1 = fold (columnHeader (\<lambda>k. k) tasks) (enumerate 0 columns) ([], 0)"
  have a: "idsBelow (snd r1) (fst r1) []"
    unfolding r1_def
    by (rule fold_invariant[where P = "\<lambda>st. idsBelow (snd st) (fst st) []"])
      (simp_all add: columnHeader_ids, simp add: idsBelow_def)
  define r2 where "r2 = fold (taskNode (\<lambda>k. k)) tasks (fst r1, columnCounts0, snd r1)"
  have b: "idsBelow (snd (snd r2)) (fst r2) []"
    unfolding r2_def
    by (rule fold_invariant[where P = "\<lambda>st. idsBelow (snd (snd st)) (fst st) []"])
      (simp_all add: taskNode_ids a)
  show ?thesis
    using b
    by (simp add: createTaskboardCanvas_def Let_def case_prod_beta graphIds_def idsBelow_def
        r1_def r2_def)
qed

lemma gridCell_ids:
  assumes "idsBelow (snd st) (fst st) []"
  shows "idsBelow (snd (gridCell (\<lambda>k. k) c st)) (fst (gridCell (\<lambda>k. k) c st)) []"
proof -
  obtain i impact j likelihood where c: "c = ((i, impact), (j, likelihood))"
    by (metis surj_pair)
  show ?thesis using assms by (cases st) (simp add: c idsBelow_node)
qed

lemma riskNode_ids:
  assumes "idsBelow (snd (snd st)) (fst st) []"
  shows "idsBelow (snd (snd (riskNode (\<lambda>k. k) r st))) (fst (riskNode (\<lambda>k. k) r st)) []"
  using assms by (cases st) (simp add: idsBelow_node Let_def)

lemma createRiskMatrixCanvas_ids:
  "distinct (graphIds (createRiskMatrixCanvas (\<lambda>k. k) risks))"
proof -
  define r1 where "r1 = fold (gridCell (\<lambda>k. k))
      (List.product (enumerate 0 levels) (enumerate 0 levels)) ([], 0)"
  have a: "idsBelow (snd r1) (fst r1) []"
    unfolding r1_def
    by (rule fold_invariant[where P = "\<lambda>st. idsBelow (snd st) (fst st) []"])
      (simp_all add: gridCell_ids, simp add: idsBelow_def)
  define r2 where "r2 = fold (riskNode (\<lambda>k. k)) risks (fst r1, (\<lambda>_. 0), snd r1)"
  have b: "idsBelow (snd (snd r2)) (fst r2) []"
    unfolding r2_def
    by (rule fold_invariant[where P = "\<lambda>st. idsBelow (snd (snd st)) (fst st) []"])
      (simp_all add: riskNode_ids a)
  show ?thesis
    using b
    by (simp add: createRiskMatrixCanvas_def Let_def case_prod_beta graphIds_def idsBelow_def
        r1_def r2_def)
qed

lemma subtopicNode_ids:
  assumes "idsBelow (snd (snd st)) (fst st) (fst (snd st))"
  shows "idsBelow (snd (snd (subtopicNode fp (\<lambda>k. k) bid bx by a0 da js st)))
           (fst (subtopicNode fp (\<lambda>k. k) bid bx by a0 da js st))
           (fst (snd (subtopicNode fp (\<lambda>k. k) bid bx by a0 da js st)))"
  using assms by (cases st; cases js) (simp add: idsBelow_node_edge Let_def)

lemma branchNode_ids:
  assumes "idsBelow (snd (snd st)) (fst st) (fst (snd st))"
  shows "idsBelow (snd (snd (branchNode fp (\<lambda>k. k) cid da ib st)))
           (fst (branchNode fp (\<lambda>k. k) cid da ib st))
           (fst (snd (branchNode fp (\<lambda>k. k) cid da ib st)))"
proof -
  obtain ns es k where st: "st = (ns, es, k)" by (cases st)
  obtain i b where ib: "ib = (i, b)" by (cases ib)
  show ?thesis
    unfolding st ib branchNode.simps Let_def
    by (rule fold_invariant[where P = "\<lambda>st. idsBelow (snd (snd st)) (fst st) (fst (snd st))"])
      (use assms in \<open>simp_all add: st subtopicNode_ids idsBelow_node_edge del: subtopicNode.simps\<close>)
qed

lemma createMindMapCanvas_ids:
  "distinct (graphIds (createMindMapCanvas fp (\<lambda>k. k) central branches))"
proof -
  define r where "r = fold (branchNode fp (\<lambda>k. k) 0
        (fdiv fp (fmul fp (Num 2) (fpi fp)) (Num (real (length branches)))))
      (enumerate 0 branches)
      ([\<lparr>n_id = 0, n_type = TextNode, n_x = Num (500 - 75), n_y = Num (400 - 40),
         n_width = Num 150, n_height = Num 80, n_text = Some (''# '' @ central),
         n_label = None, n_color = Some (Str ''5'')\<rparr>], [], 1)"
  have "idsBelow (snd (snd r)) (fst r) (fst (snd r))"
    unfolding r_def
    by (rule fold_invariant[where P = "\<lambda>st. idsBelow (snd (snd st)) (fst st) (fst (snd st))"])
      (simp_all add: branchNode_ids del: branchNode.simps, simp add: idsBelow_def)
  then show ?thesis
    by (simp add: createMindMapCanvas_def Let_def case_prod_beta graphIds_def idsBelow_def
        r_def del: branchNode.simps)
qed

lemma columnGroup_ids:
  assumes "idsBelow (snd st) (fst st) []"
  shows "idsBelow (snd (columnGroup (\<lambda>k. k) ic st)) (fst (columnGroup (\<lambda>k. k) ic st)) []"
  using assms by (cases st; cases ic) (simp add: idsBelow_node)

lemma taskLine_ids:
  assumes "idsBelow (snd (snd (snd st))) (fst st) []"
  shows "idsBelow (snd (snd (snd (taskLine (\<lambda>k. k) line st))))
           (fst (taskLine (\<lambda>k. k) line st)) []"
proof -
  obtain ns c tc k where st: "st = (ns, c, tc, k)" by (metis surj_pair)
  show ?thesis using assms by (simp add: st idsBelow_node Let_def case_prod_beta)
qed

lemma generateTaskboardFromDescription_ids:
  "distinct (graphIds (generateTaskboardFromDescription (\<lambda>k. k) description))"
proof -
  define r1 where "r1 = fold (columnGroup (\<lambda>k. k)) (enumerate 0 columns) ([], 0)"
  have a: "idsBelow (snd r1) (fst r1) []"
    unfolding r1_def
    by (rule fold_invariant[where P = "\<lambda>st. idsBelow (snd st) (fst st) []"])
      (simp_all add: columnGroup_ids, simp add: idsBelow_def)
  define r2 where "r2 = fold (taskLine (\<lambda>k. k)) (nonBlankLines description)
      (fst r1, 0, [0, 0, 0, 0], snd r1)"
  have b: "idsBelow (snd (snd (snd r2))) (fst r2) []"
    unfolding r2_def
    by (rule fold_invariant[where P = "\<lambda>st. idsBelow (snd (snd (snd st))) (fst st) []"])
      (simp_all add: taskLine_ids a del: taskLine.simps)
  have c: "idsBelow (Suc (snd (snd (snd r2))))
      (fst r2 @ [\<lparr>n_id = snd (snd (snd r2)), n_type = TextNode,
                   n_x = Num 20, n_y = Num 60,
                   n_width = Num (250 - 2 * 20), n_height = Num 80,
                   n_text = Some (''Add tasks from:'' @ [CHR 0x0A, CHR 0x0A]
                                  @ substring0 100 description @ ''...''),
                   n_label = None, n_color = None\<rparr>]) []"
    by (rule idsBelow_node[OF b]) simp
  show ?thesis
    using b c
    by (simp add: generateTaskboardFromDescription_def Let_def case_prod_beta graphIds_def
        idsBelow_def r1_def r2_def del: taskLine.simps)
qed

lemma matrixCell_ids:
  assumes "idsBelow (snd st) (fst st) []"
  shows "idsBelow (snd (matrixCell (\<lambda>k. k) c st)) (fst (matrixCell (\<lambda>k. k) c st)) []"
proof -
  obtain i impact j likelihood where c: "c = ((i, impact), (j, likelihood))"
    by (metis surj_pair)
  show ?thesis using assms by (cases st) (simp add: c idsBelow_node)
qed

lemma riskLine_ids:
  assumes "idsBelow (snd (snd st)) (fst st) []"
  shows "idsBelow (snd (snd (riskLine (\<lambda>k. k) line st))) (fst (riskLine (\<lambda>k. k) line st)) []"
  using assms by (cases st) (simp add: idsBelow_node Let_def)

lemma generateRiskMatrixFromDescription_ids:
  "distinct (graphIds (generateRiskMatrixFromDescription (\<lambda>k. k) description))"
proof -
  define r1 where "r1 = fold (matrixCell (\<lambda>k. k))
      (List.product (enumerate 0 levels) (enumerate 0 levels)) (axisLabels (\<lambda>k. k), 2)"
  have a: "idsBelow (snd r1) (fst r1) []"
    unfolding r1_def
    by (rule fold_invariant[where P = "\<lambda>st. idsBelow (snd st) (fst st) []"])
      (simp_all add: matrixCell_ids, simp add: idsBelow_def axisLabels_def)
  define r2 where "r2 = fold (riskLine (\<lambda>k. k)) (nonBlankLines description)
      (fst r1, Map.empty, snd r1)"
  have b: "idsBelow (snd (snd r2)) (fst r2) []"
    unfolding r2_def
    by (rule fold_invariant[where P = "\<lambda>st. idsBelow (snd (snd st)) (fst st) []"])
      (simp_all add: riskLine_ids a del: riskLine.simps)
  show ?thesis
    using b
    by (simp add: generateRiskMatrixFromDescription_def Let_def case_prod_beta graphIds_def
        idsBelow_def r1_def r2_def del: riskLine.simps)
qed

lemma subtopicItem_ids:
  assumes "idsBelow (snd (snd st)) (fst st) (fst (snd st))"
  shows "idsBelow (snd (snd (subtopicItem fp (\<lambda>k. k) bid bx by a0 da js st)))
           (fst (subtopicItem fp (\<lambda>k. k) bid bx by a0 da js st))
           (fst (snd (subtopicItem fp (\<lambda>k. k) bid bx by a0 da js st)))"
  using assms by (cases st; cases js) (simp add: idsBelow_node_edge Let_def)

lemma branchItem_ids:
  assumes "idsBelow (snd (snd st)) (fst st) (fst (snd st))"
  shows "idsBelow (snd (snd (branchItem fp (\<lambda>k. k) cid da ib st)))
           (fst (branchItem fp (\<lambda>k. k) cid da ib st))
           (fst (snd (branchItem fp (\<lambda>k. k) cid da ib st)))"
proof -
  obtain ns es k where st: "st = (ns, es, k)" by (cases st)
  obtain i b where ib: "ib = (i, b)" by (cases ib)
  show ?thesis
  proof (cases "length (b_subtopics b) > 0")
    case True
    show ?thesis
      unfolding st ib branchItem.simps Let_def
      by (simp only: True if_True)
        (rule fold_invariant[where
            P = "\<lambda>st. idsBelow (snd (snd st)) (fst st) (fst (snd st))"],
          use assms in \<open>simp_all add: st subtopicItem_ids idsBelow_node_edge
            del: subtopicItem.simps\<close>)
  next
    case False
    with assms show ?thesis
      by (simp add: st ib Let_def idsBelow_node_edge)
  qed
qed

lemma layoutMindMap_ids:
  "distinct (graphIds (layoutMindMap fp (\<lambda>k. k) central branches))"
proof -
  define r where "r = fold (branchItem fp (\<lambda>k. k) 0
        (if length branches > 0
         then fdiv fp (fmul fp (Num 2) (fpi fp)) (Num (real (length branches)))
         else Num 0))
      (enumerate 0 branches)
      ([\<lparr>n_id = 0, n_type = TextNode, n_x = Num (500 - 75), n_y = Num (400 - 40),
         n_width = Num 150, n_height = Num 80, n_text = Some (''# '' @ central),
         n_label = None, n_color = Some (Str ''5'')\<rparr>], [], 1)"
  have "idsBelow (snd (snd r)) (fst r) (fst (snd r))"
    unfolding r_def
    by (rule fold_invariant[where P = "\<lambda>st. idsBelow (snd (snd st)) (fst st) (fst (snd st))"])
      (simp_all add: branchItem_ids del: branchItem.simps, simp add: idsBelow_def)
  then show ?thesis
    by (simp add: layoutMindMap_def Let_def case_prod_beta graphIds_def idsBelow_def
        r_def del: branchItem.simps)
qed

lemma generateMindMapFromDescription_ids:
  "distinct (graphIds (generateMindMapFromDescription fp (\<lambda>k. k) description))"
  by (simp add: generateMindMapFromDescription_def case_prod_beta layoutMindMap_ids)

lemma generateCustomCanvas_ids:
  "distinct (graphIds (generateCustomCanvas (\<lambda>k. k) description))"
  by (simp add: generateCustomCanvas_def graphIds_def)

lemma graphIds_rename: "graphIds (rename_canvas f d) = map f (graphIds d)"
  by (simp add: graphIds_def rename_canvas_def rename_node_def rename_edge_def comp_def)

lemma uniqueIds_calls:
  assumes "inj_on f (callsOf d)" and "distinct (graphIds d)"
  shows "uniqueIds (rename_canvas f d)"
proof -
  have "distinct (graphIds (rename_canvas f d))"
    using assms by (simp add: graphIds_rename distinct_map callsOf_def)
  then show ?thesis by (simp add: uniqueIds_def graphIds_def)
qed

text \<open>The ids that the validator gives to the nodes and to the edges it keeps.\<close>

lemma idOr_hasId:
  "idOr gen (propOf x ''id'') k
     = (if hasId x then (the (propOf x ''id''), k) else (JString (gen k), Suc k))"
  by (simp add: idOr_def hasId_def truthyProp_def split: option.splits)

lemma fixEntry_ids:
  assumes "x \<noteq> JNull"
  shows "map fn_id (fst (fixEntry gen x (ns, k)))
           = map fn_id ns @ [fst (idOr gen (propOf x ''id'') k)]"
    and "snd (fixEntry gen x (ns, k)) = snd (idOr gen (propOf x ''id'') k)"
  using assms by (simp_all add: fixEntry_def case_prod_beta)

lemma fold_fixEntry_ids:
  assumes "JNull \<notin> set xs"
  shows "map fn_id (fst (fold (fixEntry gen) xs (ns, k))) = map fn_id ns @ assignIds gen xs k"
  using assms
proof (induction xs arbitrary: ns k)
  case Nil
  show ?case by simp
next
  case (Cons x xs)
  then have x: "x \<noteq> JNull" and xs: "JNull \<notin> set xs" by auto
  obtain ns' k' where s: "fixEntry gen x (ns, k) = (ns', k')"
    by (cases "fixEntry gen x (ns, k)")
  from fixEntry_ids[OF x, of gen ns k] s
  have "map fn_id ns' = map fn_id ns @ [fst (idOr gen (propOf x ''id'') k)]"
    and "k' = snd (idOr gen (propOf x ''id'') k)"
    by simp_all
  then show ?case
    using Cons.IH[OF xs, of ns' k'] by (simp add: s)
qed

lemma fold_fixEntry_calls:
  assumes "JNull \<notin> set xs"
  shows "snd (fold (fixEntry gen) xs (ns, k)) = k + missingIds xs"
  using assms
proof (induction xs arbitrary: ns k)
  case Nil
  show ?case by (simp add: missingIds_def)
next
  case (Cons x xs)
  then have x: "x \<noteq> JNull" and xs: "JNull \<notin> set xs" by auto
  obtain ns' k' where s: "fixEntry gen x (ns, k) = (ns', k')"
    by (cases "fixEntry gen x (ns, k)")
  from fixEntry_ids(2)[OF x, of gen ns k] s
  have "k' = (if hasId x then k else Suc k)"
    by (simp add: idOr_hasId)
  then show ?case
    using Cons.IH[OF xs, of ns' k'] by (simp add: s missingIds_def)
qed

lemma fold_fixEdge_ids:
  "map fe_id (fst (fold (fixEdge gen) xs (es, k))) = map fe_id es @ assignIds gen xs k"
proof (induction xs arbitrary: es k)
  case Nil
  show ?case by simp
next
  case (Cons x xs)
  obtain es' k' where s: "fixEdge gen x (es, k) = (es', k')"
    by (cases "fixEdge gen x (es, k)")
  then have "map fe_id es' = map fe_id es @ [fst (idOr gen (propOf x ''id'') k)]"
    and "k' = snd (idOr gen (propOf x ''id'') k)"
    by (auto simp: case_prod_beta Let_def)
  then show ?case
    using Cons.IH[of es' k'] by (simp add: s del: fixEdge.simps)
qed

text \<open>
  The ids given to a list of entries are pairwise distinct when the ids of the entries
  are, the generated identifiers are, and no entry has a generated identifier as its id.
\<close>

lemma assignIds_subset:
  "set (assignIds gen xs k)
     \<subseteq> the ` set (givenIds xs) \<union> (\<lambda>j. JString (gen j)) ` {k..<k + missingIds xs}"
proof (induction xs arbitrary: k)
  case Nil
  show ?case by simp
next
  case (Cons x xs)
  show ?case
  proof (cases "hasId x")
    case True
    then have a: "assignIds gen (x # xs) k = the (propOf x ''id'') # assignIds gen xs k"
      and g: "givenIds (x # xs) = propOf x ''id'' # givenIds xs"
      and m: "missingIds (x # xs) = missingIds xs"
      by (simp_all add: idOr_hasId givenIds_def missingIds_def)
    show ?thesis
      using Cons.IH[of k] unfolding a g m by auto
  next
    case False
    then have a: "assignIds gen (x # xs) k = JString (gen k) # assignIds gen xs (Suc k)"
      and g: "givenIds (x # xs) = givenIds xs"
      and m: "missingIds (x # xs) = Suc (missingIds xs)"
      by (simp_all add: idOr_hasId givenIds_def missingIds_def)
    have "{k..<k + Suc (missingIds xs)} = insert k {Suc k..<Suc k + missingIds xs}"
      by auto
    then show ?thesis
      using Cons.IH[of "Suc k"] unfolding a g m by auto
  qed
qed

lemma givenIds_the:
  assumes "v \<in> set (givenIds xs)"
  shows "v = Some (the v)"
  using assms by (auto simp: givenIds_def hasId_def truthyProp_def split: option.splits)

lemma assignIds_distinct:
  assumes "inj_on gen {..<N}" and "k + missingIds xs \<le> N"
    and "distinct (givenIds xs)"
    and "\<forall>j<N. Some (JString (gen j)) \<notin> set (givenIds xs)"
  shows "distinct (assignIds gen xs k)"
  using assms(2-)
proof (induction xs arbitrary: k)
  case Nil
  show ?case by simp
next
  case (Cons x xs)
  show ?case
  proof (cases "hasId x")
    case True
    then have g: "givenIds (x # xs) = propOf x ''id'' # givenIds xs"
      and m: "missingIds (x # xs) = missingIds xs"
      by (simp_all add: givenIds_def missingIds_def)
    from True obtain w where w: "propOf x ''id'' = Some w"
      by (auto simp: hasId_def truthyProp_def split: option.splits)
    have d: "distinct (assignIds gen xs k)"
      using Cons.prems by (intro Cons.IH) (simp_all add: g m)
    have "w \<notin> set (assignIds gen xs k)"
    proof
      assume "w \<in> set (assignIds gen xs k)"
      then have "w \<in> the ` set (givenIds xs)
          \<union> (\<lambda>j. JString (gen j)) ` {k..<k + missingIds xs}"
        using assignIds_subset[of gen xs k] by (rule rev_subsetD)
      then consider "w \<in> the ` set (givenIds xs)"
        | j where "k \<le> j" "j < k + missingIds xs" "w = JString (gen j)"
        by auto
      then show False
      proof cases
        case 1
        then obtain v where v: "v \<in> set (givenIds xs)" "w = the v" by auto
        with givenIds_the[OF v(1)] have "Some w \<in> set (givenIds xs)" by simp
        with Cons.prems(2) show False by (simp add: g w)
      next
        case 2
        with Cons.prems(1) have "j < N" by (simp add: m)
        with Cons.prems(3) 2(3) show False by (auto simp: g w)
      qed
    qed
    moreover have "assignIds gen (x # xs) k = w # assignIds gen xs k"
      using True by (simp add: idOr_hasId) (simp add: w)
    ultimately show ?thesis using d by simp
  next
    case False
    then have g: "givenIds (x # xs) = givenIds xs"
      and m: "missingIds (x # xs) = Suc (missingIds xs)"
      by (simp_all add: givenIds_def missingIds_def)
    have d: "distinct (assignIds gen xs (Suc k))"
      using Cons.prems by (intro Cons.IH) (simp_all add: g m)
    have kN: "k < N" using Cons.prems(1) by (simp add: m)
    have "JString (gen k) \<notin> set (assignIds gen xs (Suc k))"
    proof
      assume "JString (gen k) \<in> set (assignIds gen xs (Suc k))"
      then have "JString (gen k) \<in> the ` set (givenIds xs)
          \<union> (\<lambda>j. JString (gen j)) ` {Suc k..<Suc k + missingIds xs}"
        using assignIds_subset[of gen xs "Suc k"] by (rule rev_subsetD)
      then consider "JString (gen k) \<in> the ` set (givenIds xs)"
        | j where "Suc k \<le> j" "j < Suc k + missingIds xs" "JString (gen k) = JString (gen j)"
        by auto
      then show False
      proof cases
        case 1
        then obtain v where v: "v \<in> set (givenIds xs)" "JString (gen k) = the v" by auto
        with givenIds_the[OF v(1)] have "Some (JString (gen k)) \<in> set (givenIds xs)" by simp
        with Cons.prems(3) kN show False by (auto simp: g)
      next
        case 2
        with Cons.prems(1) have "j < N" by (simp add: m)
        with 2 kN assms(1) show False by (auto dest: inj_onD)
      qed
    qed
    moreover have "assignIds gen (x # xs) k = JString (gen k) # assignIds gen xs (Suc k)"
      using False by (simp add: idOr_hasId)
    ultimately show ?thesis using d by simp
  qed
qed

lemma givenIds_filter_subset: "set (givenIds (filter P xs)) \<subseteq> set (givenIds xs)"
  by (auto simp: givenIds_def)

lemma givenIds_filter_distinct:
  "distinct (givenIds xs) \<Longrightarrow> distinct (givenIds (filter P xs))"
proof (induction xs)
  case Nil
  show ?case by (simp add: givenIds_def)
next
  case (Cons x xs)
  show ?case
  proof (cases "hasId x \<and> P x")
    case True
    then have g: "givenIds (x # xs) = propOf x ''id'' # givenIds xs"
      and f: "givenIds (filter P (x # xs)) = propOf x ''id'' # givenIds (filter P xs)"
      by (simp_all add: givenIds_def)
    from Cons.prems have "propOf x ''id'' \<notin> set (givenIds xs)" and "distinct (givenIds xs)"
      by (simp_all add: g)
    with givenIds_filter_subset[of P xs] Cons.IH show ?thesis
      unfolding f by auto
  next
    case False
    then have "givenIds (filter P (x # xs)) = givenIds (filter P xs)"
      by (auto simp: givenIds_def)
    moreover have "distinct (givenIds xs)"
      using Cons.prems by (cases "hasId x") (simp_all add: givenIds_def)
    ultimately show ?thesis
      using Cons.IH by simp
  qed
qed

lemma missingIds_filter: "missingIds (filter P xs) \<le> missingIds xs"
proof -
  have "length (filter (\<lambda>x. \<not> hasId x) (filter P xs)) \<le> length (filter (\<lambda>x. \<not> hasId x) xs)"
    by (induction xs) auto
  then show ?thesis
    by (simp add: missingIds_def)
qed

lemma validate_unique_nodes:
  assumes ret: "validateAndFixCanvasData gen data = Inr out"
    and "inj_on gen {..<missingIds (entries (propOf data ''nodes''))}"
    and "distinct (givenIds (entries (propOf data ''nodes'')))"
    and "\<forall>j<missingIds (entries (propOf data ''nodes'')).
           Some (JString (gen j)) \<notin> set (givenIds (entries (propOf data ''nodes'')))"
  shows "distinct (map fn_id (fc_nodes out))"
proof -
  have w: "wellShaped data"
    using ret validate_returns_iff[of gen data] by blast
  then have nn: "JNull \<notin> set (entries (propOf data ''nodes''))"
    by (simp add: wellShaped_def nullFreeArray_entries)
  from ret validate_wellShaped[OF w, of gen]
  have "fc_nodes out = fst (fold (fixEntry gen) (entries (propOf data ''nodes'')) ([], 0))"
    by auto
  then have "map fn_id (fc_nodes out) = assignIds gen (entries (propOf data ''nodes'')) 0"
    by (simp add: fold_fixEntry_ids[OF nn])
  moreover have "distinct (assignIds gen (entries (propOf data ''nodes'')) 0)"
    by (rule assignIds_distinct[OF assms(2) _ assms(3,4)]) simp
  ultimately show ?thesis by simp
qed

lemma validate_unique_edges:
  assumes ret: "validateAndFixCanvasData gen data = Inr out"
    and "inj_on gen {..<missingIds (entries (propOf data ''nodes''))
                        + missingIds (entries (propOf data ''edges''))}"
    and "distinct (givenIds (entries (propOf data ''edges'')))"
    and "\<forall>j<missingIds (entries (propOf data ''nodes''))
               + missingIds (entries (propOf data ''edges'')).
           Some (JString (gen j)) \<notin> set (givenIds (entries (propOf data ''edges'')))"
  shows "distinct (map fe_id (fc_edges out))"
proof -
  have w: "wellShaped data"
    using ret validate_returns_iff[of gen data] by blast
  then have nn: "JNull \<notin> set (entries (propOf data ''nodes''))"
    by (simp add: wellShaped_def nullFreeArray_entries)
  define ns where "ns = fst (fold (fixEntry gen) (entries (propOf data ''nodes'')) ([], 0))"
  define kept where "kept = filter (keeps (map fn_id ns)) (entries (propOf data ''edges''))"
  from ret validate_wellShaped[OF w, of gen]
  have "fc_edges out = fst (fold (fixEdge gen) kept
      ([], snd (fold (fixEntry gen) (entries (propOf data ''nodes'')) ([], 0))))"
    unfolding kept_def ns_def by auto
  then have "map fe_id (fc_edges out)
      = assignIds gen kept (missingIds (entries (propOf data ''nodes'')))"
    by (simp add: fold_fixEdge_ids fold_fixEntry_calls[OF nn])
  moreover have "distinct (assignIds gen kept (missingIds (entries (propOf data ''nodes''))))"
  proof (rule assignIds_distinct[OF assms(2)])
    show "missingIds (entries (propOf data ''nodes'')) + missingIds kept
        \<le> missingIds (entries (propOf data ''nodes'')) + missingIds (entries (propOf data ''edges''))"
      unfolding kept_def using missingIds_filter by simp
    show "distinct (givenIds kept)"
      unfolding kept_def by (rule givenIds_filter_distinct[OF assms(3)])
    show "\<forall>j<missingIds (entries (propOf data ''nodes''))
               + missingIds (entries (propOf data ''edges'')).
           Some (JString (gen j)) \<notin> set (givenIds kept)"
      using assms(4) givenIds_filter_subset[of "keeps (map fn_id ns)" "entries (propOf data ''edges'')"]
      unfolding kept_def by blast
  qed
  ultimately show ?thesis by simp
qed

text \<open>
  Claim C2, as stated: no graph produced by a layout generator or by the validator has two
  nodes, or two edges, with the same id, and two calls to the generator return distinct
  identifiers.  Neither holds.

  The validator keeps every truthy id of its input: on the text
  \<^verbatim>\<open>{"nodes": [{"id": "a"}, {"id": "a"}]}\<close> it returns two nodes with the id \<^verbatim>\<open>a\<close>.  It
  compares no id it generates with the ids of the input: a node without an id gets the
  identifier that another node of the input has already, when the input has it.

  \<^verbatim>\<open>generateId\<close> keeps the first 16 of the 32 digits of a UUID: two different UUIDs with
  the same first 16 digits give one identifier, and the taskboard built with them has
  columns with the same id.  \<^verbatim>\<open>generateUniqueId\<close> keeps seven digits of the random
  number and appends the time in milliseconds: two calls within one millisecond whose
  random numbers agree in these digits give one identifier.  Nothing in the generators
  compares the identifiers they are given.
\<close>

theorem validator_keeps_duplicate_ids:
  "map fn_id (fc_nodes (projr (validateAndFixCanvasData (pluginIds sampleRandoms sampleClock)
      duplicateCanvas))) = [JString ''a'', JString ''a'']
   \<and> map fn_id (fc_nodes (projr (validateAndFixCanvasData (pluginIds sampleRandoms sampleClock)
      guessedIdCanvas)))
     = [JString (pluginIds sampleRandoms sampleClock 0),
        JString (pluginIds sampleRandoms sampleClock 0)]
   \<and> closeUuids 0 \<noteq> closeUuids 1
   \<and> generateId (closeUuids 0) = generateId (closeUuids 1)
   \<and> \<not> uniqueIds (generateTaskboardFromDescription (serverIds closeUuids) ''Write docs'')
   \<and> closeRandoms 0 \<noteq> closeRandoms 1
   \<and> generateUniqueId (closeRandoms 0) (sameMillisecond 0)
     = generateUniqueId (closeRandoms 1) (sameMillisecond 1)
   \<and> \<not> uniqueIds (createTaskboardCanvas (pluginIds closeRandoms sameMillisecond) [])"
proof (intro conjI)
  show "map fn_id (fc_nodes (projr (validateAndFixCanvasData (pluginIds sampleRandoms sampleClock)
      duplicateCanvas))) = [JString ''a'', JString ''a'']"
    by (simp add: validateAndFixCanvasData_def duplicateCanvas_def arrayOrEmpty_def idOr_def)
  show "map fn_id (fc_nodes (projr (validateAndFixCanvasData (pluginIds sampleRandoms sampleClock)
      guessedIdCanvas)))
     = [JString (pluginIds sampleRandoms sampleClock 0),
        JString (pluginIds sampleRandoms sampleClock 0)]"
    by (simp add: validateAndFixCanvasData_def guessedIdCanvas_def arrayOrEmpty_def idOr_def
        pluginIds_def generateUniqueId_def)
  show "closeUuids 0 \<noteq> closeUuids 1"
    by (simp add: closeUuids_def digit36_def)
  show g: "generateId (closeUuids 0) = generateId (closeUuids 1)"
    by (simp add: generateId_def closeUuids_def substring0_def)
  show "\<not> uniqueIds (generateTaskboardFromDescription (serverIds closeUuids) ''Write docs'')"
    by code_simp
  show "closeRandoms 0 \<noteq> closeRandoms 1"
    by (simp add: closeRandoms_def digit36_def)
  show u: "generateUniqueId (closeRandoms 0) (sameMillisecond 0)
     = generateUniqueId (closeRandoms 1) (sameMillisecond 1)"
    by (simp add: generateUniqueId_def closeRandoms_def sameMillisecond_def)
  have "pluginIds closeRandoms sameMillisecond 0 = pluginIds closeRandoms sameMillisecond 1"
    using u by (simp add: pluginIds_def)
  then show "\<not> uniqueIds (createTaskboardCanvas (pluginIds closeRandoms sameMillisecond) [])"
    by (simp add: uniqueIds_def createTaskboardCanvas_def columns_def case_prod_beta Let_def)
qed

text \<open>
  Claim C2, amended.  Every identifier of a graph produced by a layout generator is the
  result of a call of its own to the identifier generator (\<^verbatim>\<open>generateUniqueId\<close> in the
  plugin, \<^verbatim>\<open>generateId\<close> in the server).  So, whatever the random source and the clock
  return, if the identifiers returned by the calls made during one graph construction
  are pairwise distinct, then no two nodes of the graph share an id and no two edges
  share an id.  When the validator returns, its result has no two nodes with the same id
  provided that, moreover, the truthy ids of the input nodes are pairwise distinct and
  none of them is one of the generated identifiers; likewise for its edges.
\<close>

theorem generated_graphs_unique_ids:
  fixes randoms uuids :: "nat \<Rightarrow> string" and clock :: "nat \<Rightarrow> nat"
  shows
   "(inj_on (pluginIds randoms clock) (callsOf (createTaskboardCanvas (\<lambda>k. k) tasks))
       \<longrightarrow> uniqueIds (createTaskboardCanvas (pluginIds randoms clock) tasks))
    \<and> (inj_on (pluginIds randoms clock) (callsOf (createRiskMatrixCanvas (\<lambda>k. k) risks))
       \<longrightarrow> uniqueIds (createRiskMatrixCanvas (pluginIds randoms clock) risks))
    \<and> (inj_on (pluginIds randoms clock)
          (callsOf (createMindMapCanvas fp (\<lambda>k. k) central branches))
       \<longrightarrow> uniqueIds (createMindMapCanvas fp (pluginIds randoms clock) central branches))
    \<and> (inj_on (serverIds uuids)
          (callsOf (generateTaskboardFromDescription (\<lambda>k. k) description))
       \<longrightarrow> uniqueIds (generateTaskboardFromDescription (serverIds uuids) description))
    \<and> (inj_on (serverIds uuids)
          (callsOf (generateRiskMatrixFromDescription (\<lambda>k. k) description))
       \<longrightarrow> uniqueIds (generateRiskMatrixFromDescription (serverIds uuids) description))
    \<and> (inj_on (serverIds uuids)
          (callsOf (generateMindMapFromDescription fp (\<lambda>k. k) description))
       \<longrightarrow> uniqueIds (generateMindMapFromDescription fp (serverIds uuids) description))
    \<and> uniqueIds (generateCustomCanvas (serverIds uuids) description)
    \<and> (validateAndFixCanvasData (pluginIds randoms clock) data = Inr out
        \<and> inj_on (pluginIds randoms clock) {..<missingIds (entries (propOf data ''nodes''))}
        \<and> distinct (givenIds (entries (propOf data ''nodes'')))
        \<and> (\<forall>j<missingIds (entries (propOf data ''nodes'')).
              Some (JString (pluginIds randoms clock j))
                \<notin> set (givenIds (entries (propOf data ''nodes''))))
       \<longrightarrow> distinct (map fn_id (fc_nodes out)))
    \<and> (validateAndFixCanvasData (pluginIds randoms clock) data = Inr out
        \<and> inj_on (pluginIds randoms clock)
             {..<missingIds (entries (propOf data ''nodes''))
                 + missingIds (entries (propOf data ''edges''))}
        \<and> distinct (givenIds (entries (propOf data ''edges'')))
        \<and> (\<forall>j<missingIds (entries (propOf data ''nodes''))
                  + missingIds (entries (propOf data ''edges'')).
              Some (JString (pluginIds randoms clock j))
                \<notin> set (givenIds (entries (propOf data ''edges''))))
       \<longrightarrow> distinct (map fe_id (fc_edges out)))"
proof -
  have g: "gen \<circ> (\<lambda>k. k) = gen" for gen :: "string idgen"
    by (simp add: comp_def)
  have 1: "uniqueIds (createTaskboardCanvas gen tasks)"
    if "inj_on gen (callsOf (createTaskboardCanvas (\<lambda>k. k) tasks))" for gen :: "string idgen"
    using uniqueIds_calls[OF that createTaskboardCanvas_ids]
    by (simp add: createTaskboardCanvas_rename[symmetric] g)
  have 2: "uniqueIds (createRiskMatrixCanvas gen risks)"
    if "inj_on gen (callsOf (createRiskMatrixCanvas (\<lambda>k. k) risks))" for gen :: "string idgen"
    using uniqueIds_calls[OF that createRiskMatrixCanvas_ids]
    by (simp add: createRiskMatrixCanvas_rename[symmetric] g)
  have 3: "uniqueIds (createMindMapCanvas fp gen central branches)"
    if "inj_on gen (callsOf (createMindMapCanvas fp (\<lambda>k. k) central branches))"
    for gen :: "string idgen"
    using uniqueIds_calls[OF that createMindMapCanvas_ids]
    by (simp add: createMindMapCanvas_rename[symmetric] g)
  have 4: "uniqueIds (generateTaskboardFromDescription gen description)"
    if "inj_on gen (callsOf (generateTaskboardFromDescription (\<lambda>k. k) description))"
    for gen :: "string idgen"
    using uniqueIds_calls[OF that generateTaskboardFromDescription_ids]
    by (simp add: generateTaskboardFromDescription_rename[symmetric] g)
  have 5: "uniqueIds (generateRiskMatrixFromDescription gen description)"
    if "inj_on gen (callsOf (generateRiskMatrixFromDescription (\<lambda>k. k) description))"
    for gen :: "string idgen"
    using uniqueIds_calls[OF that generateRiskMatrixFromDescription_ids]
    by (simp add: generateRiskMatrixFromDescription_rename[symmetric] g)
  have 6: "uniqueIds (generateMindMapFromDescription fp gen description)"
    if "inj_on gen (callsOf (generateMindMapFromDescription fp (\<lambda>k. k) description))"
    for gen :: "string idgen"
    using uniqueIds_calls[OF that generateMindMapFromDescription_ids]
    by (simp add: generateMindMapFromDescription_rename[symmetric] g)
  have 7: "uniqueIds (generateCustomCanvas gen description)" for gen :: "string idgen"
    by (simp add: uniqueIds_def generateCustomCanvas_def)
  show ?thesis
    using 1 2 3 4 5 6 7 validate_unique_nodes[of "pluginIds randoms clock" data out]
      validate_unique_edges[of "pluginIds randoms clock" data out]
    by blast
qed

text \<open>
  Sample runs.  The calls that build a mind map with a branch of six subtopics in the
  plugin, and the taskboard of the scenario in the server, return pairwise distinct
  identifiers, and so do the two calls of the validator on the sample graph.
\<close>

lemma sample_plugin_ids:
  "distinct (map (pluginIds sampleRandoms sampleClock) [0..<15])"
  by (simp add: upt_rec pluginIds_def sampleRandoms_def sampleClock_def generateUniqueId_def
      digit36_def)

lemma sample_server_ids:
  "distinct (map (serverIds sampleUuids) [0..<7])"
  by (simp add: upt_rec serverIds_def sampleUuids_def generateId_def substring0_def digit36_def)

theorem generated_graphs_unique_ids_witness:
  "uniqueIds (createMindMapCanvas sampleArith (pluginIds sampleRandoms sampleClock) ''Plan''
      [sixSubtopics])
   \<and> uniqueIds (generateTaskboardFromDescription (serverIds sampleUuids) taskboardScenario)
   \<and> distinct (map fn_id (fc_nodes (projr (validateAndFixCanvasData
        (pluginIds sampleRandoms sampleClock) sampleCanvas))))
   \<and> distinct (map fe_id (fc_edges (projr (validateAndFixCanvasData
        (pluginIds sampleRandoms sampleClock) sampleCanvas))))"
proof -
  let ?p = "pluginIds sampleRandoms sampleClock"
  have c1: "callsOf (createMindMapCanvas sampleArith (\<lambda>k. k) ''Plan'' [sixSubtopics])
      = set [0..<15]"
    by (simp add: callsOf_def graphIds_def createMindMapCanvas_def sixSubtopics_def upt_rec
        Let_def) auto
  have c2: "callsOf (generateTaskboardFromDescription (\<lambda>k. k) taskboardScenario) = set [0..<7]"
  proof -
    have "graphIds (generateTaskboardFromDescription (\<lambda>k. k) taskboardScenario) = [0..<7]"
      by code_simp
    then show ?thesis by (simp add: callsOf_def)
  qed
  have i1: "inj_on ?p (callsOf (createMindMapCanvas sampleArith (\<lambda>k. k) ''Plan''
      [sixSubtopics]))"
    unfolding c1 using sample_plugin_ids by (simp only: distinct_map)
  have i2: "inj_on (serverIds sampleUuids)
      (callsOf (generateTaskboardFromDescription (\<lambda>k. k) taskboardScenario))"
    unfolding c2 using sample_server_ids by (simp only: distinct_map)
  have w: "wellShaped sampleCanvas"
    by (simp add: wellShaped_def sampleCanvas_def nullFreeArray_def)
  obtain out where out: "validateAndFixCanvasData ?p sampleCanvas = Inr out"
    using w validate_returns_iff[of ?p sampleCanvas] by blast
  have mn: "missingIds (entries (propOf sampleCanvas ''nodes'')) = 2"
    and me: "missingIds (entries (propOf sampleCanvas ''edges'')) = 1"
    and gn: "givenIds (entries (propOf sampleCanvas ''nodes''))
        = [Some (JString ''a''), Some (JString ''b'')]"
    and ge: "givenIds (entries (propOf sampleCanvas ''edges'')) = [Some (JString ''e'')]"
    by (simp_all add: sampleCanvas_def entries_def missingIds_def givenIds_def hasId_def
        truthyProp_def)
  have "distinct (map ?p [0..<3])"
    using sample_plugin_ids by (simp add: upt_rec)
  then have i3: "inj_on ?p {..<3}"
    by (simp add: distinct_map lessThan_atLeast0 del: upt_Suc)
  then have i4: "inj_on ?p {..<2}"
    by (rule inj_on_subset) simp
  have "?p 0 = ''am2niv3loyw3v28''" and "?p (Suc 0) = ''l85b1q6loyw3v28''"
    and "?p (Suc (Suc 0)) = ''vu7ykl9loyw3v28''"
    by (simp_all add: pluginIds_def sampleRandoms_def sampleClock_def generateUniqueId_def
        digit36_def)
  then have ne: "\<forall>j<3. ?p j \<noteq> ''a'' \<and> ?p j \<noteq> ''b'' \<and> ?p j \<noteq> ''e''"
    by (auto simp: numeral_3_eq_3 less_Suc_eq)
  from generated_graphs_unique_ids[of sampleRandoms sampleClock _ _ sampleArith
      "''Plan''" "[sixSubtopics]" sampleUuids taskboardScenario sampleCanvas out]
    i1 i2 i3 i4 out mn me gn ge ne
  show ?thesis by simp
qed

end
